(* ===== verification/Prelude.thy ===== *)
theory Prelude
  imports Main "HOL-Library.Word" "HOL-Library.AList" "HOL-Library.Multiset"
begin

text \<open>
  Shared vocabulary of the development: the types that stand for Go's built-in ones, the result
  type of operations that can panic or block, Go maps as association lists, and the lemmas on
  lists, results and maps that the component theories use.

  \<^item> A Go \<^verbatim>\<open>string\<close> and a Go \<^verbatim>\<open>[]byte\<close> are both byte sequences; a \<^typ>\<open>char\<close> of HOL is an
    8-bit value, so both are \<open>string\<close> and the conversions \<^verbatim>\<open>string(b)\<close> and \<^verbatim>\<open>[]byte(s)\<close> are the
    identity. Where the code distinguishes a nil slice from an empty one the model uses \<open>option\<close>.
  \<^item> \<^verbatim>\<open>uint64\<close> is a 64-bit word. \<^verbatim>\<open>*big.Int\<close> is \<open>int\<close>. A \<^verbatim>\<open>time.Time\<close> is an \<open>int\<close>
    whose zero is Go's zero instant, so \<^verbatim>\<open>t.IsZero()\<close> is \<open>t = 0\<close>.
  \<^item> A Go map that is only looked up and stored to is a HOL map. A Go map that is ranged over or
    measured with \<^verbatim>\<open>len\<close> is an association list with distinct keys, whose order stands for the
    order in which the range statement visits the keys; Go leaves that order open, and every
    theorem is about an arbitrary list.
\<close>

type_synonym bytes = string
type_synonym u64 = "64 word"
type_synonym go_time = int
type_synonym ('k, 'v) gomap = "('k \<times> 'v) list"

named_theorems res_simps "rewriting of results and their sequencing"
named_theorems pool_simps "operations of the transaction pools"
named_theorems env_simps "laws of the external libraries"

section \<open>Results\<close>

text \<open>
  \<open>Panic\<close> is a Go panic (also \<^verbatim>\<open>log.Panic\<close>, an index out of range or a fatal runtime error);
  \<open>Blocked\<close> is an operation that waits on a lock or a channel nobody will release.
\<close>

datatype go_err = Panic string | Blocked string

type_synonym 'a res = "go_err + 'a"

fun rbind :: "'a res \<Rightarrow> ('a \<Rightarrow> 'b res) \<Rightarrow> 'b res" where
  "rbind (Inl e) f = Inl e"
| "rbind (Inr x) f = f x"

definition opt_or :: "go_err \<Rightarrow> 'a option \<Rightarrow> 'a res" where
  "opt_or e m = (case m of None \<Rightarrow> Inl e | Some x \<Rightarrow> Inr x)"

lemma rbind_eq_Inr [res_simps]:
  "rbind r f = Inr y \<longleftrightarrow> (\<exists>x. r = Inr x \<and> f x = Inr y)"
  by (cases r) auto

lemma rbind_eq_Inl [res_simps]:
  "rbind r f = Inl e \<longleftrightarrow> r = Inl e \<or> (\<exists>x. r = Inr x \<and> f x = Inl e)"
  by (cases r) auto

lemma rbind_Inr_right [simp]: "rbind r Inr = r"
  by (cases r) auto

lemma rbind_assoc: "rbind (rbind r f) g = rbind r (\<lambda>x. rbind (f x) g)"
  by (cases r) auto

lemma opt_or_simps [simp]:
  "opt_or e None = Inl e" "opt_or e (Some x) = Inr x"
  by (simp_all add: opt_or_def)

lemma opt_or_eq_Inr [res_simps]: "opt_or e m = Inr x \<longleftrightarrow> m = Some x"
  by (cases m) auto

text \<open>Reading a slice: an index outside of it panics.\<close>

definition index_at :: "'a list \<Rightarrow> nat \<Rightarrow> 'a res" where
  "index_at xs i = (if i < length xs then Inr (xs ! i) else Inl (Panic ''index out of range''))"

text \<open>\<^verbatim>\<open>xs[i] = f(xs[i])\<close> for a slice and a Go \<^verbatim>\<open>int\<close>.\<close>

definition upd_at :: "int \<Rightarrow> ('a \<Rightarrow> 'a) \<Rightarrow> 'a list \<Rightarrow> 'a list res" where
  "upd_at i f xs =
     (if 0 \<le> i \<and> i < int (length xs) then Inr (xs[nat i := f (xs ! nat i)])
      else Inl (Panic ''index out of range''))"

text \<open>A range loop whose body can fail, with the loop state threaded through.\<close>

fun rfold :: "('a \<Rightarrow> 's \<Rightarrow> 's res) \<Rightarrow> 'a list \<Rightarrow> 's \<Rightarrow> 's res" where
  "rfold f [] s = Inr s"
| "rfold f (x # xs) s = rbind (f x s) (rfold f xs)"

lemma rfold_append: "rfold f (xs @ ys) s = rbind (rfold f xs s) (rfold f ys)"
proof (induction xs arbitrary: s)
  case Nil
  then show ?case by simp
next
  case (Cons x xs)
  then show ?case by (cases "f x s") auto
qed

lemma rfold_total:
  assumes "P s" and "\<And>x s. x \<in> set xs \<Longrightarrow> P s \<Longrightarrow> \<exists>s'. f x s = Inr s' \<and> P s'"
  shows "\<exists>s'. rfold f xs s = Inr s' \<and> P s'"
  using assms
proof (induction xs arbitrary: s)
  case Nil
  then show ?case by simp
next
  case (Cons x xs)
  then obtain s1 where "f x s = Inr s1" "P s1" by (meson list.set_intros(1))
  then show ?case using Cons by auto
qed

lemma rfold_invariant:
  assumes "rfold f xs s = Inr s'" and "P s"
    and "\<And>x s s'. x \<in> set xs \<Longrightarrow> P s \<Longrightarrow> f x s = Inr s' \<Longrightarrow> P s'"
  shows "P s'"
  using assms
proof (induction xs arbitrary: s)
  case Nil
  then show ?case by simp
next
  case (Cons x xs)
  from Cons.prems(1) obtain s1 where "f x s = Inr s1" and "rfold f xs s1 = Inr s'"
    by (auto simp: res_simps)
  with Cons show ?case by (metis list.set_intros)
qed

section \<open>Go maps as association lists\<close>

definition wf_map :: "('k, 'v) gomap \<Rightarrow> bool" where
  "wf_map m \<longleftrightarrow> distinct (map fst m)"

abbreviation gget :: "('k, 'v) gomap \<Rightarrow> 'k \<Rightarrow> 'v option" where
  "gget m k \<equiv> map_of m k"

abbreviation gput :: "'k \<Rightarrow> 'v \<Rightarrow> ('k, 'v) gomap \<Rightarrow> ('k, 'v) gomap" where
  "gput \<equiv> AList.update"

abbreviation gdel :: "'k \<Rightarrow> ('k, 'v) gomap \<Rightarrow> ('k, 'v) gomap" where
  "gdel \<equiv> AList.delete"

lemma wf_map_Nil [simp, intro]: "wf_map []"
  by (simp add: wf_map_def)

lemma wf_map_Cons [simp]: "wf_map ((k, v) # m) \<longleftrightarrow> k \<notin> fst ` set m \<and> wf_map m"
  by (simp add: wf_map_def)

lemma wf_map_gput [intro]: "wf_map m \<Longrightarrow> wf_map (gput k v m)"
  by (simp add: wf_map_def distinct_update)

lemma wf_map_gdel [intro]: "wf_map m \<Longrightarrow> wf_map (gdel k m)"
  by (simp add: wf_map_def distinct_delete)

lemma gget_gput [simp]: "gget (gput k v m) k' = (if k' = k then Some v else gget m k')"
  by (simp add: update_conv)

lemma gget_gdel [simp]: "gget (gdel k m) k' = (if k' = k then None else gget m k')"
  by (simp add: delete_conv)

lemma gget_set: "wf_map m \<Longrightarrow> gget m k = Some v \<longleftrightarrow> (k, v) \<in> set m"
  by (simp add: wf_map_def)

section \<open>Sums over association lists\<close>

definition msum :: "('v \<Rightarrow> int) \<Rightarrow> ('k, 'v) gomap \<Rightarrow> int" where
  "msum f m = sum_list (map (f \<circ> snd) m)"

lemma msum_Nil [simp]: "msum f [] = 0"
  by (simp add: msum_def)

lemma msum_Cons [simp]: "msum f ((k, v) # m) = f v + msum f m"
  by (simp add: msum_def)

lemma msum_gput_fresh: "gget m k = None \<Longrightarrow> msum f (gput k v m) = msum f m + f v"
  by (induction m) (auto split: if_splits)

lemma msum_gput:
  "wf_map m \<Longrightarrow> gget m k = Some w \<Longrightarrow> msum f (gput k v m) = msum f m - f w + f v"
  by (induction m) (auto split: if_splits)

lemma msum_gdel:
  "wf_map m \<Longrightarrow> gget m k = Some w \<Longrightarrow> msum f (gdel k m) = msum f m - f w"
  by (induction m) (auto split: if_splits)

lemma msum_nonneg: "(\<And>k v. (k, v) \<in> set m \<Longrightarrow> 0 \<le> f v) \<Longrightarrow> 0 \<le> msum f m"
  unfolding msum_def by (rule sum_list_nonneg) auto

section \<open>Lists and words\<close>

lemma map_filter_partition_mset:
  "mset (filter P xs) + mset (filter (\<lambda>x. \<not> P x) xs) = mset xs"
  by (induction xs) auto

lemma unat_of_nat_u64: "n < 2 ^ 64 \<Longrightarrow> unat (of_nat n :: u64) = n"
  by (simp add: unat_of_nat take_bit_nat_eq_self)

lemma unat_u64_bound: "unat (w :: u64) < 2 ^ 64"
  using unsigned_less [of w] by simp

end
