(* ===== verification/Core.thy ===== *)
theory Core
  imports Prelude
begin

text \<open>
  The data of the \<^verbatim>\<open>core\<close> package (\<^verbatim>\<open>src/core\<close>) and the chain configuration of
  \<^verbatim>\<open>src/params\<close>: account states, account transactions, UTXO transactions and account states,
  blocks. Hash functions are arguments: a field such as \<^verbatim>\<open>tx.TxHash\<close> is the value of the function
  passed for \<^verbatim>\<open>sha256.Sum256(tx.Encode())\<close>.
\<close>

section \<open>Configuration\<close>

record ChainConfig =
  CC_ChainID :: u64
  CC_NodeID :: u64
  CC_ShardID :: u64
  CC_Nodes_perShard :: u64
  CC_ShardNums :: u64
  CC_BlockSize :: u64
  CC_BlockInterval :: u64
  CC_InjectSpeed :: u64
  CC_MaxRelayBlockSize :: u64

definition Init_Balance :: int where
  "Init_Balance = 10 ^ 44"

definition DeciderShard :: u64 where
  "DeciderShard = 0xffffffff"

section \<open>Account states\<close>

record AccountState =
  AS_AcAddress :: string
  AS_Nonce :: u64
  AS_Balance :: int
  AS_StorageRoot :: bytes
  AS_CodeHash :: bytes

text \<open>A Go composite literal sets the named fields and leaves the others at their zero values.\<close>

definition new_AccountState :: "u64 \<Rightarrow> int \<Rightarrow> AccountState" where
  "new_AccountState nonce bal =
     \<lparr>AS_AcAddress = [], AS_Nonce = nonce, AS_Balance = bal, AS_StorageRoot = [], AS_CodeHash = []\<rparr>"

definition Deduct :: "AccountState \<Rightarrow> int \<Rightarrow> bool \<times> AccountState" where
  "Deduct as val =
     (if AS_Balance as < val then (False, as)
      else (True, as\<lparr>AS_Balance := AS_Balance as - val\<rparr>))"

definition Deposit :: "AccountState \<Rightarrow> int \<Rightarrow> AccountState" where
  "Deposit s value = s\<lparr>AS_Balance := AS_Balance s + value\<rparr>"

lemma Deduct_balance:
  "val \<le> AS_Balance as \<Longrightarrow> AS_Balance (snd (Deduct as val)) = AS_Balance as - val"
  by (simp add: Deduct_def)

lemma Deposit_balance [simp]: "AS_Balance (Deposit s v) = AS_Balance s + v"
  by (simp add: Deposit_def)

lemma new_AccountState_balance [simp]: "AS_Balance (new_AccountState n b) = b"
  by (simp add: new_AccountState_def)

section \<open>Account transactions\<close>

record Transaction =
  Tx_Sender :: string
  Tx_Recipient :: string
  Tx_Nonce :: u64
  Tx_Value :: int
  Tx_TxHash :: bytes
  Tx_Time :: go_time
  Tx_Relayed :: bool
  Tx_HasBroker :: bool
  Tx_SenderIsBroker :: bool
  Tx_OriginalSender :: string
  Tx_FinalRecipient :: string
  Tx_RawTxHash :: "bytes option"

definition NewTransaction ::
    "(Transaction \<Rightarrow> bytes) \<Rightarrow> string \<Rightarrow> string \<Rightarrow> int \<Rightarrow> u64 \<Rightarrow> Transaction" where
  "NewTransaction sha sender recipient value nonce =
     (let tx = \<lparr>Tx_Sender = sender, Tx_Recipient = recipient, Tx_Nonce = nonce, Tx_Value = value,
                Tx_TxHash = [], Tx_Time = 0, Tx_Relayed = False, Tx_HasBroker = False,
                Tx_SenderIsBroker = False, Tx_OriginalSender = [], Tx_FinalRecipient = [],
                Tx_RawTxHash = None\<rparr>
      in tx\<lparr>Tx_TxHash := sha tx\<rparr>)"

section \<open>UTXO transactions\<close>

record TxIn =
  In_PrevTxId :: bytes
  In_Index :: int
  In_Signature :: bytes
  In_PubKey :: bytes

record TxOut =
  Out_Value :: int
  Out_PubKeyHash :: bytes

record UTXOTransaction =
  U_TxId :: bytes
  U_Vin :: "TxIn list"
  U_Vout :: "TxOut list"
  U_Nonce :: "64 word"
  U_Time :: go_time
  U_TxHash :: bytes
  U_Relayed :: bool
  U_Recipient :: string

definition UTXO_Hash :: "(UTXOTransaction \<Rightarrow> bytes) \<Rightarrow> UTXOTransaction \<Rightarrow> bytes" where
  "UTXO_Hash sha tx = sha (tx\<lparr>U_TxId := []\<rparr>)"

definition IsCoinbase :: "UTXOTransaction \<Rightarrow> bool" where
  "IsCoinbase tx \<longleftrightarrow>
     (case U_Vin tx of [i] \<Rightarrow> length (In_PrevTxId i) = 0 \<and> In_Index i = -1 | _ \<Rightarrow> False)"

text \<open>\<^verbatim>\<open>NewCoinbaseTX\<close>: \<open>nonce\<close> is the random number drawn, \<open>TxHash\<close> is \<open>None\<close> for nil.\<close>

definition NewCoinbaseTX ::
    "(UTXOTransaction \<Rightarrow> bytes) \<Rightarrow> 64 word \<Rightarrow> bytes \<Rightarrow> int \<Rightarrow> bytes option \<Rightarrow> UTXOTransaction" where
  "NewCoinbaseTX sha nonce PubkeyHash val TxHash =
     (let txin = \<lparr>In_PrevTxId = [], In_Index = -1, In_Signature = [], In_PubKey = []\<rparr>;
          txout = \<lparr>Out_Value = val, Out_PubKeyHash = PubkeyHash\<rparr>;
          tx = \<lparr>U_TxId = [], U_Vin = [txin], U_Vout = [txout], U_Nonce = nonce, U_Time = 0,
                U_TxHash = [], U_Relayed = False, U_Recipient = []\<rparr>;
          tx = tx\<lparr>U_TxId := UTXO_Hash sha tx\<rparr>
      in case TxHash of
           Some h \<Rightarrow> tx\<lparr>U_TxHash := h\<rparr>
         | None \<Rightarrow> tx\<lparr>U_TxHash := UTXO_Hash sha tx\<rparr>)"

lemma NewCoinbaseTX_IsCoinbase [simp]: "IsCoinbase (NewCoinbaseTX sha n p v h)"
  by (cases h) (simp_all add: NewCoinbaseTX_def IsCoinbase_def Let_def)

lemma NewCoinbaseTX_Vout [simp]:
  "U_Vout (NewCoinbaseTX sha n p v h) = [\<lparr>Out_Value = v, Out_PubKeyHash = p\<rparr>]"
  by (cases h) (simp_all add: NewCoinbaseTX_def Let_def)

definition outs_value :: "TxOut list \<Rightarrow> int" where
  "outs_value outs = sum_list (map Out_Value outs)"

text \<open>\<^verbatim>\<open>UTXOAccountState\<close>: \<^verbatim>\<open>UTXOs\<close> maps a transaction id (in hexadecimal) to a map from output
  index to value; both maps are ranged over.\<close>

record UTXOAccountState =
  UAS_PubkeyHash :: bytes
  UAS_Nonce :: u64
  UAS_Balance :: int
  UAS_UTXOs :: "(string, (int, int) gomap) gomap"

section \<open>Blocks\<close>

record BlockHeader =
  BH_ParentBlockHash :: bytes
  BH_StateRoot :: bytes
  BH_TxRoot :: bytes
  BH_Number :: u64
  BH_Time :: go_time
  BH_Miner :: u64

record Block =
  B_Header :: BlockHeader
  B_Body :: "Transaction list"
  B_UTXO :: "UTXOTransaction list"
  B_Hash :: bytes

definition NewBlock :: "BlockHeader \<Rightarrow> Transaction list \<Rightarrow> UTXOTransaction list \<Rightarrow> Block" where
  "NewBlock bh txs utxos = \<lparr>B_Header = bh, B_Body = txs, B_UTXO = utxos, B_Hash = []\<rparr>"

abbreviation B_Number :: "Block \<Rightarrow> u64" where
  "B_Number b \<equiv> BH_Number (B_Header b)"

abbreviation B_StateRoot :: "Block \<Rightarrow> bytes" where
  "B_StateRoot b \<equiv> BH_StateRoot (B_Header b)"

end
