(* ===== verification/TxPools.thy ===== *)
theory TxPools
  imports Core
begin

text \<open>
  The transaction pools \<^verbatim>\<open>TxPool\<close> (\<^verbatim>\<open>src/core/txpool.go\<close>) and \<^verbatim>\<open>UTXOTxPool\<close>
  (\<^verbatim>\<open>src/core/utxo_txpool.go\<close>). Every operation holds the pool's mutex for its whole body, so each
  is one atomic step. \<^verbatim>\<open>RelayPool\<close> is \<open>None\<close> where the Go map is nil; storing into it then
  panics. \<^verbatim>\<open>time.Now()\<close> is read through a clock: \<open>clk i\<close> is the reading made for the
  \<open>i\<close>-th transaction of a call.

  Both pools implement the same queue contract, the locale \<open>fifo_pool\<close>: what is packed and what
  stays is what was added, in order. Its lemmas are proved once and used for both.
\<close>

section \<open>The account pool\<close>

record TxPool =
  TxQueue :: "Transaction list"
  RelayPool :: "(u64, Transaction list) gomap option"

definition NewTxPool :: TxPool where
  "NewTxPool = \<lparr>TxQueue = [], RelayPool = Some []\<rparr>"

definition stamp :: "go_time \<Rightarrow> Transaction \<Rightarrow> Transaction" where
  "stamp now tx = (if Tx_Time tx = 0 then tx\<lparr>Tx_Time := now\<rparr> else tx)"

definition AddTx2Pool :: "go_time \<Rightarrow> Transaction \<Rightarrow> TxPool \<Rightarrow> TxPool" where
  "AddTx2Pool now tx p = p\<lparr>TxQueue := TxQueue p @ [stamp now tx]\<rparr>"

fun AddTxs2Pool_loop :: "(nat \<Rightarrow> go_time) \<Rightarrow> nat \<Rightarrow> Transaction list \<Rightarrow> TxPool \<Rightarrow> TxPool" where
  "AddTxs2Pool_loop clk i [] p = p"
| "AddTxs2Pool_loop clk i (tx # txs) p =
     AddTxs2Pool_loop clk (Suc i) txs (p\<lparr>TxQueue := TxQueue p @ [stamp (clk i) tx]\<rparr>)"

definition AddTxs2Pool :: "(nat \<Rightarrow> go_time) \<Rightarrow> Transaction list \<Rightarrow> TxPool \<Rightarrow> TxPool" where
  "AddTxs2Pool clk txs p = AddTxs2Pool_loop clk 0 txs p"

definition AddTxs2Pool_Head :: "Transaction list \<Rightarrow> TxPool \<Rightarrow> TxPool" where
  "AddTxs2Pool_Head txs p = p\<lparr>TxQueue := txs @ TxQueue p\<rparr>"

text \<open>The comparison \<^verbatim>\<open>uint64(len(q)) < max\<close> is made on 64-bit words.\<close>

definition PackTxs :: "u64 \<Rightarrow> TxPool \<Rightarrow> Transaction list \<times> TxPool" where
  "PackTxs max_txs p =
     (let len = of_nat (length (TxQueue p));
          txNum = unat (if len < max_txs then len else max_txs)
      in (take txNum (TxQueue p), p\<lparr>TxQueue := drop txNum (TxQueue p)\<rparr>))"

definition AddRelayTx :: "Transaction \<Rightarrow> u64 \<Rightarrow> TxPool \<Rightarrow> TxPool res" where
  "AddRelayTx tx shardID p =
     (case RelayPool p of
        None \<Rightarrow> Inl (Panic ''assignment to entry in nil map'')
      | Some m \<Rightarrow>
          Inr (p\<lparr>RelayPool := Some (gput shardID
                  ((case gget m shardID of None \<Rightarrow> [] | Some l \<Rightarrow> l) @ [tx]) m)\<rparr>))"

definition GetTxQueueLen :: "TxPool \<Rightarrow> int" where
  "GetTxQueueLen p = int (length (TxQueue p))"

definition ClearRelayPool :: "TxPool \<Rightarrow> TxPool" where
  "ClearRelayPool p = p\<lparr>RelayPool := None\<rparr>"

text \<open>Indexing a nil map or a missing key yields the nil slice.\<close>

definition relay_of :: "TxPool \<Rightarrow> u64 \<Rightarrow> Transaction list" where
  "relay_of p sid =
     (case RelayPool p of None \<Rightarrow> []
      | Some m \<Rightarrow> (case gget m sid of None \<Rightarrow> [] | Some l \<Rightarrow> l))"

text \<open>\<^verbatim>\<open>PackRelayTxs\<close>: \<^verbatim>\<open>int(minRelaySize)\<close> reinterprets the word as signed. \<open>None\<close> is
  \<^verbatim>\<open>(nil, false)\<close>.\<close>

definition PackRelayTxs ::
    "u64 \<Rightarrow> u64 \<Rightarrow> u64 \<Rightarrow> TxPool \<Rightarrow> Transaction list option \<times> TxPool" where
  "PackRelayTxs shardID minRelaySize maxRelaySize p =
     (case RelayPool p of
        None \<Rightarrow> (None, p)
      | Some m \<Rightarrow>
         (case gget m shardID of
            None \<Rightarrow> (None, p)
          | Some l \<Rightarrow>
              if int (length l) < sint minRelaySize then (None, p)
              else let len = of_nat (length l);
                       txNum = unat (if len < maxRelaySize then len else maxRelaySize)
                   in (Some (take txNum l),
                       p\<lparr>RelayPool := Some (gput shardID (drop txNum l) m)\<rparr>)))"

text \<open>\<^verbatim>\<open>TransferTxs\<close>: the loops over the queue and over the relay pool.\<close>

fun transfer_queue ::
    "string \<Rightarrow> Transaction list \<Rightarrow> Transaction list \<times> Transaction list
      \<Rightarrow> Transaction list \<times> Transaction list" where
  "transfer_queue addr [] (tr, q) = (tr, q)"
| "transfer_queue addr (tx # txs) (tr, q) =
     (if Tx_Sender tx = addr then transfer_queue addr txs (tr @ [tx], q)
      else transfer_queue addr txs (tr, q @ [tx]))"

fun transfer_shard ::
    "string \<Rightarrow> u64 \<Rightarrow> Transaction list \<Rightarrow> Transaction list \<times> (u64, Transaction list) gomap
      \<Rightarrow> Transaction list \<times> (u64, Transaction list) gomap" where
  "transfer_shard addr sid [] (tr, m) = (tr, m)"
| "transfer_shard addr sid (tx # txs) (tr, m) =
     (if Tx_Sender tx = addr then transfer_shard addr sid txs (tr @ [tx], m)
      else transfer_shard addr sid txs
             (tr, gput sid ((case gget m sid of None \<Rightarrow> [] | Some l \<Rightarrow> l) @ [tx]) m))"

fun transfer_relay ::
    "string \<Rightarrow> (u64, Transaction list) gomap \<Rightarrow> Transaction list \<times> (u64, Transaction list) gomap
      \<Rightarrow> Transaction list \<times> (u64, Transaction list) gomap" where
  "transfer_relay addr [] acc = acc"
| "transfer_relay addr ((sid, txs) # rest) acc =
     transfer_relay addr rest (transfer_shard addr sid txs acc)"

definition TransferTxs :: "string \<Rightarrow> TxPool \<Rightarrow> Transaction list \<times> TxPool" where
  "TransferTxs addr p =
     (let (tr, q) = transfer_queue addr (TxQueue p) ([], []);
          (tr', m) = transfer_relay addr (case RelayPool p of None \<Rightarrow> [] | Some m \<Rightarrow> m) (tr, [])
      in (tr', p\<lparr>TxQueue := q, RelayPool := Some m\<rparr>))"

section \<open>The UTXO pool\<close>

record UTXOTxPool =
  U_TxQueue :: "UTXOTransaction list"
  U_RelayPool :: "(u64, UTXOTransaction list) gomap option"

definition NewUTXOTxPool :: UTXOTxPool where
  "NewUTXOTxPool = \<lparr>U_TxQueue = [], U_RelayPool = Some []\<rparr>"

definition U_stamp :: "go_time \<Rightarrow> UTXOTransaction \<Rightarrow> UTXOTransaction" where
  "U_stamp now tx = (if U_Time tx = 0 then tx\<lparr>U_Time := now\<rparr> else tx)"

definition U_AddTx2Pool :: "go_time \<Rightarrow> UTXOTransaction \<Rightarrow> UTXOTxPool \<Rightarrow> UTXOTxPool" where
  "U_AddTx2Pool now tx p = p\<lparr>U_TxQueue := U_TxQueue p @ [U_stamp now tx]\<rparr>"

fun U_AddTxs2Pool_loop ::
    "(nat \<Rightarrow> go_time) \<Rightarrow> nat \<Rightarrow> UTXOTransaction list \<Rightarrow> UTXOTxPool \<Rightarrow> UTXOTxPool" where
  "U_AddTxs2Pool_loop clk i [] p = p"
| "U_AddTxs2Pool_loop clk i (tx # txs) p =
     U_AddTxs2Pool_loop clk (Suc i) txs (p\<lparr>U_TxQueue := U_TxQueue p @ [U_stamp (clk i) tx]\<rparr>)"

definition U_AddTxs2Pool ::
    "(nat \<Rightarrow> go_time) \<Rightarrow> UTXOTransaction list \<Rightarrow> UTXOTxPool \<Rightarrow> UTXOTxPool" where
  "U_AddTxs2Pool clk txs p = U_AddTxs2Pool_loop clk 0 txs p"

definition U_AddTxs2Pool_Head :: "UTXOTransaction list \<Rightarrow> UTXOTxPool \<Rightarrow> UTXOTxPool" where
  "U_AddTxs2Pool_Head txs p = p\<lparr>U_TxQueue := txs @ U_TxQueue p\<rparr>"

definition U_PackTxs :: "u64 \<Rightarrow> UTXOTxPool \<Rightarrow> UTXOTransaction list \<times> UTXOTxPool" where
  "U_PackTxs max_txs p =
     (let len = of_nat (length (U_TxQueue p));
          txNum = unat (if len < max_txs then len else max_txs)
      in (take txNum (U_TxQueue p), p\<lparr>U_TxQueue := drop txNum (U_TxQueue p)\<rparr>))"

definition U_AddRelayTx :: "UTXOTransaction \<Rightarrow> u64 \<Rightarrow> UTXOTxPool \<Rightarrow> UTXOTxPool res" where
  "U_AddRelayTx tx shardID p =
     (case U_RelayPool p of
        None \<Rightarrow> Inl (Panic ''assignment to entry in nil map'')
      | Some m \<Rightarrow>
          Inr (p\<lparr>U_RelayPool := Some (gput shardID
                  ((case gget m shardID of None \<Rightarrow> [] | Some l \<Rightarrow> l) @ [tx]) m)\<rparr>))"

definition U_GetTxQueueLen :: "UTXOTxPool \<Rightarrow> int" where
  "U_GetTxQueueLen p = int (length (U_TxQueue p))"

definition U_ClearRelayPool :: "UTXOTxPool \<Rightarrow> UTXOTxPool" where
  "U_ClearRelayPool p = p\<lparr>U_RelayPool := None\<rparr>"

definition U_relay_of :: "UTXOTxPool \<Rightarrow> u64 \<Rightarrow> UTXOTransaction list" where
  "U_relay_of p sid =
     (case U_RelayPool p of None \<Rightarrow> []
      | Some m \<Rightarrow> (case gget m sid of None \<Rightarrow> [] | Some l \<Rightarrow> l))"

definition U_PackRelayTxs ::
    "u64 \<Rightarrow> u64 \<Rightarrow> u64 \<Rightarrow> UTXOTxPool \<Rightarrow> UTXOTransaction list option \<times> UTXOTxPool" where
  "U_PackRelayTxs shardID minRelaySize maxRelaySize p =
     (case U_RelayPool p of
        None \<Rightarrow> (None, p)
      | Some m \<Rightarrow>
         (case gget m shardID of
            None \<Rightarrow> (None, p)
          | Some l \<Rightarrow>
              if int (length l) < sint minRelaySize then (None, p)
              else let len = of_nat (length l);
                       txNum = unat (if len < maxRelaySize then len else maxRelaySize)
                   in (Some (take txNum l),
                       p\<lparr>U_RelayPool := Some (gput shardID (drop txNum l) m)\<rparr>)))"

section \<open>Runs of pool operations\<close>

text \<open>
  The operations a node makes on its queue, in the order in which they take the pool's lock.
\<close>

datatype 'x pool_op =
    OpAdd "nat \<Rightarrow> go_time" "'x list"
  | OpHead "'x list"
  | OpPack u64

fun pool_run ::
    "((nat \<Rightarrow> go_time) \<Rightarrow> 'x list \<Rightarrow> 'p \<Rightarrow> 'p) \<Rightarrow> ('x list \<Rightarrow> 'p \<Rightarrow> 'p) \<Rightarrow> (u64 \<Rightarrow> 'p \<Rightarrow> 'x list \<times> 'p)
      \<Rightarrow> 'x pool_op list \<Rightarrow> 'p \<Rightarrow> 'x list \<times> 'p" where
  "pool_run add head pack [] p = ([], p)"
| "pool_run add head pack (OpAdd clk xs # ops) p = pool_run add head pack ops (add clk xs p)"
| "pool_run add head pack (OpHead xs # ops) p = pool_run add head pack ops (head xs p)"
| "pool_run add head pack (OpPack n # ops) p =
     (let (out, p') = pack n p; (outs, p'') = pool_run add head pack ops p'
      in (out @ outs, p''))"

definition stamp_all :: "(go_time \<Rightarrow> 'x \<Rightarrow> 'x) \<Rightarrow> (nat \<Rightarrow> go_time) \<Rightarrow> 'x list \<Rightarrow> 'x list" where
  "stamp_all st clk xs = map (\<lambda>(i, x). st (clk i) x) (enumerate 0 xs)"

fun added :: "(go_time \<Rightarrow> 'x \<Rightarrow> 'x) \<Rightarrow> 'x pool_op list \<Rightarrow> 'x list" where
  "added st [] = []"
| "added st (OpAdd clk xs # ops) = stamp_all st clk xs @ added st ops"
| "added st (OpHead xs # ops) = xs @ added st ops"
| "added st (OpPack n # ops) = added st ops"

definition no_head :: "'x pool_op list \<Rightarrow> bool" where
  "no_head ops \<longleftrightarrow> (\<forall>xs. OpHead xs \<notin> set ops)"

lemma no_head_Cons [simp]:
  "no_head []" "no_head (OpAdd clk xs # ops) = no_head ops"
  "no_head (OpPack n # ops) = no_head ops"
  "\<not> no_head (OpHead xs # ops)"
  by (auto simp: no_head_def)

section \<open>The queue contract\<close>

locale fifo_pool =
  fixes queue :: "'p \<Rightarrow> 'x list"
    and stmp :: "go_time \<Rightarrow> 'x \<Rightarrow> 'x"
    and add :: "(nat \<Rightarrow> go_time) \<Rightarrow> 'x list \<Rightarrow> 'p \<Rightarrow> 'p"
    and head :: "'x list \<Rightarrow> 'p \<Rightarrow> 'p"
    and pack :: "u64 \<Rightarrow> 'p \<Rightarrow> 'x list \<times> 'p"
  assumes queue_add: "queue (add clk xs p) = queue p @ stamp_all stmp clk xs"
    and queue_head: "queue (head xs p) = xs @ queue p"
    and pack_split: "pack n p = (out, p') \<Longrightarrow> out @ queue p' = queue p"
    and pack_length: "pack n p = (out, p') \<Longrightarrow> length (queue p) < 2 ^ 64 \<Longrightarrow>
           length out = min (unat n) (length (queue p))"
begin

lemma run_fifo:
  "no_head ops \<Longrightarrow> pool_run add head pack ops p = (outs, p') \<Longrightarrow>
     outs @ queue p' = queue p @ added stmp ops"
proof (induction ops arbitrary: p outs)
  case Nil
  then show ?case by simp
next
  case (Cons op ops)
  show ?case
  proof (cases op)
    case (OpAdd clk xs)
    with Cons.prems have "outs @ queue p' = queue (add clk xs p) @ added stmp ops"
      by (intro Cons.IH) auto
    with OpAdd show ?thesis by (simp add: queue_add)
  next
    case (OpHead xs)
    with Cons.prems show ?thesis by simp
  next
    case (OpPack n)
    obtain out p1 where pk: "pack n p = (out, p1)" by fastforce
    obtain outs' where rn: "pool_run add head pack ops p1 = (outs', p')" and o: "outs = out @ outs'"
      using Cons.prems(2) OpPack pk by (auto split: prod.splits)
    have "outs' @ queue p' = queue p1 @ added stmp ops"
      using Cons.prems(1) OpPack by (intro Cons.IH [OF _ rn]) simp
    with pack_split [OF pk] o OpPack show ?thesis by simp
  qed
qed

lemma run_mset:
  "pool_run add head pack ops p = (outs, p') \<Longrightarrow>
     mset outs + mset (queue p') = mset (queue p) + mset (added stmp ops)"
proof (induction ops arbitrary: p outs)
  case Nil
  then show ?case by simp
next
  case (Cons op ops)
  show ?case
  proof (cases op)
    case (OpPack n)
    obtain out p1 where pk: "pack n p = (out, p1)" by fastforce
    obtain outs' where rn: "pool_run add head pack ops p1 = (outs', p')" and o: "outs = out @ outs'"
      using Cons.prems OpPack pk by (auto split: prod.splits)
    have "mset (queue p) = mset out + mset (queue p1)"
      by (metis mset_append pack_split [OF pk])
    with Cons.IH [OF rn] o OpPack show ?thesis by (simp add: ac_simps)
  qed (use Cons in \<open>auto simp: queue_add queue_head\<close>)
qed

text \<open>Draining: packing batches of a positive size empties a queue that nobody adds to.\<close>

lemma drain:
  assumes "0 < unat n" and "length (queue p) < 2 ^ 64"
    and "length (queue p) \<le> k * unat n"
    and "pool_run add head pack (replicate k (OpPack n)) p = (outs, p')"
  shows "queue p' = [] \<and> outs = queue p"
  using assms(2-)
proof (induction k arbitrary: p outs)
  case 0
  then show ?case by simp
next
  case (Suc k)
  obtain out p1 where pk: "pack n p = (out, p1)" by fastforce
  obtain outs' where rn: "pool_run add head pack (replicate k (OpPack n)) p1 = (outs', p')"
    and o: "outs = out @ outs'"
    using Suc.prems(3) pk by (auto split: prod.splits)
  have sp: "out @ queue p1 = queue p" by (rule pack_split [OF pk])
  have ln: "length out = min (unat n) (length (queue p))"
    by (rule pack_length [OF pk Suc.prems(1)])
  have le: "length (queue p) = length out + length (queue p1)"
    by (metis length_append sp)
  have "length (queue p1) < 2 ^ 64" and "length (queue p1) \<le> k * unat n"
    using le ln Suc.prems(1,2) by (auto simp: min_def split: if_splits)
  then have "queue p' = [] \<and> outs' = queue p1" by (rule Suc.IH [OF _ _ rn])
  with o sp show ?case by simp
qed

end

lemma stamp_all_Nil [simp]: "stamp_all st clk [] = []"
  by (simp add: stamp_all_def)

lemma length_stamp_all [simp]: "length (stamp_all st clk xs) = length xs"
  by (simp add: stamp_all_def)

lemma AddTxs2Pool_loop_queue:
  "AddTxs2Pool_loop clk i txs p =
     p\<lparr>TxQueue := TxQueue p @ map (\<lambda>(j, x). stamp (clk j) x) (enumerate i txs)\<rparr>"
  by (induction clk i txs p rule: AddTxs2Pool_loop.induct) simp_all

lemma U_AddTxs2Pool_loop_queue:
  "U_AddTxs2Pool_loop clk i txs p =
     p\<lparr>U_TxQueue := U_TxQueue p @ map (\<lambda>(j, x). U_stamp (clk j) x) (enumerate i txs)\<rparr>"
  by (induction clk i txs p rule: U_AddTxs2Pool_loop.induct) simp_all

lemma AddTxs2Pool_eq [pool_simps]:
  "AddTxs2Pool clk txs p = p\<lparr>TxQueue := TxQueue p @ stamp_all stamp clk txs\<rparr>"
  by (simp add: AddTxs2Pool_def AddTxs2Pool_loop_queue stamp_all_def)

lemma U_AddTxs2Pool_eq [pool_simps]:
  "U_AddTxs2Pool clk txs p = p\<lparr>U_TxQueue := U_TxQueue p @ stamp_all U_stamp clk txs\<rparr>"
  by (simp add: U_AddTxs2Pool_def U_AddTxs2Pool_loop_queue stamp_all_def)

lemma pack_count:
  "l < 2 ^ 64 \<Longrightarrow> min l (unat (if of_nat l < (m :: u64) then of_nat l else m)) = min (unat m) l"
  by (auto simp: word_less_nat_alt unat_of_nat_u64 min_def)

interpretation account_pool: fifo_pool TxQueue stamp AddTxs2Pool AddTxs2Pool_Head PackTxs
proof
  fix n p out p'
  assume "PackTxs n p = (out, p')" and "length (TxQueue p) < 2 ^ 64"
  then show "length out = min (unat n) (length (TxQueue p))"
    using pack_count [of "length (TxQueue p)" n] by (auto simp: PackTxs_def Let_def)
qed (auto simp: pool_simps AddTxs2Pool_Head_def PackTxs_def Let_def)

interpretation utxo_pool: fifo_pool U_TxQueue U_stamp U_AddTxs2Pool U_AddTxs2Pool_Head U_PackTxs
proof
  fix n p out p'
  assume "U_PackTxs n p = (out, p')" and "length (U_TxQueue p) < 2 ^ 64"
  then show "length out = min (unat n) (length (U_TxQueue p))"
    using pack_count [of "length (U_TxQueue p)" n] by (auto simp: U_PackTxs_def Let_def)
qed (auto simp: pool_simps U_AddTxs2Pool_Head_def U_PackTxs_def Let_def)

section \<open>The relay contract\<close>

text \<open>
  The other face of a pool: transactions grouped by destination shard. \<open>usable\<close> says that the
  underlying Go map has been made.
\<close>

locale relay_pool =
  fixes usable :: "'p \<Rightarrow> bool"
    and rel :: "'p \<Rightarrow> u64 \<Rightarrow> 'x list"
    and addr :: "'x \<Rightarrow> u64 \<Rightarrow> 'p \<Rightarrow> 'p res"
    and clear :: "'p \<Rightarrow> 'p"
  assumes addr_ok: "usable p \<Longrightarrow> \<exists>p'. addr x s p = Inr p' \<and> usable p' \<and>
           rel p' = (rel p)(s := rel p s @ [x])"
    and addr_nil: "\<not> usable p \<Longrightarrow> \<exists>m. addr x s p = Inl (Panic m)"
    and clear_unusable: "\<not> usable (clear p)"
    and clear_empty: "rel (clear p) s = []"
begin

lemma add_list:
  "usable p \<Longrightarrow> \<exists>p'. rfold (\<lambda>(x, s). addr x s) xs p = Inr p' \<and> usable p' \<and>
     (\<forall>s. rel p' s = rel p s @ map fst (filter (\<lambda>(x, t). t = s) xs))"
proof (induction xs arbitrary: p)
  case Nil
  then show ?case by simp
next
  case (Cons y xs)
  obtain x s where y: "y = (x, s)" by fastforce
  obtain p1 where p1: "addr x s p = Inr p1" "usable p1" "rel p1 = (rel p)(s := rel p s @ [x])"
    using addr_ok [OF Cons.prems] by blast
  from Cons.IH [OF p1(2)] obtain p' where "rfold (\<lambda>(x, s). addr x s) xs p1 = Inr p'" "usable p'"
    "\<forall>s. rel p' s = rel p1 s @ map fst (filter (\<lambda>(x, t). t = s) xs)" by blast
  with p1 y show ?case by auto
qed

lemma add_after_clear: "\<exists>m. addr x s (clear p) = Inl (Panic m)"
  by (rule addr_nil) (rule clear_unusable)

end

interpretation account_relay: relay_pool "\<lambda>p. RelayPool p \<noteq> None" relay_of AddRelayTx ClearRelayPool
  by unfold_locales
    (auto simp: relay_of_def AddRelayTx_def ClearRelayPool_def fun_eq_iff split: option.splits)

interpretation utxo_relay:
  relay_pool "\<lambda>p. U_RelayPool p \<noteq> None" U_relay_of U_AddRelayTx U_ClearRelayPool
  by unfold_locales
    (auto simp: U_relay_of_def U_AddRelayTx_def U_ClearRelayPool_def fun_eq_iff
      split: option.splits)

section \<open>Transferring the transactions of an address\<close>

abbreviation shard_list :: "(u64, Transaction list) gomap \<Rightarrow> u64 \<Rightarrow> Transaction list" where
  "shard_list m sid \<equiv> (case gget m sid of None \<Rightarrow> [] | Some l \<Rightarrow> l)"

definition relay_mset :: "(u64, Transaction list) gomap \<Rightarrow> Transaction multiset" where
  "relay_mset m = sum_list (map (mset \<circ> snd) m)"

definition pool_mset :: "TxPool \<Rightarrow> Transaction multiset" where
  "pool_mset p = mset (TxQueue p) + (case RelayPool p of None \<Rightarrow> {#} | Some m \<Rightarrow> relay_mset m)"

lemma relay_mset_simps [simp]:
  "relay_mset [] = {#}" "relay_mset ((k, l) # m) = mset l + relay_mset m"
  by (simp_all add: relay_mset_def)

lemma relay_mset_gput:
  "relay_mset (gput sid (shard_list m sid @ [tx]) m) = add_mset tx (relay_mset m)"
  by (induction m) (auto split: option.splits)

lemma transfer_queue_eq:
  "transfer_queue addr txs (tr, q) =
     (tr @ filter (\<lambda>t. Tx_Sender t = addr) txs, q @ filter (\<lambda>t. Tx_Sender t \<noteq> addr) txs)"
  by (induction addr txs "(tr, q)" arbitrary: tr q rule: transfer_queue.induct) auto

lemma transfer_shard_spec:
  "transfer_shard addr sid txs (tr, m) = (tr', m') \<Longrightarrow>
     mset tr' = mset tr + mset (filter (\<lambda>t. Tx_Sender t = addr) txs) \<and>
     relay_mset m' = relay_mset m + mset (filter (\<lambda>t. Tx_Sender t \<noteq> addr) txs)"
proof (induction txs arbitrary: tr m)
  case Nil
  then show ?case by simp
next
  case (Cons t txs)
  show ?case
  proof (cases "Tx_Sender t = addr")
    case True
    then have "transfer_shard addr sid txs (tr @ [t], m) = (tr', m')" using Cons.prems by simp
    from Cons.IH [OF this] True show ?thesis by simp
  next
    case False
    then have "transfer_shard addr sid txs (tr, gput sid (shard_list m sid @ [t]) m) = (tr', m')"
      using Cons.prems by simp
    from Cons.IH [OF this] False show ?thesis by (simp add: relay_mset_gput)
  qed
qed

lemma transfer_relay_spec:
  "transfer_relay addr r (tr, m) = (tr', m') \<Longrightarrow>
     mset tr' = mset tr + filter_mset (\<lambda>t. Tx_Sender t = addr) (relay_mset r) \<and>
     relay_mset m' = relay_mset m + filter_mset (\<lambda>t. Tx_Sender t \<noteq> addr) (relay_mset r)"
proof (induction r arbitrary: tr m)
  case Nil
  then show ?case by simp
next
  case (Cons e r)
  obtain sid txs where e: "e = (sid, txs)" by fastforce
  obtain tr1 m1 where s1: "transfer_shard addr sid txs (tr, m) = (tr1, m1)" by fastforce
  with Cons.prems e have "transfer_relay addr r (tr1, m1) = (tr', m')" by simp
  from Cons.IH [OF this] transfer_shard_spec [OF s1] e show ?case by simp
qed

section \<open>Properties\<close>

text \<open>C31: the account pool is a queue. In any sequence of \<^verbatim>\<open>AddTxs2Pool\<close> and \<^verbatim>\<open>PackTxs\<close> calls, the
  transactions packed so far followed by the ones still queued are the initial queue followed by
  everything added (each with its arrival time set): nothing is lost, duplicated or reordered.\<close>

theorem txpool_fifo:
  assumes "no_head ops"
    and "pool_run AddTxs2Pool AddTxs2Pool_Head PackTxs ops p = (outs, p')"
  shows "outs @ TxQueue p' = TxQueue p @ added stamp ops"
  using assms by (rule account_pool.run_fifo)

text \<open>Packing drains the pool. A node that keeps packing blocks of a positive size, while
  nothing is added, packs the whole queue in order within any number of rounds whose total
  capacity covers it; no transaction stays behind.\<close>

theorem txpool_drain:
  assumes "0 < unat n" and "length (TxQueue p) < 2 ^ 64" and "length (TxQueue p) \<le> k * unat n"
    and "pool_run AddTxs2Pool AddTxs2Pool_Head PackTxs (replicate k (OpPack n)) p = (outs, p')"
  shows "TxQueue p' = [] \<and> outs = TxQueue p"
  using assms by (rule account_pool.drain)

text \<open>The UTXO pool keeps the same queue contract, also when transactions are put back at the
  head: counted as a multiset, what was packed and what is still queued is what was there and
  what was added.\<close>

theorem utxo_txpool_conservation:
  assumes "pool_run U_AddTxs2Pool U_AddTxs2Pool_Head U_PackTxs ops p = (outs, p')"
  shows "mset outs + mset (U_TxQueue p') = mset (U_TxQueue p) + mset (added U_stamp ops)"
  using assms by (rule utxo_pool.run_mset)

text \<open>The relay pool groups by destination. Adding a list of transactions with their
  destination shards to a pool whose map has been made never panics and leaves, for every shard,
  the transactions for it in the order of the list; after \<^verbatim>\<open>ClearRelayPool\<close>, which sets the map to
  nil, the next \<^verbatim>\<open>AddRelayTx\<close> panics until the map is made again.\<close>

theorem relay_pool_groups:
  "(RelayPool p \<noteq> None \<longrightarrow>
      (\<exists>p'. rfold (\<lambda>(tx, sid). AddRelayTx tx sid) xs p = Inr p' \<and>
            (\<forall>sid. relay_of p' sid = relay_of p sid @ map fst (filter (\<lambda>(x, t). t = sid) xs))))
   \<and> (\<exists>m. AddRelayTx tx sid (ClearRelayPool p) = Inl (Panic m))"
  using account_relay.add_list account_relay.add_after_clear by blast

text \<open>Re-sharding hands over exactly the transactions of one sender. \<^verbatim>\<open>TransferTxs\<close> returns,
  as a multiset, the transactions of that sender from the queue and from every relay list, and
  keeps all the others.\<close>

theorem TransferTxs_partition:
  assumes "TransferTxs addr p = (tr, p')"
  shows "mset tr = filter_mset (\<lambda>t. Tx_Sender t = addr) (pool_mset p) \<and>
         pool_mset p' = filter_mset (\<lambda>t. Tx_Sender t \<noteq> addr) (pool_mset p)"
proof -
  let ?r = "case RelayPool p of None \<Rightarrow> [] | Some m \<Rightarrow> m"
  let ?tr0 = "filter (\<lambda>t. Tx_Sender t = addr) (TxQueue p)"
  obtain tr1 m1 where rl: "transfer_relay addr ?r (?tr0, []) = (tr1, m1)" by fastforce
  with assms have "tr = tr1" and "RelayPool p' = Some m1"
    and "TxQueue p' = filter (\<lambda>t. Tx_Sender t \<noteq> addr) (TxQueue p)"
    by (auto simp: TransferTxs_def Let_def transfer_queue_eq)
  with transfer_relay_spec [OF rl] show ?thesis
    by (auto simp: pool_mset_def split: option.splits)
qed

section \<open>Witnesses\<close>

abbreviation sample_tx :: "string \<Rightarrow> Transaction" where
  "sample_tx s \<equiv> NewTransaction (\<lambda>_. ''h'') s ''bob'' 7 0"

abbreviation sample_utx :: UTXOTransaction where
  "sample_utx \<equiv> NewCoinbaseTX (\<lambda>_. ''id'') 0 ''pk'' 5 None"

theorem txpool_fifo_witness:
  "fst (pool_run AddTxs2Pool AddTxs2Pool_Head PackTxs
          [OpAdd (\<lambda>_. 9) [sample_tx ''a'', sample_tx ''b''], OpPack 1] NewTxPool)
     = [stamp 9 (sample_tx ''a'')]
   \<and> [stamp 9 (sample_tx ''a'')] @ TxQueue (snd (pool_run AddTxs2Pool AddTxs2Pool_Head PackTxs
          [OpAdd (\<lambda>_. 9) [sample_tx ''a'', sample_tx ''b''], OpPack 1] NewTxPool))
     = [stamp 9 (sample_tx ''a''), stamp 9 (sample_tx ''b'')]"
proof -
  let ?ops = "[OpAdd (\<lambda>_. 9) [sample_tx ''a'', sample_tx ''b''], OpPack 1]"
  let ?r = "pool_run AddTxs2Pool AddTxs2Pool_Head PackTxs ?ops NewTxPool"
  have f: "fst ?r = [stamp 9 (sample_tx ''a'')]"
    by (simp add: pool_simps NewTxPool_def PackTxs_def stamp_all_def)
  have "fst ?r @ TxQueue (snd ?r) = TxQueue NewTxPool @ added stamp ?ops"
    by (rule txpool_fifo) simp_all
  with f show ?thesis by (simp add: NewTxPool_def stamp_all_def)
qed

theorem txpool_drain_witness:
  "TxQueue (snd (pool_run AddTxs2Pool AddTxs2Pool_Head PackTxs (replicate 2 (OpPack 1))
      (AddTxs2Pool (\<lambda>_. 9) [sample_tx ''a'', sample_tx ''b''] NewTxPool))) = []"
proof -
  let ?p = "AddTxs2Pool (\<lambda>_. 9) [sample_tx ''a'', sample_tx ''b''] NewTxPool"
  let ?r = "pool_run AddTxs2Pool AddTxs2Pool_Head PackTxs (replicate 2 (OpPack 1)) ?p"
  have len: "length (TxQueue ?p) = 2" by (simp add: pool_simps NewTxPool_def)
  have "TxQueue (snd ?r) = [] \<and> fst ?r = TxQueue ?p"
    by (rule txpool_drain [where n = 1 and k = 2]) (simp_all add: len)
  then show ?thesis by simp
qed

theorem utxo_txpool_conservation_witness:
  "mset (fst (pool_run U_AddTxs2Pool U_AddTxs2Pool_Head U_PackTxs
      [OpAdd (\<lambda>_. 9) [sample_utx], OpHead [sample_utx], OpPack 1] NewUTXOTxPool))
   + mset (U_TxQueue (snd (pool_run U_AddTxs2Pool U_AddTxs2Pool_Head U_PackTxs
      [OpAdd (\<lambda>_. 9) [sample_utx], OpHead [sample_utx], OpPack 1] NewUTXOTxPool)))
   = {# U_stamp 9 sample_utx, sample_utx #}"
  by (subst utxo_txpool_conservation [OF prod.collapse [symmetric]])
    (simp add: NewUTXOTxPool_def stamp_all_def)

theorem relay_pool_groups_witness:
  "(\<exists>p'. rfold (\<lambda>(tx, sid). AddRelayTx tx sid) [(sample_tx ''a'', 1), (sample_tx ''b'', 2)] NewTxPool
        = Inr p' \<and> relay_of p' 2 = [sample_tx ''b''])
   \<and> (\<exists>m. AddRelayTx (sample_tx ''a'') 1 (ClearRelayPool NewTxPool) = Inl (Panic m))"
proof -
  have "RelayPool NewTxPool \<noteq> None" by (simp add: NewTxPool_def)
  moreover have "relay_of NewTxPool 2 = []" by (simp add: NewTxPool_def relay_of_def)
  ultimately show ?thesis
    using relay_pool_groups [of NewTxPool "[(sample_tx ''a'', 1), (sample_tx ''b'', 2)]"
        "sample_tx ''a''" 1] by fastforce
qed

theorem TransferTxs_partition_witness:
  "mset (fst (TransferTxs ''a'' (AddTxs2Pool (\<lambda>_. 9) [sample_tx ''a'', sample_tx ''b''] NewTxPool)))
     = {# stamp 9 (sample_tx ''a'') #}"
  using TransferTxs_partition [OF prod.collapse [symmetric],
      of "''a''" "AddTxs2Pool (\<lambda>_. 9) [sample_tx ''a'', sample_tx ''b''] NewTxPool"]
  by (simp add: pool_simps NewTxPool_def pool_mset_def stamp_all_def stamp_def NewTransaction_def)

end
