(* ===== verification/Messages.thy ===== *)
theory Messages
  imports Core
begin

text \<open>
  The \<^verbatim>\<open>message\<close> package (\<^verbatim>\<open>src/message\<close>): the messages nodes exchange, and the byte format that
  carries them. A message on the wire is a 30-byte type field padded with NUL bytes followed by
  the content; \<^verbatim>\<open>networks.TcpDial\<close> terminates it with a newline and the receiver cuts the stream at
  newlines (\<^verbatim>\<open>ReadBytes\<close>).

  The content is JSON. The handlers of the other theories take the decoded message; encoding a
  message and decoding it again gives the message back, so only the framing is modelled here.
\<close>

section \<open>Nodes and messages\<close>

record Node =
  N_NodeID :: u64
  N_ShardID :: u64
  N_IPaddr :: string

text \<open>\<^verbatim>\<open>AccountTransferMsg\<close> carries a map that the receivers range over.\<close>

record AccountTransferMsg =
  ATM_ModifiedMap :: "(string, u64) gomap"
  ATM_Addrs :: "string list"
  ATM_AccountState :: "AccountState list"
  ATM_ATid :: u64

text \<open>
  Values encoded with \<^verbatim>\<open>encoding/gob\<close>. The program only decodes buffers it has encoded, so an
  encoded value is represented by the value under a constructor for its Go type; decoding at
  another type fails, which makes the program panic. \<open>RawB\<close> is an unencoded byte string.
\<close>

datatype gob =
    GobAS AccountState
  | GobUAS UTXOAccountState
  | GobTx Transaction
  | GobUTXOTx UTXOTransaction
  | GobBH BlockHeader
  | GobB Block
  | GobOuts "TxOut list"
  | GobATM AccountTransferMsg
  | RawB bytes

definition DecodeB :: "gob \<Rightarrow> Block res" where
  "DecodeB g = (case g of GobB b \<Rightarrow> Inr b | _ \<Rightarrow> Inl (Panic ''gob: decode Block''))"

definition DecodeBH :: "gob \<Rightarrow> BlockHeader res" where
  "DecodeBH g = (case g of GobBH b \<Rightarrow> Inr b | _ \<Rightarrow> Inl (Panic ''gob: decode BlockHeader''))"

definition DecodeAS :: "gob \<Rightarrow> AccountState res" where
  "DecodeAS g = (case g of GobAS a \<Rightarrow> Inr a | _ \<Rightarrow> Inl (Panic ''gob: decode AccountState''))"

definition DecodeUAS :: "gob \<Rightarrow> UTXOAccountState res" where
  "DecodeUAS g = (case g of GobUAS a \<Rightarrow> Inr a | _ \<Rightarrow> Inl (Panic ''gob: decode UTXOAccountState''))"

definition DecodeOutputs :: "gob option \<Rightarrow> TxOut list res" where
  "DecodeOutputs g =
     (case g of Some (GobOuts os) \<Rightarrow> Inr os | _ \<Rightarrow> Inl (Panic ''gob: decode outputs''))"

definition DecodeAccountTransferMsg :: "gob \<Rightarrow> AccountTransferMsg res" where
  "DecodeAccountTransferMsg g =
     (case g of GobATM a \<Rightarrow> Inr a | _ \<Rightarrow> Inl (Panic ''gob: decode AccountTransferMsg''))"

lemmas decode_defs = DecodeB_def DecodeBH_def DecodeAS_def DecodeUAS_def DecodeOutputs_def
  DecodeAccountTransferMsg_def

lemma decode_encode [simp]:
  "DecodeB (GobB b) = Inr b" "DecodeBH (GobBH h) = Inr h" "DecodeAS (GobAS a) = Inr a"
  "DecodeUAS (GobUAS u) = Inr u" "DecodeOutputs (Some (GobOuts os)) = Inr os"
  "DecodeAccountTransferMsg (GobATM m) = Inr m"
  by (simp_all add: decode_defs)

lemma decode_eq_Inr [res_simps]:
  "DecodeB g = Inr b \<longleftrightarrow> g = GobB b" "DecodeBH g = Inr h \<longleftrightarrow> g = GobBH h"
  "DecodeAS g = Inr a \<longleftrightarrow> g = GobAS a" "DecodeUAS g = Inr u \<longleftrightarrow> g = GobUAS u"
  "DecodeOutputs og = Inr os \<longleftrightarrow> og = Some (GobOuts os)"
  "DecodeAccountTransferMsg g = Inr m \<longleftrightarrow> g = GobATM m"
  by (auto simp: decode_defs split: gob.splits option.splits)

datatype RequestType = BlockRequest | PartitionReq

record Request =
  R_RequestType :: RequestType
  R_Content :: gob
  R_ReqTime :: go_time

record Propose_msg =
  PR_RequestMsg :: Request
  PR_Digest :: bytes
  PR_SeqID :: u64

record Vote =
  V_RequestMsg :: Request
  V_Digest :: bytes
  V_SeqID :: u64
  V_SenderNode :: Node

record PrePrepare =
  PP_RequestMsg :: Request
  PP_Digest :: bytes
  PP_SeqID :: u64

record Prepare =
  P_Digest :: bytes
  P_SeqID :: u64
  P_SenderNode :: Node

record Commit =
  C_Digest :: bytes
  C_SeqID :: u64
  C_SenderNode :: Node

record RequestOldMessage =
  ROM_SeqStartHeight :: u64
  ROM_SeqEndHeight :: u64
  ROM_ServerNode :: Node
  ROM_SenderNode :: Node

record SendOldMessage =
  SOM_SeqStartHeight :: u64
  SOM_SeqEndHeight :: u64
  SOM_OldRequest :: "Request list"
  SOM_SenderNode :: Node

record InjectTxs =
  IT_Txs :: "Transaction list"
  IT_ToShardID :: u64

record BlockInfoMsg =
  BI_BlockBodyLength :: int
  BI_ExcutedTxs :: "Transaction list"
  BI_Epoch :: int
  BI_ProposeTime :: go_time
  BI_CommitTime :: go_time
  BI_SenderShardID :: u64
  BI_Relay1TxNum :: u64
  BI_Relay1Txs :: "Transaction list"
  BI_Broker1TxNum :: u64
  BI_Broker1Txs :: "Transaction list"
  BI_Broker2TxNum :: u64
  BI_Broker2Txs :: "Transaction list"

record SeqIDinfo =
  SI_SenderShardID :: u64
  SI_SenderSeq :: u64

record Relay =
  RL_Txs :: "Transaction list"
  RL_SenderShardID :: u64
  RL_SenderSeq :: u64

record RelayUTXO =
  RU_Txs :: "UTXOTransaction list"
  RU_SenderShardID :: u64
  RU_SenderSeq :: u64

record PartitionReady =
  PRD_FromShard :: u64
  PRD_NowSeqID :: u64

record AccountStateAndTx =
  AST_Addrs :: "string list"
  AST_AccountState :: "AccountState list"
  AST_Txs :: "Transaction list"
  AST_FromShard :: u64

record InnerTx2CrossTx =
  I2C_Txs :: "Transaction list"

text \<open>A message as the network carries it, by type.\<close>

datatype net_msg =
    MPropose Propose_msg
  | MVote Vote
  | MPrePrepare PrePrepare
  | MPrepare Prepare
  | MCommit Commit
  | MRequestOld RequestOldMessage
  | MSendOld SendOldMessage
  | MStop
  | MRelay Relay
  | MRelayUTXO RelayUTXO
  | MInject InjectTxs
  | MBlockInfo BlockInfoMsg
  | MSeqID SeqIDinfo
  | MPartition "(string, u64) gomap"
  | MPartitionReady PartitionReady
  | MAccountStateAndTx AccountStateAndTx
  | MAccountTransferBroker AccountStateAndTx
  | MInner2CrossTx InnerTx2CrossTx

section \<open>The wire format\<close>

definition prefixMSGtypeLen :: nat where
  "prefixMSGtypeLen = 30"

abbreviation NUL :: char where
  "NUL \<equiv> CHR 0x00"

abbreviation newline :: char where
  "newline \<equiv> CHR 0x0A"

text \<open>\<^verbatim>\<open>MergeMessage\<close>: writing a type longer than the field is an index out of range.\<close>

definition MergeMessage :: "string \<Rightarrow> bytes \<Rightarrow> bytes res" where
  "MergeMessage msgType content =
     (if length msgType > prefixMSGtypeLen then Inl (Panic ''index out of range'')
      else Inr ((msgType @ replicate (prefixMSGtypeLen - length msgType) NUL) @ content))"

definition SplitMessage :: "bytes \<Rightarrow> (string \<times> bytes) res" where
  "SplitMessage message =
     (if length message < prefixMSGtypeLen then Inl (Panic ''slice bounds out of range'')
      else Inr (filter (\<lambda>v. v \<noteq> NUL) (take prefixMSGtypeLen message),
                drop prefixMSGtypeLen message))"

definition message_types :: "string list" where
  "message_types =
     [''propose'', ''vote'', ''preprepare'', ''prepare'', ''commit'', ''requestOldrequest'',
      ''sendOldrequest'', ''stop'', ''relay'', ''inject'', ''BlockInfo'', ''SequenceID'',
      ''AccountState&txs'', ''PartitionModifiedMap'', ''ready for partition'',
      ''brokerRawTx'', ''brokerConfirm1'', ''brokerConfirm2'', ''brokerType1'', ''brokerType2'',
      ''InjectTx_Broker'', ''BrokerTxMap'', ''BrokerAS_transfer'', ''innerShardTx_be_crossShard'']"

lemma Split_Merge:
  assumes "length t \<le> prefixMSGtypeLen" and "NUL \<notin> set t"
  shows "rbind (MergeMessage t c) SplitMessage = Inr (t, c)"
proof -
  let ?h = "t @ replicate (prefixMSGtypeLen - length t) NUL"
  have len: "length ?h = prefixMSGtypeLen" using assms(1) by simp
  have m: "MergeMessage t c = Inr (?h @ c)" using assms(1) by (simp add: MergeMessage_def)
  have tk: "take prefixMSGtypeLen (?h @ c) = ?h" and dr: "drop prefixMSGtypeLen (?h @ c) = c"
    using append_eq_conv_conj [of ?h c "?h @ c"] unfolding len by simp_all
  have "filter (\<lambda>v. v \<noteq> NUL) ?h = t" using assms(2) by (auto simp: filter_id_conv)
  then show ?thesis using m tk dr len by (simp add: SplitMessage_def)
qed

text \<open>Every message type of the program survives the wire. For each declared message type and
  every content, merging does not panic and splitting the result gives back the type and the
  content.\<close>

theorem message_type_roundtrip:
  "\<forall>t \<in> set message_types. rbind (MergeMessage t content) SplitMessage = Inr (t, content)"
proof
  fix t assume t: "t \<in> set message_types"
  have "list_all (\<lambda>t. length t \<le> prefixMSGtypeLen \<and> NUL \<notin> set t) message_types"
    by code_simp
  with t have "length t \<le> prefixMSGtypeLen" "NUL \<notin> set t" by (auto simp: list_all_iff)
  then show "rbind (MergeMessage t content) SplitMessage = Inr (t, content)"
    by (rule Split_Merge)
qed

theorem message_type_roundtrip_witness:
  "''relay'' \<in> set message_types \<and> rbind (MergeMessage ''relay'' ''x'') SplitMessage = Inr (''relay'', ''x'')"
proof -
  have "''relay'' \<in> set message_types" by (simp add: message_types_def)
  then show ?thesis using message_type_roundtrip [of "''x''"] by blast
qed

section \<open>Framing on a connection\<close>

text \<open>
  \<^verbatim>\<open>TcpDial\<close> writes each message followed by a newline; \<^verbatim>\<open>handleClientRequest\<close> calls
  \<^verbatim>\<open>ReadBytes('\n')\<close>, which returns the bytes up to and including the next newline. What is left
  when the connection ends without a newline is an EOF.
\<close>

definition tcp_write :: "bytes list \<Rightarrow> bytes" where
  "tcp_write msgs = concat (map (\<lambda>m. m @ [newline]) msgs)"

fun read_frames :: "bytes \<Rightarrow> bytes \<Rightarrow> bytes list" where
  "read_frames acc [] = []"
| "read_frames acc (c # cs) =
     (if c = newline then (acc @ [c]) # read_frames [] cs else read_frames (acc @ [c]) cs)"

lemma read_frames_message:
  "newline \<notin> set m \<Longrightarrow> read_frames acc (m @ newline # rest) = (acc @ m @ [newline]) # read_frames [] rest"
  by (induction m arbitrary: acc) auto

lemma read_frames_write:
  "\<forall>m \<in> set msgs. newline \<notin> set m \<Longrightarrow> read_frames [] (tcp_write msgs) = map (\<lambda>m. m @ [newline]) msgs"
  by (induction msgs) (auto simp: tcp_write_def read_frames_message)

lemma MergeMessage_no_newline:
  "MergeMessage t c = Inr b \<Longrightarrow> newline \<notin> set t \<Longrightarrow> newline \<notin> set c \<Longrightarrow> newline \<notin> set b"
  by (auto simp: MergeMessage_def split: if_splits)

text \<open>C33: a connection carries a sequence of messages intact. When no message contains a newline
  byte (JSON and the message types contain none), the receiver reads back exactly the messages
  written, in order; splitting each frame gives its type and its content with the newline still
  attached, which the JSON decoder ignores.\<close>

theorem tcp_framing_roundtrip:
  assumes "\<forall>(t, c) \<in> set ms. length t \<le> prefixMSGtypeLen \<and> NUL \<notin> set t
             \<and> newline \<notin> set t \<and> newline \<notin> set c"
    and "list_all2 (\<lambda>(t, c) b. MergeMessage t c = Inr b) ms bs"
  shows "map SplitMessage (read_frames [] (tcp_write bs)) = map (\<lambda>(t, c). Inr (t, c @ [newline])) ms"
proof -
  have fr: "\<forall>b \<in> set bs. newline \<notin> set b"
    using assms(2,1)
    by (induction ms bs rule: list_all2_induct) (auto dest: MergeMessage_no_newline)
  have "map SplitMessage (map (\<lambda>m. m @ [newline]) bs) = map (\<lambda>(t, c). Inr (t, c @ [newline])) ms"
    using assms(2,1)
  proof (induction ms bs rule: list_all2_induct)
    case Nil
    then show ?case by simp
  next
    case (Cons x ms b bs)
    obtain t c where x: "x = (t, c)" by fastforce
    with Cons have ok: "length t \<le> prefixMSGtypeLen" "NUL \<notin> set t"
      and mb: "MergeMessage t c = Inr b" by auto
    then have "MergeMessage t (c @ [newline]) = Inr (b @ [newline])"
      by (auto simp: MergeMessage_def split: if_splits)
    with Split_Merge [OF ok, of "c @ [newline]"] have "SplitMessage (b @ [newline]) = Inr (t, c @ [newline])"
      by simp
    with x Cons show ?case by auto
  qed
  then show ?thesis by (simp only: read_frames_write [OF fr])
qed

theorem tcp_framing_roundtrip_witness:
  "\<exists>b. MergeMessage ''stop'' ''bye'' = Inr b \<and>
     map SplitMessage (read_frames [] (tcp_write [b])) = [Inr (''stop'', ''bye'' @ [newline])]"
proof -
  obtain b where b: "MergeMessage ''stop'' ''bye'' = Inr b"
    by (simp add: MergeMessage_def prefixMSGtypeLen_def)
  have "map SplitMessage (read_frames [] (tcp_write [b]))
      = map (\<lambda>(t, c). Inr (t, c @ [newline])) [(''stop'', ''bye'')]"
    by (rule tcp_framing_roundtrip) (simp_all add: b prefixMSGtypeLen_def)
  with b show ?thesis by simp
qed

end
