(* ===== verification/Network.thy ===== *)
theory Network
  imports Messages
begin

text \<open>
  The connections of a process (\<^verbatim>\<open>src/networks/p2pNetwork.go\<close>). The connection pool maps an address
  to what has been written to the connection to it. What the operating system does is an argument of
  every call: whether dialling succeeds and how many bytes a write accepts; \<^verbatim>\<open>net.Conn.Write\<close> reports an
  error exactly when it accepts fewer than all bytes, and \<^verbatim>\<open>TcpDial\<close> then returns without doing
  anything about it.

  The lemmas show what a receiver reads from a connection: the messages whose writes went through,
  in the order in which they were sent, and nothing any more once the connection is broken.
\<close>

section \<open>Dialling and writing\<close>

type_synonym conn_pool = "string \<rightharpoonup> bytes"

definition TcpDial :: "bool \<Rightarrow> nat \<Rightarrow> bytes \<Rightarrow> string \<Rightarrow> conn_pool \<Rightarrow> conn_pool" where
  "TcpDial dial_ok n context addr pool =
     (case (case pool addr of None \<Rightarrow> if dial_ok then Some [] else None | Some sent \<Rightarrow> Some sent) of
        None \<Rightarrow> pool
      | Some sent \<Rightarrow> pool(addr \<mapsto> sent @ take n (context @ [newline])))"

text \<open>A sequence of calls: for each whether a dial would succeed, the bytes a write would accept, the
  message and the address.\<close>

type_synonym tcp_call = "bool \<times> nat \<times> bytes \<times> string"

fun dial_all :: "tcp_call list \<Rightarrow> conn_pool \<Rightarrow> conn_pool" where
  "dial_all [] pool = pool"
| "dial_all ((d, n, m, a) # calls) pool = dial_all calls (TcpDial d n m a pool)"

section \<open>What arrives\<close>

text \<open>The messages for an address that are written in full, from the first dial that succeeds on.\<close>

fun arrived :: "string \<Rightarrow> bool \<Rightarrow> tcp_call list \<Rightarrow> bytes list" where
  "arrived addr connected [] = []"
| "arrived addr connected ((d, n, m, a) # calls) =
     (if a \<noteq> addr then arrived addr connected calls
      else (if (connected \<or> d) \<and> length m < n then [m] else []) @ arrived addr (connected \<or> d) calls)"

definition whole_writes :: "tcp_call list \<Rightarrow> bool" where
  "whole_writes calls \<longleftrightarrow> (\<forall>(d, n, m, a) \<in> set calls. newline \<notin> set m \<and> (n = 0 \<or> length m < n))"

lemma TcpDial_other [simp]: "a \<noteq> addr \<Longrightarrow> TcpDial d n m a pool addr = pool addr"
  by (simp add: TcpDial_def split: option.splits)

lemma TcpDial_same:
  assumes "n = 0 \<or> length m < n"
  shows "TcpDial d n m addr pool addr =
    (case pool addr of
       None \<Rightarrow> if d then Some (tcp_write (if length m < n then [m] else [])) else None
     | Some sent \<Rightarrow> Some (sent @ tcp_write (if length m < n then [m] else [])))"
  using assms by (auto simp: TcpDial_def tcp_write_def split: option.splits)

lemma tcp_write_append: "tcp_write (xs @ ys) = tcp_write xs @ tcp_write ys"
  by (simp add: tcp_write_def)

lemma stream_arrived:
  assumes "whole_writes calls"
  shows "dial_all calls pool addr =
    (case pool addr of
       None \<Rightarrow> if (\<exists>n m. (True, n, m, addr) \<in> set calls) then Some (tcp_write (arrived addr False calls)) else None
     | Some sent \<Rightarrow> Some (sent @ tcp_write (arrived addr True calls)))"
  using assms
proof (induction calls arbitrary: pool)
  case Nil
  then show ?case by (simp add: tcp_write_def split: option.splits)
next
  case (Cons call calls)
  obtain d n m a where call: "call = (d, n, m, a)" by (cases call)
  from Cons.prems have "n = 0 \<or> length m < n" and "whole_writes calls" by (auto simp: whole_writes_def call)
  note step = TcpDial_same [OF this(1), of d addr pool] Cons.IH [OF this(2), of "TcpDial d n m a pool"]
  show ?case
  proof (cases "a = addr")
    case True
    then show ?thesis using step by (cases "pool addr"; cases d) (auto simp: call tcp_write_append)
  next
    case False
    then show ?thesis using step(2) by (cases "pool addr") (simp_all add: call)
  qed
qed

lemma arrived_sent: "m \<in> set (arrived addr c calls) \<Longrightarrow> \<exists>d n. (d, n, m, addr) \<in> set calls"
  by (induction addr c calls rule: arrived.induct) (auto split: if_splits)

text \<open>C32: messages arrive in order. Whatever calls of \<open>TcpDial\<close> a process makes and however dialling turns
  out, when every write accepts the whole message or nothing, the process at an address reads from
  its connection exactly the messages for it that were written, each once and in the order they
  were sent, beginning with the first call whose dial succeeded.\<close>

theorem network_delivers_in_order:
  assumes "whole_writes calls"
  shows "(case dial_all calls Map.empty addr of
      None \<Rightarrow> \<forall>n m. (True, n, m, addr) \<notin> set calls
    | Some stream \<Rightarrow> read_frames [] stream = map (\<lambda>m. m @ [newline]) (arrived addr False calls))"
proof -
  have "\<forall>m \<in> set (arrived addr False calls). newline \<notin> set m"
    using assms arrived_sent [of _ addr False calls] by (fastforce simp: whole_writes_def)
  then show ?thesis using stream_arrived [OF assms, of Map.empty addr] by (auto simp: read_frames_write)
qed

theorem network_delivers_in_order_witness:
  "read_frames [] (the (dial_all [(False, 9, ''a'', ''x''), (True, 9, ''b'', ''x''), (True, 9, ''c'', ''y''),
      (False, 9, ''d'', ''x'')] Map.empty ''x'')) = [''b'' @ [newline], ''d'' @ [newline]]"
proof -
  let ?calls = "[(False, 9, ''a'', ''x''), (True, 9, ''b'', ''x''), (True, 9, ''c'', ''y''), (False, 9, ''d'', ''x'')]"
  have "whole_writes ?calls" by (simp add: whole_writes_def)
  from network_delivers_in_order [OF this, of "''x''"] show ?thesis
    by (simp add: TcpDial_def)
qed

text \<open>A broken connection stays in the pool: when it accepts no more bytes, nothing is written for that
  address any more, although dialling it again would succeed.\<close>

theorem broken_connection_never_redialled:
  assumes "pool addr = Some sent" and "\<forall>(d, n, m, a) \<in> set calls. a = addr \<longrightarrow> n = 0"
  shows "dial_all calls pool addr = Some sent"
  using assms
proof (induction calls arbitrary: pool)
  case (Cons call calls)
  obtain d n m a where call: "call = (d, n, m, a)" by (cases call)
  have "TcpDial d n m a pool addr = Some sent"
    using Cons.prems call by (cases "a = addr") (auto simp: TcpDial_def split: option.splits)
  with Cons call show ?case by simp
qed simp

text \<open>A message of which only a part was written runs into the next one.\<close>

theorem partial_write_merges:
  assumes "newline \<notin> set m" and "newline \<notin> set m'" and "n \<le> length m" and "length m' < n'"
  shows "\<exists>stream. dial_all [(True, n, m, addr), (d, n', m', addr)] Map.empty addr = Some stream \<and>
    read_frames [] stream = [take n m @ m' @ [newline]]"
proof -
  have "newline \<notin> set (take n m @ m')" using assms(1,2) by (auto dest: in_set_takeD)
  from read_frames_message [OF this, of "[]" "[]"] show ?thesis
    using assms(3,4) by (simp add: TcpDial_def)
qed

end
