(* ===== verification/Env.thy ===== *)
theory Env
  imports Messages
begin

text \<open>
  What the program takes from outside: the global parameters of \<^verbatim>\<open>src/params\<close>, the hash functions,
  and the two third-party libraries it keeps its state in, the Merkle Patricia trie of go-ethereum
  and the key-value store bolt. They are one record, \<open>env\<close>, that every definition which needs
  them takes as its argument; its type parameters are the library's trie, trie-database and
  bucket types.

  What the program relies on is stated as \<open>trie_laws\<close> and \<open>bolt_laws\<close>, both documented behaviour:
  a trie is a map, its root is a function of its contents, a committed trie can be opened again at
  its root; a bucket is a map with non-empty keys, iterated in key order. \<open>demo_env\<close> is a small
  executable instance that satisfies them.
\<close>

record ('t, 'd, 'b) env =
  P_UTXO :: bool                       \<comment> \<open>\<^verbatim>\<open>params.UTXO\<close>\<close>
  P_ShardNum :: int                    \<comment> \<open>\<^verbatim>\<open>params.ShardNum\<close>\<close>
  sha_tx :: "Transaction \<Rightarrow> bytes"      \<comment> \<open>\<^verbatim>\<open>sha256.Sum256(tx.Encode())\<close>\<close>
  sha_utxo :: "UTXOTransaction \<Rightarrow> bytes"
  sha_bh :: "BlockHeader \<Rightarrow> bytes"
  sha_str :: "bytes \<Rightarrow> bytes"
  sha_req :: "Request \<Rightarrow> bytes"         \<comment> \<open>\<^verbatim>\<open>getDigest\<close>: SHA-256 of the JSON of a request\<close>
  BytesToHash :: "bytes \<Rightarrow> bytes"
  T_open :: "'d \<Rightarrow> 'd"                  \<comment> \<open>\<^verbatim>\<open>trie.NewDatabaseWithConfig\<close>\<close>
  T_empty :: 't                        \<comment> \<open>\<^verbatim>\<open>trie.NewEmpty\<close>\<close>
  T_new :: "bytes \<Rightarrow> 'd \<Rightarrow> 't option"    \<comment> \<open>\<^verbatim>\<open>trie.New(trie.TrieID(root), db)\<close>\<close>
  T_get :: "'t \<Rightarrow> bytes \<Rightarrow> gob option"
  T_put :: "'t \<Rightarrow> bytes \<Rightarrow> gob \<Rightarrow> 't"
  T_root :: "'t \<Rightarrow> bytes"               \<comment> \<open>\<^verbatim>\<open>st.Hash()\<close> and the root of \<^verbatim>\<open>st.Commit(false)\<close>\<close>
  T_updateDB :: "'d \<Rightarrow> 't \<Rightarrow> 'd option"  \<comment> \<open>\<^verbatim>\<open>triedb.Update\<close> with the node set of a committed trie\<close>
  T_commitDB :: "'d \<Rightarrow> bytes \<Rightarrow> 'd option"  \<comment> \<open>\<^verbatim>\<open>triedb.Commit(root, false)\<close>\<close>
  K_new :: 'b                          \<comment> \<open>an empty bucket\<close>
  K_get :: "'b \<Rightarrow> bytes \<Rightarrow> gob option"
  K_put :: "'b \<Rightarrow> bytes \<Rightarrow> gob \<Rightarrow> 'b option"
  K_del :: "'b \<Rightarrow> bytes \<Rightarrow> 'b"
  K_list :: "'b \<Rightarrow> (bytes \<times> gob) list"   \<comment> \<open>the cursor's sequence\<close>

definition trie_laws :: "('t, 'd, 'b) env \<Rightarrow> bool" where
  "trie_laws E \<longleftrightarrow>
     (\<forall>k. T_get E (T_empty E) k = None) \<and>
     (\<forall>t k v k'. T_get E (T_put E t k v) k' = (if k' = k then Some v else T_get E t k')) \<and>
     (\<forall>t t'. T_get E t = T_get E t' \<longrightarrow> T_root E t = T_root E t') \<and>
     (\<forall>t. BytesToHash E (T_root E t) = T_root E t) \<and>
     (\<forall>r. BytesToHash E (BytesToHash E r) = BytesToHash E r) \<and>
     (\<forall>d. \<exists>t. T_new E (T_root E (T_empty E)) d = Some t \<and> T_get E t = T_get E (T_empty E)) \<and>
     (\<forall>d t. \<exists>d'. T_updateDB E d t = Some d' \<and>
        (\<exists>t'. T_new E (T_root E t) d' = Some t' \<and> T_get E t' = T_get E t) \<and>
        (\<forall>r. T_new E r d \<noteq> None \<longrightarrow> T_new E r d' \<noteq> None)) \<and>
     (\<forall>d r. T_new E r d \<noteq> None \<longrightarrow>
        (\<exists>d'. T_commitDB E d r = Some d' \<and> (\<forall>r'. T_new E r' d' = T_new E r' d)))"

definition bolt_laws :: "('t, 'd, 'b) env \<Rightarrow> bool" where
  "bolt_laws E \<longleftrightarrow>
     (\<forall>k. K_get E (K_new E) k = None) \<and>
     (\<forall>b k v. k \<noteq> [] \<longrightarrow> (\<exists>b'. K_put E b k v = Some b' \<and> K_get E b' = (K_get E b)(k \<mapsto> v))) \<and>
     (\<forall>b v. K_put E b [] v = None) \<and>
     (\<forall>b k. K_get E (K_del E b k) = (K_get E b)(k := None)) \<and>
     (\<forall>b. wf_map (K_list E b) \<and> map_of (K_list E b) = K_get E b)"

lemma trie_get_empty [env_simps]: "trie_laws E \<Longrightarrow> T_get E (T_empty E) k = None"
  by (simp add: trie_laws_def)

lemma trie_get_put [env_simps]:
  "trie_laws E \<Longrightarrow> T_get E (T_put E t k v) k' = (if k' = k then Some v else T_get E t k')"
  by (simp add: trie_laws_def)

lemma trie_root_cong: "trie_laws E \<Longrightarrow> T_get E t = T_get E t' \<Longrightarrow> T_root E t = T_root E t'"
  unfolding trie_laws_def by (drule conjunct2, drule conjunct2, drule conjunct1) blast

lemma trie_root_hash [env_simps]: "trie_laws E \<Longrightarrow> BytesToHash E (T_root E t) = T_root E t"
  unfolding trie_laws_def
  by (drule conjunct2, drule conjunct2, drule conjunct2, drule conjunct1) blast

lemma trie_hash_idem [env_simps]:
  "trie_laws E \<Longrightarrow> BytesToHash E (BytesToHash E r) = BytesToHash E r"
  unfolding trie_laws_def
  by (drule conjunct2, drule conjunct2, drule conjunct2, drule conjunct2, drule conjunct1) blast

lemma trie_open_empty:
  "trie_laws E \<Longrightarrow> \<exists>t. T_new E (T_root E (T_empty E)) d = Some t \<and> T_get E t = T_get E (T_empty E)"
  unfolding trie_laws_def by meson

lemma trie_update:
  "trie_laws E \<Longrightarrow> \<exists>d'. T_updateDB E d t = Some d' \<and>
     (\<exists>t'. T_new E (T_root E t) d' = Some t' \<and> T_get E t' = T_get E t) \<and>
     (\<forall>r. T_new E r d \<noteq> None \<longrightarrow> T_new E r d' \<noteq> None)"
  unfolding trie_laws_def by meson

lemma trie_commit:
  "trie_laws E \<Longrightarrow> T_new E r d \<noteq> None \<Longrightarrow>
     \<exists>d'. T_commitDB E d r = Some d' \<and> (\<forall>r'. T_new E r' d' = T_new E r' d)"
  unfolding trie_laws_def by meson

lemma bolt_get_new [env_simps]: "bolt_laws E \<Longrightarrow> K_get E (K_new E) k = None"
  by (simp add: bolt_laws_def)

lemma bolt_put:
  "bolt_laws E \<Longrightarrow> k \<noteq> [] \<Longrightarrow> \<exists>b'. K_put E b k v = Some b' \<and> K_get E b' = (K_get E b)(k \<mapsto> v)"
  by (simp add: bolt_laws_def)

lemma bolt_put_nonempty: "bolt_laws E \<Longrightarrow> K_put E b k v = Some b' \<Longrightarrow> k \<noteq> []"
  by (auto simp: bolt_laws_def)

lemma bolt_put_get:
  assumes "bolt_laws E" and "K_put E b k v = Some b'"
  shows "K_get E b' = (K_get E b)(k \<mapsto> v)"
  using bolt_put [OF assms(1) bolt_put_nonempty [OF assms], of b v] assms(2) by auto

lemma bolt_del [env_simps]: "bolt_laws E \<Longrightarrow> K_get E (K_del E b k) = (K_get E b)(k := None)"
  by (simp add: bolt_laws_def)

section \<open>Committing a trie\<close>

text \<open>
  The sequence \<^verbatim>\<open>rt, ns := st.Commit(false); triedb.Update(ns); triedb.Commit(rt, false)\<close>, whose
  errors make the program panic.
\<close>

definition commit_trie :: "('t, 'd, 'b) env \<Rightarrow> 't \<Rightarrow> 'd \<Rightarrow> (bytes \<times> 'd) res" where
  "commit_trie E st d =
     (let rt = T_root E st in
      rbind (opt_or (Panic ''triedb.Update'') (T_updateDB E d st)) (\<lambda>d1.
      rbind (opt_or (Panic ''triedb.Commit'') (T_commitDB E d1 rt)) (\<lambda>d2. Inr (rt, d2))))"

lemma commit_trie_ok:
  assumes "trie_laws E"
  shows "\<exists>d' t'. commit_trie E st d = Inr (T_root E st, d') \<and>
           T_new E (T_root E st) d' = Some t' \<and> T_get E t' = T_get E st \<and>
           (\<forall>r. T_new E r d \<noteq> None \<longrightarrow> T_new E r d' \<noteq> None)"
proof -
  obtain d1 t1 where d1: "T_updateDB E d st = Some d1" "T_new E (T_root E st) d1 = Some t1"
    "T_get E t1 = T_get E st" "\<forall>r. T_new E r d \<noteq> None \<longrightarrow> T_new E r d1 \<noteq> None"
    using trie_update [OF assms, of d st] by blast
  obtain d2 where d2: "T_commitDB E d1 (T_root E st) = Some d2"
    "\<forall>r. T_new E r d2 = T_new E r d1"
    using trie_commit [OF assms, of "T_root E st" d1] d1(2) by auto
  with d1 show ?thesis by (auto simp: commit_trie_def)
qed

section \<open>An executable instance\<close>

type_synonym demo_trie = "(bytes \<times> gob) list"

definition demo_env ::
    "bool \<Rightarrow> int \<Rightarrow> (demo_trie, bytes \<rightharpoonup> demo_trie, demo_trie) env" where
  "demo_env utxo n =
     \<lparr>P_UTXO = utxo, P_ShardNum = n,
      sha_tx = (\<lambda>tx. ''t'' @ Tx_Sender tx @ Tx_Recipient tx),
      sha_utxo = (\<lambda>tx. ''u'' @ U_Recipient tx @ map (\<lambda>_. CHR ''x'') (U_Vin tx)
                         @ map (\<lambda>_. CHR ''y'') (U_Vout tx)),
      sha_bh = (\<lambda>h. ''h'' @ [char_of (unat (BH_Number h))]),
      sha_str = (\<lambda>s. ''s'' @ s),
      sha_req = (\<lambda>r. case R_Content r of GobB b \<Rightarrow> ''r'' @ B_Hash b | _ \<Rightarrow> ''q''),
      BytesToHash = (\<lambda>b. b),
      T_open = (\<lambda>d. d), T_empty = [],
      T_new = (\<lambda>r d. if r = ''e'' then Some [] else d r),
      T_get = map_of, T_put = (\<lambda>t k v. AList.update k v t),
      T_root = (\<lambda>t. if t = [] then ''e'' else ''r''),
      T_updateDB = (\<lambda>d t. Some (if t = [] then d else d(''r'' \<mapsto> t))),
      T_commitDB = (\<lambda>d r. Some d),
      K_new = [], K_get = map_of,
      K_put = (\<lambda>b k v. if k = [] then None else Some (AList.update k v b)),
      K_del = (\<lambda>b k. AList.delete k b),
      K_list = (\<lambda>b. AList.clearjunk b)\<rparr>"

lemma map_of_Nil_iff: "map_of t = Map.empty \<longleftrightarrow> t = []"
  by (cases t) (auto simp: fun_eq_iff)

lemma demo_root_cong: "map_of t = map_of t' \<Longrightarrow> (t = []) = (t' = [])"
  by (metis map_of_Nil_iff)

lemma demo_trie_laws: "trie_laws (demo_env u n)"
  unfolding trie_laws_def
proof (intro conjI allI)
  show "T_get (demo_env u n) t = T_get (demo_env u n) t' \<longrightarrow>
      T_root (demo_env u n) t = T_root (demo_env u n) t'" for t t'
    using demo_root_cong [of t t'] by (simp add: demo_env_def)
qed (simp_all add: demo_env_def update_conv)

lemma demo_bolt_laws: "bolt_laws (demo_env u n)"
  by (auto simp: bolt_laws_def demo_env_def update_conv' delete_conv' wf_map_def
      distinct_clearjunk clearjunk_restrict map_of_clearjunk)

end
