(* ===== verification/Storages.thy ===== *)
theory Storages
  imports Env
begin

text \<open>
  The block store (\<^verbatim>\<open>src/storage/storage.go\<close>): four bolt buckets. Opening the database file and
  making the directory are input/output and not modelled; the state starts from the buckets found
  on disk. \<^verbatim>\<open>GetBlock\<close>, \<^verbatim>\<open>GetBlockHeader\<close> and \<^verbatim>\<open>GetNewestBlockHash\<close> return an \<^verbatim>\<open>error\<close> (\<open>Inl\<close> of the
  inner sum); failed writes and undecodable values panic.
\<close>

record 'b Storage =
  blockBucket :: 'b
  blockHeaderBucket :: 'b
  newestBlockHashBucket :: 'b
  UTXOBucket :: 'b

definition bucket_or_new :: "('t, 'd, 'b) env \<Rightarrow> 'b option \<Rightarrow> 'b" where
  "bucket_or_new E ob = (case ob of None \<Rightarrow> K_new E | Some b \<Rightarrow> b)"

definition NewStorage :: "('t, 'd, 'b) env \<Rightarrow> (string \<Rightarrow> 'b option) \<Rightarrow> 'b Storage" where
  "NewStorage E disk =
     \<lparr>blockBucket = bucket_or_new E (disk ''block''),
      blockHeaderBucket = bucket_or_new E (disk ''blockHeader''),
      newestBlockHashBucket = bucket_or_new E (disk ''newestBlockHash''),
      UTXOBucket = bucket_or_new E (disk ''utxo'')\<rparr>"

definition OnlyNewestBlock :: bytes where
  "OnlyNewestBlock = ''OnlyNewestBlock''"

definition UpdateNewestBlock :: "('t, 'd, 'b) env \<Rightarrow> bytes \<Rightarrow> 'b Storage \<Rightarrow> 'b Storage res" where
  "UpdateNewestBlock E newestbhash s =
     rbind (opt_or (Panic ''bolt Put'')
              (K_put E (newestBlockHashBucket s) OnlyNewestBlock (RawB newestbhash)))
       (\<lambda>k. Inr (s\<lparr>newestBlockHashBucket := k\<rparr>))"

definition AddBlockHeader ::
    "('t, 'd, 'b) env \<Rightarrow> bytes \<Rightarrow> BlockHeader \<Rightarrow> 'b Storage \<Rightarrow> 'b Storage res" where
  "AddBlockHeader E blockhash bh s =
     rbind (opt_or (Panic ''bolt Put'') (K_put E (blockHeaderBucket s) blockhash (GobBH bh)))
       (\<lambda>k. Inr (s\<lparr>blockHeaderBucket := k\<rparr>))"

definition Storage_AddBlock :: "('t, 'd, 'b) env \<Rightarrow> Block \<Rightarrow> 'b Storage \<Rightarrow> 'b Storage res" where
  "Storage_AddBlock E b s =
     rbind (opt_or (Panic ''bolt Put'') (K_put E (blockBucket s) (B_Hash b) (GobB b)))
       (\<lambda>k. rbind (AddBlockHeader E (B_Hash b) (B_Header b) (s\<lparr>blockBucket := k\<rparr>))
              (UpdateNewestBlock E (B_Hash b)))"

definition GetBlockHeader ::
    "('t, 'd, 'b) env \<Rightarrow> bytes \<Rightarrow> 'b Storage \<Rightarrow> (string + BlockHeader) res" where
  "GetBlockHeader E bhash s =
     (case K_get E (blockHeaderBucket s) bhash of
        None \<Rightarrow> Inr (Inl ''the block is not existed'')
      | Some g \<Rightarrow> rbind (DecodeBH g) (\<lambda>h. Inr (Inr h)))"

definition GetBlock :: "('t, 'd, 'b) env \<Rightarrow> bytes \<Rightarrow> 'b Storage \<Rightarrow> (string + Block) res" where
  "GetBlock E bhash s =
     (case K_get E (blockBucket s) bhash of
        None \<Rightarrow> Inr (Inl ''the block is not existed'')
      | Some g \<Rightarrow> rbind (DecodeB g) (\<lambda>b. Inr (Inr b)))"

definition GetNewestBlockHash :: "('t, 'd, 'b) env \<Rightarrow> 'b Storage \<Rightarrow> (string + bytes) res" where
  "GetNewestBlockHash E s =
     (case K_get E (newestBlockHashBucket s) OnlyNewestBlock of
        None \<Rightarrow> Inr (Inl ''cannot find the newest block hash'')
      | Some (RawB h) \<Rightarrow> Inr (Inr h)
      | Some _ \<Rightarrow> Inl (Panic ''not a byte string''))"

lemma OnlyNewestBlock_nonempty [simp]: "OnlyNewestBlock \<noteq> []"
  by (simp add: OnlyNewestBlock_def)

lemma Storage_AddBlock_ok:
  assumes "bolt_laws E" and "B_Hash b \<noteq> []"
  shows "\<exists>s'. Storage_AddBlock E b s = Inr s' \<and>
     K_get E (blockBucket s') = (K_get E (blockBucket s))(B_Hash b \<mapsto> GobB b) \<and>
     K_get E (blockHeaderBucket s') = (K_get E (blockHeaderBucket s))(B_Hash b \<mapsto> GobBH (B_Header b)) \<and>
     K_get E (newestBlockHashBucket s') OnlyNewestBlock = Some (RawB (B_Hash b)) \<and>
     UTXOBucket s' = UTXOBucket s"
proof -
  obtain k1 where k1: "K_put E (blockBucket s) (B_Hash b) (GobB b) = Some k1"
    "K_get E k1 = (K_get E (blockBucket s))(B_Hash b \<mapsto> GobB b)"
    using bolt_put [OF assms] by blast
  obtain k2 where k2: "K_put E (blockHeaderBucket s) (B_Hash b) (GobBH (B_Header b)) = Some k2"
    "K_get E k2 = (K_get E (blockHeaderBucket s))(B_Hash b \<mapsto> GobBH (B_Header b))"
    using bolt_put [OF assms] by blast
  obtain k3 where k3: "K_put E (newestBlockHashBucket s) OnlyNewestBlock (RawB (B_Hash b)) = Some k3"
    "K_get E k3 = (K_get E (newestBlockHashBucket s))(OnlyNewestBlock \<mapsto> RawB (B_Hash b))"
    using bolt_put [OF assms(1) OnlyNewestBlock_nonempty] by blast
  from k1 k2 k3 show ?thesis
    by (simp add: Storage_AddBlock_def AddBlockHeader_def UpdateNewestBlock_def)
qed

lemma Storage_AddBlock_empty_hash:
  "bolt_laws E \<Longrightarrow> B_Hash b = [] \<Longrightarrow> Storage_AddBlock E b s = Inl (Panic ''bolt Put'')"
  by (simp add: Storage_AddBlock_def bolt_laws_def)

lemma Storage_AddBlock_D:
  assumes "bolt_laws E" and "Storage_AddBlock E b s = Inr s'"
  shows "K_get E (blockBucket s') = (K_get E (blockBucket s))(B_Hash b \<mapsto> GobB b)"
    and "K_get E (newestBlockHashBucket s') OnlyNewestBlock = Some (RawB (B_Hash b))"
    and "B_Hash b \<noteq> []" and "UTXOBucket s' = UTXOBucket s"
proof -
  show ne: "B_Hash b \<noteq> []"
    using Storage_AddBlock_empty_hash [OF assms(1)] assms(2) by fastforce
  show "K_get E (blockBucket s') = (K_get E (blockBucket s))(B_Hash b \<mapsto> GobB b)"
    and "K_get E (newestBlockHashBucket s') OnlyNewestBlock = Some (RawB (B_Hash b))"
    and "UTXOBucket s' = UTXOBucket s"
    using Storage_AddBlock_ok [OF assms(1) ne, of s] assms(2) by auto
qed

text \<open>What is stored can be read back. Adding a block with a non-empty hash succeeds; afterwards
  the block and its header are found under that hash, the hash is the newest one, and every block
  stored under another hash is found as before.\<close>

theorem storage_roundtrip:
  assumes "bolt_laws E" and "B_Hash b \<noteq> []"
  shows "\<exists>s'. Storage_AddBlock E b s = Inr s' \<and> GetBlock E (B_Hash b) s' = Inr (Inr b) \<and>
           GetBlockHeader E (B_Hash b) s' = Inr (Inr (B_Header b)) \<and>
           GetNewestBlockHash E s' = Inr (Inr (B_Hash b)) \<and>
           (\<forall>h. h \<noteq> B_Hash b \<longrightarrow> GetBlock E h s' = GetBlock E h s)"
  using Storage_AddBlock_ok [OF assms, of s]
  by (auto simp: GetBlock_def GetBlockHeader_def GetNewestBlockHash_def)

definition sample_header :: "u64 \<Rightarrow> BlockHeader" where
  "sample_header n = \<lparr>BH_ParentBlockHash = ''p'', BH_StateRoot = ''e'', BH_TxRoot = ''e'',
     BH_Number = n, BH_Time = 1, BH_Miner = 0\<rparr>"

definition sample_block :: "u64 \<Rightarrow> Block" where
  "sample_block n = \<lparr>B_Header = sample_header n, B_Body = [], B_UTXO = [], B_Hash = ''hash''\<rparr>"

theorem storage_roundtrip_witness:
  "\<exists>s'. Storage_AddBlock (demo_env False 4) (sample_block 1)
          (NewStorage (demo_env False 4) (\<lambda>_. None)) = Inr s' \<and>
        GetBlock (demo_env False 4) ''hash'' s' = Inr (Inr (sample_block 1))"
  using storage_roundtrip [OF demo_bolt_laws [of False 4], of "sample_block 1"
      "NewStorage (demo_env False 4) (\<lambda>_. None)"] by (auto simp: sample_block_def)

end
