(* ===== verification/Utils.thy ===== *)
theory Utils
  imports Prelude "HOL-Library.Signed_Division"
begin

text \<open>
  The \<^verbatim>\<open>utils\<close> package (\<^verbatim>\<open>src/utils\<close>): the default assignment of an address to a shard, with
  the part of \<^verbatim>\<open>strconv.ParseUint\<close> and of \<^verbatim>\<open>encoding/hex\<close> of the Go standard library that the
  program uses. The lemmas show for which addresses the assignment is defined, that it stays
  inside the range of shards, and that hexadecimal coding of transaction ids is lossless.
\<close>

section \<open>Hexadecimal digits\<close>

definition hexval :: "char \<Rightarrow> nat option" where
  "hexval c =
     (let n = (of_char c :: nat) in
      if 48 \<le> n \<and> n \<le> 57 then Some (n - 48)
      else if 97 \<le> n \<and> n \<le> 102 then Some (n - 87)
      else if 65 \<le> n \<and> n \<le> 70 then Some (n - 55)
      else None)"

definition hexdigit :: "nat \<Rightarrow> char" where
  "hexdigit d = char_of (if d < 10 then d + 48 else d + 87)"

abbreviation is_hex :: "char \<Rightarrow> bool" where
  "is_hex c \<equiv> hexval c \<noteq> None"

lemma hexval_less_16: "hexval c = Some d \<Longrightarrow> d < 16"
  by (auto simp: hexval_def Let_def split: if_splits)

lemma hexval_hexdigit [simp]: "d < 16 \<Longrightarrow> hexval (hexdigit d) = Some d"
  by (auto simp: hexval_def hexdigit_def Let_def)

section \<open>Parsing an unsigned number in base 16\<close>

text \<open>
  \<^verbatim>\<open>strconv.ParseUint(s, 16, 64)\<close>: an empty string, a character that is not a hexadecimal digit
  and a value outside 64 bits are errors.
\<close>

fun parse_hex :: "nat \<Rightarrow> string \<Rightarrow> nat option" where
  "parse_hex acc [] = Some acc"
| "parse_hex acc (c # cs) =
     (case hexval c of None \<Rightarrow> None | Some d \<Rightarrow> parse_hex (16 * acc + d) cs)"

definition ParseUint16 :: "string \<Rightarrow> u64 option" where
  "ParseUint16 s =
     (if s = [] then None
      else case parse_hex 0 s of
             None \<Rightarrow> None
           | Some n \<Rightarrow> if n < 2 ^ 64 then Some (of_nat n) else None)"

lemma parse_hex_defined: "(\<exists>n. parse_hex acc s = Some n) \<longleftrightarrow> (\<forall>c\<in>set s. is_hex c)"
  by (induction s arbitrary: acc) (auto split: option.splits)

lemma parse_hex_bound:
  "parse_hex acc s = Some n \<Longrightarrow> n < (acc + 1) * 16 ^ length s"
proof (induction s arbitrary: acc)
  case Nil
  then show ?case by simp
next
  case (Cons c cs)
  then obtain d where d: "hexval c = Some d" and rec: "parse_hex (16 * acc + d) cs = Some n"
    by (auto split: option.splits)
  have "n < (16 * acc + d + 1) * 16 ^ length cs" using Cons.IH [OF rec] by simp
  also have "\<dots> \<le> ((acc + 1) * 16) * 16 ^ length cs"
    using hexval_less_16 [OF d] by (intro mult_right_mono) auto
  finally show ?case by (simp add: algebra_simps)
qed

section \<open>The default shard of an address\<close>

text \<open>
  \<^verbatim>\<open>Addr2Shard\<close>: the last eight characters as a hexadecimal number, modulo the number of shards.
  Slicing a string shorter than eight bytes, a failed parse and a zero shard number panic;
  \<^verbatim>\<open>%\<close> truncates towards zero.
\<close>

definition Addr2Shard :: "int \<Rightarrow> string \<Rightarrow> int res" where
  "Addr2Shard ShardNum addr =
     (if length addr < 8 then Inl (Panic ''slice bounds out of range'')
      else rbind (opt_or (Panic ''strconv.ParseUint'')
                    (ParseUint16 (drop (length addr - 8) addr)))
             (\<lambda>num. if ShardNum = 0 then Inl (Panic ''integer divide by zero'')
                    else Inr (sint num smod ShardNum)))"

definition valid_addr :: "string \<Rightarrow> bool" where
  "valid_addr addr \<longleftrightarrow>
     8 \<le> length addr \<and> (\<forall>c\<in>set (drop (length addr - 8) addr). is_hex c)"

definition addr_num :: "string \<Rightarrow> nat" where
  "addr_num addr = the (parse_hex 0 (drop (length addr - 8) addr))"

lemma ParseUint16_8:
  assumes "length s = 8" and "\<forall>c\<in>set s. is_hex c"
  shows "\<exists>n. parse_hex 0 s = Some n \<and> n < 2 ^ 32 \<and> ParseUint16 s = Some (of_nat n)"
proof -
  obtain n where n: "parse_hex 0 s = Some n"
    using assms(2) parse_hex_defined by blast
  have b: "n < 2 ^ 32" using parse_hex_bound [OF n] assms(1) by simp
  moreover have "s \<noteq> []" using assms(1) by auto
  moreover have "n < 2 ^ 64" using b by simp
  ultimately show ?thesis using n by (simp add: ParseUint16_def)
qed

lemma ParseUint16_invalid: "\<not> (\<forall>c\<in>set s. is_hex c) \<Longrightarrow> ParseUint16 s = None"
  using parse_hex_defined [of 0 s] by (auto simp: ParseUint16_def split: option.splits)

lemma sint_of_nat_small: "n < 2 ^ 32 \<Longrightarrow> sint (of_nat n :: u64) = int n"
  by (simp add: signed_of_nat signed_take_bit_int_eq_self)

lemma smod_nonneg: "0 \<le> (a::int) \<Longrightarrow> 0 < b \<Longrightarrow> a smod b = a mod b"
  by (cases "a = 0") (simp_all add: signed_modulo_int_def signed_divide_int_def minus_div_mult_eq_mod)

lemma Addr2Shard_eq:
  assumes "0 < ShardNum"
  shows "Addr2Shard ShardNum addr =
    (if valid_addr addr then Inr (int (addr_num addr) mod ShardNum)
     else if length addr < 8 then Inl (Panic ''slice bounds out of range'')
     else Inl (Panic ''strconv.ParseUint''))"
proof (cases "valid_addr addr")
  case True
  then have len: "length (drop (length addr - 8) addr) = 8"
    and hex: "\<forall>c\<in>set (drop (length addr - 8) addr). is_hex c"
    by (auto simp: valid_addr_def)
  from ParseUint16_8 [OF len hex] obtain n where
    "parse_hex 0 (drop (length addr - 8) addr) = Some n" "n < 2 ^ 32"
    "ParseUint16 (drop (length addr - 8) addr) = Some (of_nat n)" by blast
  with True assms show ?thesis
    by (simp add: Addr2Shard_def valid_addr_def addr_num_def sint_of_nat_small smod_nonneg)
next
  case False
  then show ?thesis
    by (auto simp: Addr2Shard_def valid_addr_def ParseUint16_invalid)
qed

lemma Addr2Shard_bounds:
  "0 < ShardNum \<Longrightarrow> Addr2Shard ShardNum addr = Inr k \<Longrightarrow> 0 \<le> k \<and> k < ShardNum"
  by (auto simp: Addr2Shard_eq split: if_splits)

lemma Addr2Shard_total:
  "0 < ShardNum \<Longrightarrow> valid_addr addr \<Longrightarrow> \<exists>k. Addr2Shard ShardNum addr = Inr k"
  by (simp add: Addr2Shard_eq)

text \<open>The default shard assignment. For a positive number of shards, \<^verbatim>\<open>Addr2Shard\<close> returns
  exactly for the addresses whose last eight bytes exist and are hexadecimal digits, and the shard
  it returns is the number they denote modulo the shard count, hence one of the shards.\<close>

theorem Addr2Shard_spec:
  assumes "0 < ShardNum"
  shows "Addr2Shard ShardNum addr = Inr k \<longleftrightarrow>
           valid_addr addr \<and> k = int (addr_num addr) mod ShardNum \<and> 0 \<le> k \<and> k < ShardNum"
  using assms by (auto simp: Addr2Shard_eq)

theorem Addr2Shard_spec_witness:
  "Addr2Shard 4 ''1a2b3c4d5e6f7a8b'' = Inr 3 \<and> Addr2Shard 4 ''short'' \<noteq> Inr 3"
proof -
  have "Addr2Shard 4 ''1a2b3c4d5e6f7a8b'' = Inr 3 \<longleftrightarrow>
      valid_addr ''1a2b3c4d5e6f7a8b'' \<and> 3 = int (addr_num ''1a2b3c4d5e6f7a8b'') mod 4
      \<and> 0 \<le> (3::int) \<and> (3::int) < 4"
    by (rule Addr2Shard_spec) simp
  moreover have "valid_addr ''1a2b3c4d5e6f7a8b''" by (simp add: valid_addr_def hexval_def)
  moreover have "(3::int) = int (addr_num ''1a2b3c4d5e6f7a8b'') mod 4"
    by (simp add: addr_num_def hexval_def)
  moreover have "Addr2Shard 4 ''short'' \<noteq> Inr 3" by (simp add: Addr2Shard_def)
  ultimately show ?thesis by simp
qed

section \<open>Hexadecimal coding of byte strings\<close>

text \<open>\<^verbatim>\<open>hex.EncodeToString\<close> and \<^verbatim>\<open>hex.DecodeString\<close> (odd length and other characters are errors).\<close>

fun hexEncode :: "bytes \<Rightarrow> string" where
  "hexEncode [] = []"
| "hexEncode (c # cs) =
     hexdigit (of_char c div 16) # hexdigit (of_char c mod 16) # hexEncode cs"

fun hexDecode :: "string \<Rightarrow> bytes option" where
  "hexDecode [] = Some []"
| "hexDecode [_] = None"
| "hexDecode (a # b # cs) =
     (case (hexval a, hexval b, hexDecode cs) of
        (Some x, Some y, Some r) \<Rightarrow> Some (char_of (16 * x + y) # r)
      | _ \<Rightarrow> None)"

lemma hexDecode_hexEncode [simp]: "hexDecode (hexEncode b) = Some b"
proof (induction b)
  case Nil
  then show ?case by simp
next
  case (Cons c cs)
  have lt: "(of_char c :: nat) < 256" by simp
  then have "(of_char c :: nat) div 16 < 16" by (simp only: less_mult_imp_div_less)
  moreover have "16 * ((of_char c :: nat) div 16) + of_char c mod 16 = of_char c"
    by (rule mult_div_mod_eq)
  ultimately show ?case using Cons by (simp del: mult_div_mod_eq)
qed

lemma hexEncode_inject [simp]: "hexEncode a = hexEncode b \<longleftrightarrow> a = b"
  by (metis hexDecode_hexEncode option.inject)

end
