(* ===== verification/Chain.thy ===== *)
theory Chain
  imports Storages TxPools Utils
begin

text \<open>
  The blockchain object of a node (\<^verbatim>\<open>src/chain/blockchain.go\<close>): the chain tip, the block store, the
  state trie, the pools and the partition map. \<^verbatim>\<open>triedb\<close> is \<open>None\<close> where the Go pointer is nil.
  \<^verbatim>\<open>time.Now()\<close> is an argument. The printing functions and \<^verbatim>\<open>CloseBlockChain\<close> have no effect on the
  state and are left out.

  Executing a block is related to an abstract ledger, a function from addresses to balances: the
  trie is only a representation of it. The chain invariant says that the tip is stored and that
  its state can be opened.
\<close>

record ('d, 'b) BlockChain =
  db :: 'd
  triedb :: "'d option"
  ChainConfig :: ChainConfig
  CurrentBlock :: Block
  Storage :: "'b Storage"
  Txpool :: TxPool
  UTXOTxpool :: UTXOTxPool
  PartitionMap :: "string \<rightharpoonup> u64"
  UTXOStateRoot :: bytes

abbreviation bc_ShardID :: "('d, 'b) BlockChain \<Rightarrow> u64" where
  "bc_ShardID bc \<equiv> CC_ShardID (ChainConfig bc)"

definition get_triedb :: "('d, 'b) BlockChain \<Rightarrow> 'd res" where
  "get_triedb bc = opt_or (Panic ''nil pointer dereference'') (triedb bc)"

definition open_trie :: "('t, 'd, 'b) env \<Rightarrow> bytes \<Rightarrow> ('d, 'b) BlockChain \<Rightarrow> ('t \<times> 'd) res" where
  "open_trie E root bc =
     rbind (get_triedb bc) (\<lambda>d.
     rbind (opt_or (Panic ''missing trie node'') (T_new E (BytesToHash E root) d)) (\<lambda>st.
     Inr (st, d)))"

section \<open>Transaction roots\<close>

definition GetTxTreeRoot :: "('t, 'd, 'b) env \<Rightarrow> Transaction list \<Rightarrow> bytes" where
  "GetTxTreeRoot E txs =
     T_root E (fold (\<lambda>tx t. T_put E t (Tx_TxHash tx) (GobTx tx)) txs (T_empty E))"

definition GetUTXOTxTreeRoot :: "('t, 'd, 'b) env \<Rightarrow> UTXOTransaction list \<Rightarrow> bytes" where
  "GetUTXOTxTreeRoot E txs =
     T_root E (fold (\<lambda>tx t. T_put E t (U_TxHash tx) (GobUTXOTx tx)) txs (T_empty E))"

section \<open>The partition map\<close>

definition Update_PartitionMap ::
    "string \<Rightarrow> u64 \<Rightarrow> ('d, 'b) BlockChain \<Rightarrow> ('d, 'b) BlockChain" where
  "Update_PartitionMap key val bc = bc\<lparr>PartitionMap := (PartitionMap bc)(key \<mapsto> val)\<rparr>"

definition Get_PartitionMap :: "('t, 'd, 'b) env \<Rightarrow> ('d, 'b) BlockChain \<Rightarrow> string \<Rightarrow> u64 res" where
  "Get_PartitionMap E bc key =
     (case PartitionMap bc key of
        None \<Rightarrow> rbind (Addr2Shard (P_ShardNum E) key) (\<lambda>n. Inr (word_of_int n))
      | Some v \<Rightarrow> Inr v)"

definition SendTx2Pool ::
    "(nat \<Rightarrow> go_time) \<Rightarrow> Transaction list \<Rightarrow> ('d, 'b) BlockChain \<Rightarrow> ('d, 'b) BlockChain" where
  "SendTx2Pool clk txs bc = bc\<lparr>Txpool := AddTxs2Pool clk txs (Txpool bc)\<rparr>"

section \<open>Executing transactions\<close>

text \<open>
  One iteration of the loop of \<^verbatim>\<open>GetUpdateStatusTrie\<close>. A missing account starts with the initial
  balance and the transaction's index as nonce. \<open>None\<close> from \<open>debit\<close> is the \<^verbatim>\<open>continue\<close> taken when
  the balance is too small: the recipient is not credited either.
\<close>

definition load_account :: "('t, 'd, 'b) env \<Rightarrow> 't \<Rightarrow> nat \<Rightarrow> string \<Rightarrow> AccountState res" where
  "load_account E st i addr =
     (case T_get E st addr of
        None \<Rightarrow> Inr (new_AccountState (of_nat i) Init_Balance)
      | Some enc \<Rightarrow> DecodeAS enc)"

definition debit :: "('t, 'd, 'b) env \<Rightarrow> nat \<Rightarrow> Transaction \<Rightarrow> 't \<Rightarrow> 't option res" where
  "debit E i tx st =
     rbind (load_account E st i (Tx_Sender tx)) (\<lambda>s_state.
       if AS_Balance s_state < Tx_Value tx then Inr None
       else Inr (Some (T_put E st (Tx_Sender tx) (GobAS (snd (Deduct s_state (Tx_Value tx)))))))"

definition credit :: "('t, 'd, 'b) env \<Rightarrow> nat \<Rightarrow> Transaction \<Rightarrow> 't \<Rightarrow> 't res" where
  "credit E i tx st =
     rbind (load_account E st i (Tx_Recipient tx)) (\<lambda>r_state.
       Inr (T_put E st (Tx_Recipient tx) (GobAS (Deposit r_state (Tx_Value tx)))))"

definition sender_in :: "('t, 'd, 'b) env \<Rightarrow> ('d, 'b) BlockChain \<Rightarrow> Transaction \<Rightarrow> bool res" where
  "sender_in E bc tx =
     (if Tx_Relayed tx then Inr False
      else rbind (Get_PartitionMap E bc (Tx_Sender tx))
             (\<lambda>s. Inr (s = bc_ShardID bc \<or> Tx_HasBroker tx)))"

definition recipient_in :: "('t, 'd, 'b) env \<Rightarrow> ('d, 'b) BlockChain \<Rightarrow> Transaction \<Rightarrow> bool res" where
  "recipient_in E bc tx =
     rbind (Get_PartitionMap E bc (Tx_Recipient tx))
       (\<lambda>r. Inr (r = bc_ShardID bc \<or> Tx_HasBroker tx))"

definition exec_tx ::
    "('t, 'd, 'b) env \<Rightarrow> ('d, 'b) BlockChain \<Rightarrow> nat \<times> Transaction \<Rightarrow> 't \<times> nat \<Rightarrow> ('t \<times> nat) res" where
  "exec_tx E bc itx sc =
     (let (i, tx) = itx; (st, cnt) = sc in
      rbind (sender_in E bc tx) (\<lambda>s.
      rbind (if s then rbind (debit E i tx st) (\<lambda>ot. Inr (map_option (\<lambda>t. (t, cnt + 1)) ot))
             else Inr (Some (st, cnt))) (\<lambda>ot.
      case ot of
        None \<Rightarrow> Inr (st, cnt)
      | Some (st1, cnt1) \<Rightarrow>
          rbind (recipient_in E bc tx) (\<lambda>r.
          if r then rbind (credit E i tx st1) (\<lambda>t. Inr (t, cnt1 + 1)) else Inr (st1, cnt1)))))"

definition exec_txs ::
    "('t, 'd, 'b) env \<Rightarrow> ('d, 'b) BlockChain \<Rightarrow> Transaction list \<Rightarrow> 't \<Rightarrow> ('t \<times> nat) res" where
  "exec_txs E bc txs st = rfold (exec_tx E bc) (enumerate 0 txs) (st, 0)"

definition GetUpdateStatusTrie ::
    "('t, 'd, 'b) env \<Rightarrow> Transaction list \<Rightarrow> ('d, 'b) BlockChain
      \<Rightarrow> (bytes \<times> ('d, 'b) BlockChain) res" where
  "GetUpdateStatusTrie E txs bc =
     (let root = B_StateRoot (CurrentBlock bc) in
      if txs = [] then Inr (BytesToHash E root, bc)
      else
        rbind (open_trie E root bc) (\<lambda>(st, d).
        rbind (exec_txs E bc txs st) (\<lambda>(st', cnt).
        if cnt = 0 then Inr (BytesToHash E root, bc)
        else rbind (commit_trie E st' d) (\<lambda>(rt, d'). Inr (rt, bc\<lparr>triedb := Some d'\<rparr>)))))"

section \<open>Making, adding and checking blocks\<close>

definition GenerateBlock ::
    "('t, 'd, 'b) env \<Rightarrow> go_time \<Rightarrow> ('d, 'b) BlockChain \<Rightarrow> (Block \<times> ('d, 'b) BlockChain) res" where
  "GenerateBlock E now bc =
     (let bh = \<lparr>BH_ParentBlockHash = B_Hash (CurrentBlock bc), BH_StateRoot = [], BH_TxRoot = [],
                BH_Number = B_Number (CurrentBlock bc) + 1, BH_Time = now, BH_Miner = 0\<rparr> in
      if P_UTXO E then
        (let (txs, pool) = U_PackTxs (CC_BlockSize (ChainConfig bc)) (UTXOTxpool bc);
             bh = bh\<lparr>BH_TxRoot := GetUTXOTxTreeRoot E txs\<rparr>;
             b = NewBlock bh [] txs
         in Inr (b\<lparr>B_Hash := sha_bh E bh\<rparr>, bc\<lparr>UTXOTxpool := pool\<rparr>))
      else
        (let (txs, pool) = PackTxs (CC_BlockSize (ChainConfig bc)) (Txpool bc) in
         rbind (GetUpdateStatusTrie E txs (bc\<lparr>Txpool := pool\<rparr>)) (\<lambda>(rt, bc').
         let bh = bh\<lparr>BH_StateRoot := rt, BH_TxRoot := GetTxTreeRoot E txs\<rparr>;
             b = NewBlock bh txs []
         in Inr (b\<lparr>B_Hash := sha_bh E bh\<rparr>, bc'))))"

definition NewGenisisBlock ::
    "('t, 'd, 'b) env \<Rightarrow> ('d, 'b) BlockChain \<Rightarrow> Block \<times> ('d, 'b) BlockChain" where
  "NewGenisisBlock E bc =
     (let bh = \<lparr>BH_ParentBlockHash = [], BH_StateRoot = [], BH_TxRoot = [], BH_Number = 0,
                BH_Time = 0, BH_Miner = 0\<rparr>;
          bc = bc\<lparr>triedb := Some (T_open E (db bc))\<rparr>;
          root = T_root E (T_empty E) in
      if P_UTXO E then
        (let bh = bh\<lparr>BH_TxRoot := GetUTXOTxTreeRoot E []\<rparr>
         in ((NewBlock bh [] [])\<lparr>B_Hash := sha_bh E bh\<rparr>, bc\<lparr>UTXOStateRoot := root\<rparr>))
      else
        (let bh = bh\<lparr>BH_StateRoot := root, BH_TxRoot := GetTxTreeRoot E []\<rparr>
         in ((NewBlock bh [] [])\<lparr>B_Hash := sha_bh E bh\<rparr>, bc)))"

definition must_be :: "(string + 'a) res \<Rightarrow> 'a res" where
  "must_be r = rbind r (\<lambda>x. case x of Inl e \<Rightarrow> Inl (Panic e) | Inr y \<Rightarrow> Inr y)"

definition AddGenisisBlock ::
    "('t, 'd, 'b) env \<Rightarrow> Block \<Rightarrow> ('d, 'b) BlockChain \<Rightarrow> ('d, 'b) BlockChain res" where
  "AddGenisisBlock E gb bc =
     rbind (Storage_AddBlock E gb (Storage bc)) (\<lambda>s.
     rbind (must_be (GetNewestBlockHash E s)) (\<lambda>newestHash.
     rbind (must_be (GetBlock E newestHash s)) (\<lambda>curb.
     Inr (bc\<lparr>Storage := s, CurrentBlock := curb\<rparr>))))"

text \<open>\<^verbatim>\<open>AddBlock\<close>: a wrong height is reported and ignored; a node re-executes the transactions of a
  block it did not mine (the resulting root is printed, not compared).\<close>

definition AddBlock ::
    "('t, 'd, 'b) env \<Rightarrow> Block \<Rightarrow> ('d, 'b) BlockChain \<Rightarrow> ('d, 'b) BlockChain res" where
  "AddBlock E b bc =
     (if B_Number b \<noteq> B_Number (CurrentBlock bc) + 1 then Inr bc
      else
        rbind (if BH_Miner (B_Header b) \<noteq> CC_NodeID (ChainConfig bc) \<and> \<not> P_UTXO E
               then rbind (GetUpdateStatusTrie E (B_Body b) bc) (\<lambda>(rt, bc'). Inr bc')
               else Inr bc) (\<lambda>bc1.
        rbind (Storage_AddBlock E b (Storage bc1)) (\<lambda>s.
        Inr (bc1\<lparr>CurrentBlock := b, Storage := s\<rparr>))))"

text \<open>\<^verbatim>\<open>NewBlockChain\<close>: \<open>disk\<close> are the buckets of the bolt file, \<open>d\<close> the state database. Until the
  tip is known \<^verbatim>\<open>CurrentBlock\<close> is nil; nothing reads it, and the model holds the zero block there.\<close>

definition zero_Block :: Block where
  "zero_Block =
     NewBlock \<lparr>BH_ParentBlockHash = [], BH_StateRoot = [], BH_TxRoot = [], BH_Number = 0, BH_Time = 0,
               BH_Miner = 0\<rparr> [] []"

definition NewBlockChain ::
    "('t, 'd, 'b) env \<Rightarrow> ChainConfig \<Rightarrow> 'd \<Rightarrow> (string \<Rightarrow> 'b option) \<Rightarrow> ('d, 'b) BlockChain res" where
  "NewBlockChain E cc d disk =
     (let bc = \<lparr>db = d, triedb = None, ChainConfig = cc, CurrentBlock = zero_Block,
                Storage = NewStorage E disk, Txpool = NewTxPool, UTXOTxpool = NewUTXOTxPool,
                PartitionMap = Map.empty, UTXOStateRoot = []\<rparr> in
      rbind (GetNewestBlockHash E (Storage bc)) (\<lambda>h.
      case h of
        Inl e \<Rightarrow>
          if e = ''cannot find the newest block hash'' then
            (let (gb, bc') = NewGenisisBlock E bc in AddGenisisBlock E gb bc')
          else Inl (Panic e)
      | Inr curHash \<Rightarrow>
          rbind (must_be (GetBlock E curHash (Storage bc))) (\<lambda>curb.
          let bc1 = bc\<lparr>CurrentBlock := curb\<rparr> in
          if P_UTXO E then Inr bc1
          else
            let d' = T_open E d in
            rbind (opt_or (Panic ''missing trie node'')
                     (T_new E (BytesToHash E (B_StateRoot curb)) d'))
              (\<lambda>_. Inr (bc1\<lparr>triedb := Some d'\<rparr>)))))"

text \<open>\<open>None\<close> is the nil error.\<close>

definition IsValidBlock :: "('t, 'd, 'b) env \<Rightarrow> Block \<Rightarrow> ('d, 'b) BlockChain \<Rightarrow> string option" where
  "IsValidBlock E b bc =
     (if BH_ParentBlockHash (B_Header b) \<noteq> B_Hash (CurrentBlock bc)
      then Some ''the parentblock hash is not equal to the current block hash''
      else if GetTxTreeRoot E (B_Body b) \<noteq> BH_TxRoot (B_Header b)
      then Some ''the transaction root is wrong''
      else None)"

definition IsValidUTXOBlock :: "('t, 'd, 'b) env \<Rightarrow> Block \<Rightarrow> ('d, 'b) BlockChain \<Rightarrow> string option" where
  "IsValidUTXOBlock E b bc =
     (if BH_ParentBlockHash (B_Header b) \<noteq> B_Hash (CurrentBlock bc)
      then Some ''the parentblock hash is not equal to the current block hash''
      else if GetUTXOTxTreeRoot E (B_UTXO b) \<noteq> BH_TxRoot (B_Header b)
      then Some ''the transaction root is wrong''
      else None)"

section \<open>Moving accounts between shards\<close>

text \<open>\<^verbatim>\<open>AddAccounts\<close>. Note that \<^verbatim>\<open>triedb.Commit\<close> is called with the old root.\<close>

definition add_account ::
    "('t, 'd, 'b) env \<Rightarrow> ('d, 'b) BlockChain \<Rightarrow> AccountState list \<Rightarrow> nat \<times> string \<Rightarrow> 't \<Rightarrow> 't res" where
  "add_account E bc as iaddr st =
     (let (i, addr) = iaddr in
      rbind (Get_PartitionMap E bc addr) (\<lambda>s.
      if s = bc_ShardID bc then
        (if i < length as
         then Inr (T_put E st addr (GobAS (new_AccountState (AS_Nonce (as ! i)) (AS_Balance (as ! i)))))
         else Inl (Panic ''index out of range''))
      else Inr st))"

definition AddAccounts ::
    "('t, 'd, 'b) env \<Rightarrow> string list \<Rightarrow> AccountState list \<Rightarrow> ('d, 'b) BlockChain
      \<Rightarrow> ('d, 'b) BlockChain res" where
  "AddAccounts E ac as bc =
     (let root = B_StateRoot (CurrentBlock bc); rt = BytesToHash E root in
      rbind (if ac = [] then Inr (rt, bc)
             else
               rbind (open_trie E root bc) (\<lambda>(st, d).
               rbind (rfold (add_account E bc as) (enumerate 0 ac) st) (\<lambda>st'.
               rbind (opt_or (Panic ''triedb.Update'') (T_updateDB E d st')) (\<lambda>d1.
               rbind (opt_or (Panic ''triedb.Commit'') (T_commitDB E d1 rt)) (\<lambda>d2.
               Inr (T_root E st', bc\<lparr>triedb := Some d2\<rparr>))))))
        (\<lambda>(rt', bc').
         let bh = \<lparr>BH_ParentBlockHash = B_Hash (CurrentBlock bc), BH_StateRoot = rt',
                   BH_TxRoot = GetTxTreeRoot E [], BH_Number = B_Number (CurrentBlock bc) + 1,
                   BH_Time = 0, BH_Miner = 0\<rparr>;
             b = (NewBlock bh [] [])\<lparr>B_Hash := sha_bh E bh\<rparr>
         in rbind (Storage_AddBlock E b (Storage bc')) (\<lambda>s.
            Inr (bc'\<lparr>CurrentBlock := b, Storage := s\<rparr>))))"

definition FetchAccounts ::
    "('t, 'd, 'b) env \<Rightarrow> string list \<Rightarrow> ('d, 'b) BlockChain \<Rightarrow> AccountState list res" where
  "FetchAccounts E addrs bc =
     rbind (open_trie E (B_StateRoot (CurrentBlock bc)) bc) (\<lambda>(st, d).
     rfold (\<lambda>addr res. rbind (load_account E st 0 addr) (\<lambda>a. Inr (res @ [a]))) addrs [])"

end
