(* ===== verification/Ledger.thy ===== *)
theory Ledger
  imports Chain
begin

text \<open>
  Execution of account transactions against an abstract ledger, and agreement of the nodes of a
  shard on the resulting state.

  The ledger of a shard is a function from addresses to balances (an account that is not in the
  trie has the initial balance). \<open>ledger_tx\<close> says what one transaction does to it; executing a
  block on the trie refines it. From the ledger follow that no balance becomes negative and what
  the total does. The last part shows that a replica that re-executes the leader's block reaches
  the state root of the header.
\<close>

section \<open>The abstract ledger\<close>

type_synonym ledger = "string \<Rightarrow> int"

definition debits :: "(string \<Rightarrow> bool) \<Rightarrow> Transaction \<Rightarrow> bool" where
  "debits home tx \<longleftrightarrow> \<not> Tx_Relayed tx \<and> (home (Tx_Sender tx) \<or> Tx_HasBroker tx)"

definition credits :: "(string \<Rightarrow> bool) \<Rightarrow> Transaction \<Rightarrow> bool" where
  "credits home tx \<longleftrightarrow> home (Tx_Recipient tx) \<or> Tx_HasBroker tx"

definition overdraws :: "(string \<Rightarrow> bool) \<Rightarrow> Transaction \<Rightarrow> ledger \<Rightarrow> bool" where
  "overdraws home tx f \<longleftrightarrow> debits home tx \<and> f (Tx_Sender tx) < Tx_Value tx"

definition ledger_tx :: "(string \<Rightarrow> bool) \<Rightarrow> Transaction \<Rightarrow> ledger \<Rightarrow> ledger" where
  "ledger_tx home tx f =
     (if overdraws home tx f then f
      else
        let f1 = (if debits home tx then f(Tx_Sender tx := f (Tx_Sender tx) - Tx_Value tx) else f)
        in if credits home tx then f1(Tx_Recipient tx := f1 (Tx_Recipient tx) + Tx_Value tx) else f1)"

text \<open>The change of the total made by one transaction and by a block.\<close>

definition delta :: "(string \<Rightarrow> bool) \<Rightarrow> Transaction \<Rightarrow> ledger \<Rightarrow> int" where
  "delta home tx f =
     (if overdraws home tx f then 0
      else (if credits home tx then Tx_Value tx else 0) - (if debits home tx then Tx_Value tx else 0))"

fun net :: "(string \<Rightarrow> bool) \<Rightarrow> Transaction list \<Rightarrow> ledger \<Rightarrow> int" where
  "net home [] f = 0"
| "net home (tx # txs) f = delta home tx f + net home txs (ledger_tx home tx f)"

lemma ledger_tx_nonneg:
  "\<forall>a. 0 \<le> f a \<Longrightarrow> 0 \<le> Tx_Value tx \<Longrightarrow> 0 \<le> ledger_tx home tx f a"
  by (auto simp: ledger_tx_def overdraws_def Let_def)

lemma ledger_nonneg:
  "\<forall>a. 0 \<le> f a \<Longrightarrow> \<forall>tx\<in>set txs. 0 \<le> Tx_Value tx \<Longrightarrow> 0 \<le> fold (ledger_tx home) txs f a"
  by (induction txs arbitrary: f) (auto simp: ledger_tx_nonneg)

lemma sum_fun_upd:
  assumes "finite A" and "a \<in> A"
  shows "sum (f(a := x)) A = sum f A - f a + (x :: int)"
proof -
  have "sum (f(a := x)) A = x + sum (f(a := x)) (A - {a})"
    using sum.remove [OF assms, of "f(a := x)"] by simp
  moreover have "sum (f(a := x)) (A - {a}) = sum f (A - {a})"
    by (rule sum.cong) auto
  ultimately show ?thesis using sum.remove [OF assms, of f] by linarith
qed

lemma ledger_tx_total:
  assumes "finite A" and "Tx_Sender tx \<in> A" and "Tx_Recipient tx \<in> A"
  shows "sum (ledger_tx home tx f) A = sum f A + delta home tx f"
  using assms by (simp add: ledger_tx_def delta_def Let_def sum_fun_upd del: fun_upd_apply)

lemma ledger_total:
  assumes "finite A" and "\<forall>tx\<in>set txs. Tx_Sender tx \<in> A \<and> Tx_Recipient tx \<in> A"
  shows "sum (fold (ledger_tx home) txs f) A = sum f A + net home txs f"
  using assms(2) by (induction txs arbitrary: f) (auto simp: ledger_tx_total [OF assms(1)])

lemma net_local:
  "\<forall>tx\<in>set txs. debits home tx \<and> credits home tx \<Longrightarrow> net home txs f = 0"
  by (induction txs arbitrary: f) (auto simp: delta_def)

section \<open>Execution on the trie refines the ledger\<close>

definition bal :: "('t, 'd, 'b) env \<Rightarrow> 't \<Rightarrow> ledger" where
  "bal E st a = (case T_get E st a of Some (GobAS s) \<Rightarrow> AS_Balance s | _ \<Rightarrow> Init_Balance)"

definition wf_state :: "('t, 'd, 'b) env \<Rightarrow> 't \<Rightarrow> bool" where
  "wf_state E st \<longleftrightarrow> (\<forall>k g. T_get E st k = Some g \<longrightarrow> (\<exists>s. g = GobAS s))"

definition home :: "('t, 'd, 'b) env \<Rightarrow> ('d, 'b) BlockChain \<Rightarrow> string \<Rightarrow> bool" where
  "home E bc a \<longleftrightarrow> Get_PartitionMap E bc a = Inr (bc_ShardID bc)"

definition routable :: "('t, 'd, 'b) env \<Rightarrow> ('d, 'b) BlockChain \<Rightarrow> string \<Rightarrow> bool" where
  "routable E bc a \<longleftrightarrow> (\<exists>s. Get_PartitionMap E bc a = Inr s)"

lemma routable_iff:
  "0 < P_ShardNum E \<Longrightarrow> routable E bc a \<longleftrightarrow> PartitionMap bc a \<noteq> None \<or> valid_addr a"
  by (auto simp: routable_def Get_PartitionMap_def Addr2Shard_eq split: option.splits)

lemma load_account_ok:
  "wf_state E st \<Longrightarrow> \<exists>s. load_account E st i a = Inr s \<and> AS_Balance s = bal E st a"
  by (cases "T_get E st a") (fastforce simp: load_account_def bal_def wf_state_def)+

lemma wf_state_put: "trie_laws E \<Longrightarrow> wf_state E st \<Longrightarrow> wf_state E (T_put E st k (GobAS s))"
  by (simp add: wf_state_def env_simps)

lemma bal_put:
  "trie_laws E \<Longrightarrow> bal E (T_put E st k (GobAS s)) = (bal E st)(k := AS_Balance s)"
  by (simp add: bal_def env_simps fun_eq_iff)

lemma debit_ok:
  assumes "trie_laws E" and "wf_state E st"
  shows "if bal E st (Tx_Sender tx) < Tx_Value tx then debit E i tx st = Inr None
         else \<exists>st'. debit E i tx st = Inr (Some st') \<and> wf_state E st' \<and>
                bal E st' = (bal E st)(Tx_Sender tx := bal E st (Tx_Sender tx) - Tx_Value tx)"
  using load_account_ok [OF assms(2), of i "Tx_Sender tx"] assms
  by (auto simp: debit_def wf_state_put bal_put Deduct_balance)

lemma credit_ok:
  assumes "trie_laws E" and "wf_state E st"
  shows "\<exists>st'. credit E i tx st = Inr st' \<and> wf_state E st' \<and>
           bal E st' = (bal E st)(Tx_Recipient tx := bal E st (Tx_Recipient tx) + Tx_Value tx)"
  using load_account_ok [OF assms(2), of i "Tx_Recipient tx"] assms
  by (auto simp: credit_def wf_state_put bal_put)

lemma sender_in_ok: "routable E bc (Tx_Sender tx) \<Longrightarrow> sender_in E bc tx = Inr (debits (home E bc) tx)"
  by (auto simp: sender_in_def routable_def debits_def home_def)

lemma recipient_in_ok:
  "routable E bc (Tx_Recipient tx) \<Longrightarrow> recipient_in E bc tx = Inr (credits (home E bc) tx)"
  by (auto simp: recipient_in_def routable_def credits_def home_def)

lemma exec_tx_refines:
  assumes "trie_laws E" and "wf_state E st"
    and "routable E bc (Tx_Sender tx)" and "routable E bc (Tx_Recipient tx)"
  shows "\<exists>st' cnt'. exec_tx E bc (i, tx) (st, cnt) = Inr (st', cnt') \<and> wf_state E st' \<and>
           bal E st' = ledger_tx (home E bc) tx (bal E st)"
proof -
  note in_ok = sender_in_ok [OF assms(3)] recipient_in_ok [OF assms(4)]
  consider (over) "overdraws (home E bc) tx (bal E st)"
    | (paid) "\<not> overdraws (home E bc) tx (bal E st)" "debits (home E bc) tx"
    | (not_here) "\<not> debits (home E bc) tx" by blast
  then show ?thesis
  proof cases
    case over
    then show ?thesis using debit_ok [OF assms(1,2), of tx i] assms(2) in_ok
      by (auto simp: exec_tx_def overdraws_def ledger_tx_def)
  next
    case paid
    then obtain st1 where st1: "debit E i tx st = Inr (Some st1)" "wf_state E st1"
      "bal E st1 = (bal E st)(Tx_Sender tx := bal E st (Tx_Sender tx) - Tx_Value tx)"
      using debit_ok [OF assms(1,2), of tx i] by (auto simp: overdraws_def split: if_splits)
    from credit_ok [OF assms(1) st1(2), of i tx] st1 paid in_ok show ?thesis
      by (auto simp: exec_tx_def ledger_tx_def Let_def)
  next
    case not_here
    then show ?thesis using credit_ok [OF assms(1,2), of i tx] assms(2) in_ok
      by (auto simp: exec_tx_def ledger_tx_def overdraws_def Let_def)
  qed
qed

lemma exec_rfold_refines:
  assumes "trie_laws E"
    and "\<forall>tx\<in>set txs. routable E bc (Tx_Sender tx) \<and> routable E bc (Tx_Recipient tx)"
    and "wf_state E st"
  shows "\<exists>st' cnt'. rfold (exec_tx E bc) (enumerate i txs) (st, cnt) = Inr (st', cnt') \<and>
           wf_state E st' \<and> bal E st' = fold (ledger_tx (home E bc)) txs (bal E st)"
  using assms(2,3)
proof (induction txs arbitrary: i st cnt)
  case Nil
  then show ?case by simp
next
  case (Cons tx txs)
  then obtain st1 c1 where s1: "exec_tx E bc (i, tx) (st, cnt) = Inr (st1, c1)" "wf_state E st1"
    "bal E st1 = ledger_tx (home E bc) tx (bal E st)"
    using exec_tx_refines [OF assms(1), of st bc tx i cnt] by auto
  with Cons.IH [of st1 "Suc i" c1] Cons.prems show ?case by auto
qed

text \<open>The loop writes nothing when it counts nothing, so returning the old root is right.\<close>

lemma exec_tx_count:
  "exec_tx E bc x (st, cnt) = Inr (st', cnt') \<Longrightarrow> cnt \<le> cnt' \<and> (cnt' = cnt \<longrightarrow> st' = st)"
  by (cases x) (auto simp: exec_tx_def res_simps split: if_splits option.splits)

lemma exec_rfold_count:
  "rfold (exec_tx E bc) xs (st, cnt) = Inr (st', cnt') \<Longrightarrow>
     cnt \<le> cnt' \<and> (cnt' = cnt \<longrightarrow> st' = st)"
proof (induction xs arbitrary: st cnt)
  case Nil
  then show ?case by simp
next
  case (Cons x xs)
  then obtain st1 c1 where s1: "exec_tx E bc x (st, cnt) = Inr (st1, c1)"
    and r1: "rfold (exec_tx E bc) xs (st1, c1) = Inr (st', cnt')" by (auto simp: res_simps)
  from exec_tx_count [OF s1] Cons.IH [OF r1] show ?case by auto
qed

text \<open>\<open>opens\<close>: the state with this root can be opened on the node, and is this trie.\<close>

definition opens :: "('t, 'd, 'b) env \<Rightarrow> ('d, 'b) BlockChain \<Rightarrow> bytes \<Rightarrow> 't \<Rightarrow> bool" where
  "opens E bc root st \<longleftrightarrow> (\<exists>d. triedb bc = Some d \<and> T_new E (BytesToHash E root) d = Some st)"

lemma open_trie_ok: "opens E bc root st \<Longrightarrow> \<exists>d. triedb bc = Some d \<and> open_trie E root bc = Inr (st, d)"
  by (auto simp: opens_def open_trie_def get_triedb_def)

lemma open_trie_D: "open_trie E root bc = Inr (st, d) \<Longrightarrow> opens E bc root st \<and> triedb bc = Some d"
  by (auto simp: opens_def open_trie_def get_triedb_def res_simps)

lemma opens_rehash [simp]:
  "trie_laws E \<Longrightarrow> opens E bc (BytesToHash E r) st = opens E bc r st"
  by (simp add: opens_def env_simps)

lemma GetUpdateStatusTrie_refines:
  assumes "trie_laws E" and "opens E bc (B_StateRoot (CurrentBlock bc)) st" and "wf_state E st"
    and "\<forall>tx\<in>set txs. routable E bc (Tx_Sender tx) \<and> routable E bc (Tx_Recipient tx)"
  shows "\<exists>rt bc' st'. GetUpdateStatusTrie E txs bc = Inr (rt, bc') \<and> opens E bc' rt st' \<and>
           wf_state E st' \<and> bal E st' = fold (ledger_tx (home E bc)) txs (bal E st)"
proof (cases "txs = []")
  case True
  with assms show ?thesis by (auto simp: GetUpdateStatusTrie_def)
next
  case False
  let ?r = "B_StateRoot (CurrentBlock bc)"
  obtain d where d: "triedb bc = Some d" "open_trie E ?r bc = Inr (st, d)"
    using open_trie_ok [OF assms(2)] by blast
  obtain st' cnt where ex: "exec_txs E bc txs st = Inr (st', cnt)" and st': "wf_state E st'"
    "bal E st' = fold (ledger_tx (home E bc)) txs (bal E st)"
    using exec_rfold_refines [OF assms(1,4,3), of 0 0] by (auto simp: exec_txs_def)
  show ?thesis
  proof (cases "cnt = 0")
    case True
    with ex exec_rfold_count have "st' = st" by (fastforce simp: exec_txs_def)
    with True ex d False assms st' show ?thesis by (auto simp: GetUpdateStatusTrie_def)
  next
    case cnt: False
    obtain d' t' where cm: "commit_trie E st' d = Inr (T_root E st', d')"
      "T_new E (T_root E st') d' = Some t'" "T_get E t' = T_get E st'"
      using commit_trie_ok [OF assms(1), of st' d] by blast
    have "GetUpdateStatusTrie E txs bc = Inr (T_root E st', bc\<lparr>triedb := Some d'\<rparr>)"
      using False d ex cnt cm by (simp add: GetUpdateStatusTrie_def)
    moreover have "opens E (bc\<lparr>triedb := Some d'\<rparr>) (T_root E st') t'"
      using cm(2) assms(1) by (simp add: opens_def env_simps)
    moreover have "wf_state E t'" "bal E t' = bal E st'"
      using cm(3) st'(1) by (auto simp: wf_state_def bal_def fun_eq_iff)
    ultimately show ?thesis using st'(2) by auto
  qed
qed

section \<open>Replicas agree\<close>

text \<open>
  \<open>same_view\<close>: two nodes of a shard have the same tip (its number, hash and state root), the same
  partition map, and the state of the tip has the same contents on both.
\<close>

definition same_view ::
    "('t, 'd, 'b) env \<Rightarrow> ('d, 'b) BlockChain \<Rightarrow> ('d, 'b) BlockChain \<Rightarrow> bool" where
  "same_view E a b \<longleftrightarrow>
     PartitionMap a = PartitionMap b \<and> bc_ShardID a = bc_ShardID b \<and>
     B_Number (CurrentBlock a) = B_Number (CurrentBlock b) \<and>
     B_Hash (CurrentBlock a) = B_Hash (CurrentBlock b) \<and>
     B_StateRoot (CurrentBlock a) = B_StateRoot (CurrentBlock b) \<and>
     (\<exists>s t. opens E a (B_StateRoot (CurrentBlock a)) s \<and>
            opens E b (B_StateRoot (CurrentBlock b)) t \<and> T_get E s = T_get E t)"

lemma T_get_put_fun: "trie_laws E \<Longrightarrow> T_get E (T_put E t k v) = (T_get E t)(k \<mapsto> v)"
  by (simp add: fun_eq_iff env_simps)

lemma route_cong:
  assumes "PartitionMap a = PartitionMap b" and "bc_ShardID a = bc_ShardID b"
  shows "sender_in E a tx = sender_in E b tx" and "recipient_in E a tx = recipient_in E b tx"
  using assms by (simp_all add: sender_in_def recipient_in_def Get_PartitionMap_def)

lemma load_account_cong: "T_get E s = T_get E t \<Longrightarrow> load_account E s i x = load_account E t i x"
  by (simp add: load_account_def)

lemma debit_cong:
  assumes "trie_laws E" and "T_get E s = T_get E t" and "debit E i tx s = Inr r"
  shows "\<exists>r'. debit E i tx t = Inr r' \<and> map_option (T_get E) r = map_option (T_get E) r'"
proof -
  obtain a where a: "load_account E s i (Tx_Sender tx) = Inr a"
    using assms(3) by (auto simp: debit_def res_simps)
  then have "load_account E t i (Tx_Sender tx) = Inr a"
    by (simp only: load_account_cong [OF assms(2)])
  with a assms(3) show ?thesis
    by (cases "AS_Balance a < Tx_Value tx")
       (auto simp: debit_def T_get_put_fun [OF assms(1)] assms(2))
qed

lemma credit_cong:
  assumes "trie_laws E" and "T_get E s = T_get E t" and "credit E i tx s = Inr r"
  shows "\<exists>r'. credit E i tx t = Inr r' \<and> T_get E r = T_get E r'"
proof -
  obtain a where a: "load_account E s i (Tx_Recipient tx) = Inr a"
    using assms(3) by (auto simp: credit_def res_simps)
  then have "load_account E t i (Tx_Recipient tx) = Inr a"
    by (simp only: load_account_cong [OF assms(2)])
  with a assms(3) show ?thesis
    by (auto simp: credit_def T_get_put_fun [OF assms(1)] assms(2))
qed

text \<open>The two halves of an iteration, so that each is shown to depend on the contents only.\<close>

definition exec_credit ::
    "('t, 'd, 'b) env \<Rightarrow> ('d, 'b) BlockChain \<Rightarrow> nat \<Rightarrow> Transaction \<Rightarrow> 't \<times> nat \<Rightarrow> ('t \<times> nat) res" where
  "exec_credit E bc i tx = (\<lambda>(st1, cnt1).
     rbind (recipient_in E bc tx) (\<lambda>r.
     if r then rbind (credit E i tx st1) (\<lambda>t. Inr (t, cnt1 + 1)) else Inr (st1, cnt1)))"

lemma exec_tx_split:
  "exec_tx E bc (i, tx) (st, cnt) =
     rbind (sender_in E bc tx) (\<lambda>s.
     if s then rbind (debit E i tx st)
            (\<lambda>r. case r of None \<Rightarrow> Inr (st, cnt) | Some t \<Rightarrow> exec_credit E bc i tx (t, cnt + 1))
     else exec_credit E bc i tx (st, cnt))"
  by (simp add: exec_tx_def exec_credit_def rbind_assoc option.case_eq_if option.map_sel
      if_distrib [of "\<lambda>r. rbind r _"] cong: if_cong)

lemma exec_credit_cong:
  assumes "trie_laws E" and "PartitionMap a = PartitionMap b" and "bc_ShardID a = bc_ShardID b"
    and "T_get E s = T_get E t" and "exec_credit E a i tx (s, c) = Inr (s', n)"
  shows "\<exists>t'. exec_credit E b i tx (t, c) = Inr (t', n) \<and> T_get E s' = T_get E t'"
proof -
  obtain q where q: "recipient_in E a tx = Inr q"
    using assms(5) by (auto simp: exec_credit_def res_simps)
  then have qb: "recipient_in E b tx = Inr q" by (simp only: route_cong(2) [OF assms(2,3)])
  show ?thesis
  proof (cases q)
    case True
    then have "credit E i tx s = Inr s'" and n: "n = c + 1"
      using assms(5) q by (auto simp: exec_credit_def res_simps)
    from credit_cong [OF assms(1,4) this(1)] n True qb show ?thesis
      by (auto simp: exec_credit_def)
  next
    case False
    with assms(4,5) q qb show ?thesis by (simp add: exec_credit_def)
  qed
qed

lemma exec_tx_cong:
  assumes "trie_laws E" and "PartitionMap a = PartitionMap b" and "bc_ShardID a = bc_ShardID b"
    and "T_get E s = T_get E t" and "exec_tx E a x (s, c) = Inr (s', n)"
  shows "\<exists>t'. exec_tx E b x (t, c) = Inr (t', n) \<and> T_get E s' = T_get E t'"
proof -
  note cc = exec_credit_cong [OF assms(1-3)]
  obtain i tx where x: "x = (i, tx)" by (cases x)
  obtain q where q: "sender_in E a tx = Inr q"
    using assms(5) x by (auto simp: exec_tx_split res_simps)
  then have qb: "sender_in E b tx = Inr q" by (simp only: route_cong(1) [OF assms(2,3)])
  show ?thesis
  proof (cases q)
    case True
    then obtain r where r: "debit E i tx s = Inr r"
      using assms(5) x q by (auto simp: exec_tx_split res_simps)
    from debit_cong [OF assms(1,4) r] obtain r' where r': "debit E i tx t = Inr r'"
      "map_option (T_get E) r = map_option (T_get E) r'" by blast
    show ?thesis
    proof (cases r)
      case None
      with assms(4,5) x q qb True r r' show ?thesis by (simp add: exec_tx_split)
    next
      case (Some s1)
      with r'(2) obtain t1 where t1: "r' = Some t1" "T_get E s1 = T_get E t1" by (cases r') auto
      have "exec_credit E a i tx (s1, c + 1) = Inr (s', n)"
        using assms(5) x q True r Some by (simp add: exec_tx_split)
      from cc [OF t1(2) this] x qb True r'(1) t1(1) show ?thesis by (simp add: exec_tx_split)
    qed
  next
    case False
    then have "exec_credit E a i tx (s, c) = Inr (s', n)"
      using assms(5) x q by (simp add: exec_tx_split)
    from cc [OF assms(4) this] x qb False show ?thesis by (simp add: exec_tx_split)
  qed
qed

lemma exec_rfold_cong:
  assumes "trie_laws E" and "PartitionMap a = PartitionMap b" and "bc_ShardID a = bc_ShardID b"
    and "T_get E s = T_get E t" and "rfold (exec_tx E a) xs (s, c) = Inr (s', n)"
  shows "\<exists>t'. rfold (exec_tx E b) xs (t, c) = Inr (t', n) \<and> T_get E s' = T_get E t'"
  using assms(4,5)
proof (induction xs arbitrary: s t c)
  case Nil
  then show ?case by simp
next
  case (Cons x xs)
  from Cons.prems(2) obtain s1 c1 where s1: "exec_tx E a x (s, c) = Inr (s1, c1)"
    and r1: "rfold (exec_tx E a) xs (s1, c1) = Inr (s', n)" by (auto simp: res_simps)
  obtain t1 where "exec_tx E b x (t, c) = Inr (t1, c1)" and "T_get E s1 = T_get E t1"
    using exec_tx_cong [OF assms(1-3) Cons.prems(1) s1] by blast
  with Cons.IH [OF _ r1, of t1] show ?case by auto
qed

lemma GetUpdateStatusTrie_agree:
  assumes "trie_laws E" and "same_view E a b"
    and "GetUpdateStatusTrie E txs a = Inr (rt, a')"
  shows "\<exists>d e s t. a' = a\<lparr>triedb := d\<rparr> \<and> GetUpdateStatusTrie E txs b = Inr (rt, b\<lparr>triedb := e\<rparr>) \<and>
           opens E a' rt s \<and> opens E (b\<lparr>triedb := e\<rparr>) rt t \<and> T_get E s = T_get E t"
proof -
  let ?r = "B_StateRoot (CurrentBlock a)"
  have r: "B_StateRoot (CurrentBlock b) = ?r"
    and pm: "PartitionMap a = PartitionMap b" "bc_ShardID a = bc_ShardID b"
    using assms(2) by (simp_all add: same_view_def)
  obtain s t where st: "opens E a ?r s" "opens E b ?r t" "T_get E s = T_get E t"
    using assms(2) r by (auto simp: same_view_def)
  have upd: "a\<lparr>triedb := triedb a\<rparr> = a" "b\<lparr>triedb := triedb b\<rparr> = b" by simp_all
  obtain da db' where o: "triedb a = Some da" "open_trie E ?r a = Inr (s, da)"
    "triedb b = Some db'" "open_trie E ?r b = Inr (t, db')"
    using open_trie_ok st by meson
  show ?thesis
  proof (cases "txs = []")
    case True
    then have a': "rt = BytesToHash E ?r" "a' = a"
      using assms(3) by (auto simp: GetUpdateStatusTrie_def)
    have gb: "GetUpdateStatusTrie E txs b = Inr (BytesToHash E ?r, b)"
      using True r by (simp add: GetUpdateStatusTrie_def)
    show ?thesis using a' gb st upd assms(1) by (metis opens_rehash)
  next
    case False
    then obtain s' n where ex: "exec_txs E a txs s = Inr (s', n)"
      using assms(3) o by (auto simp: GetUpdateStatusTrie_def res_simps)
    then obtain t' where ext: "exec_txs E b txs t = Inr (t', n)" "T_get E s' = T_get E t'"
      using exec_rfold_cong [OF assms(1) pm st(3)] by (fastforce simp: exec_txs_def)
    show ?thesis
    proof (cases "n = 0")
      case True
      then have a': "rt = BytesToHash E ?r" "a' = a"
        using assms(3) False o ex by (auto simp: GetUpdateStatusTrie_def)
      have gb: "GetUpdateStatusTrie E txs b = Inr (BytesToHash E ?r, b)"
        using True False o ext r by (simp add: GetUpdateStatusTrie_def)
      show ?thesis using a' gb st upd assms(1) by (metis opens_rehash)
    next
      case n: False
      have root: "T_root E s' = T_root E t'" by (rule trie_root_cong [OF assms(1) ext(2)])
      obtain d1 s1 where ca: "commit_trie E s' da = Inr (T_root E s', d1)"
        "T_new E (T_root E s') d1 = Some s1" "T_get E s1 = T_get E s'"
        using commit_trie_ok [OF assms(1)] by blast
      obtain d2 t1 where cb: "commit_trie E t' db' = Inr (T_root E t', d2)"
        "T_new E (T_root E t') d2 = Some t1" "T_get E t1 = T_get E t'"
        using commit_trie_ok [OF assms(1)] by blast
      have "rt = T_root E s'" and a': "a' = a\<lparr>triedb := Some d1\<rparr>"
        using assms(3) False o ex n ca by (auto simp: GetUpdateStatusTrie_def)
      moreover have "GetUpdateStatusTrie E txs b = Inr (T_root E s', b\<lparr>triedb := Some d2\<rparr>)"
        using False o ext n cb r root by (simp add: GetUpdateStatusTrie_def)
      moreover have "opens E (a\<lparr>triedb := Some d1\<rparr>) (T_root E s') s1"
        "opens E (b\<lparr>triedb := Some d2\<rparr>) (T_root E s') t1"
        using ca(2) cb(2) root assms(1) by (simp_all add: opens_def env_simps)
      ultimately show ?thesis using ca(3) cb(3) ext(2) by metis
    qed
  qed
qed

lemma GenerateBlock_account:
  assumes "\<not> P_UTXO E" and "GenerateBlock E now bc = Inr (b, bc')"
  shows "\<exists>txs pool rt. PackTxs (CC_BlockSize (ChainConfig bc)) (Txpool bc) = (txs, pool) \<and>
           GetUpdateStatusTrie E txs (bc\<lparr>Txpool := pool\<rparr>) = Inr (rt, bc') \<and>
           B_Body b = txs \<and> B_StateRoot b = rt \<and> BH_TxRoot (B_Header b) = GetTxTreeRoot E txs \<and>
           BH_ParentBlockHash (B_Header b) = B_Hash (CurrentBlock bc) \<and>
           B_Number b = B_Number (CurrentBlock bc) + 1 \<and> BH_Miner (B_Header b) = 0 \<and>
           B_Hash b = sha_bh E (B_Header b)"
  using assms by (auto simp: GenerateBlock_def NewBlock_def res_simps Let_def split: prod.splits)

lemma Storage_ok: "bolt_laws E \<Longrightarrow> B_Hash b \<noteq> [] \<Longrightarrow> \<exists>s. Storage_AddBlock E b st = Inr s"
  using Storage_AddBlock_ok by blast

lemma round_agreement_aux:
  assumes laws: "trie_laws E" "bolt_laws E" and mode: "\<not> P_UTXO E" and view: "same_view E L F"
    and ids: "CC_NodeID (ChainConfig L) = 0" "CC_NodeID (ChainConfig F) \<noteq> 0"
    and gen: "GenerateBlock E now L = Inr (b, L1)" and hash: "B_Hash b \<noteq> []"
  shows "IsValidBlock E b F = None \<and>
         (\<exists>L2 F2. AddBlock E b L1 = Inr L2 \<and> AddBlock E b F = Inr F2 \<and>
            CurrentBlock L2 = b \<and> CurrentBlock F2 = b \<and> same_view E L2 F2)"
proof -
  obtain txs pool rt where g: "GetUpdateStatusTrie E txs (L\<lparr>Txpool := pool\<rparr>) = Inr (rt, L1)"
    "B_Body b = txs" "B_StateRoot b = rt" "BH_TxRoot (B_Header b) = GetTxTreeRoot E txs"
    "BH_ParentBlockHash (B_Header b) = B_Hash (CurrentBlock L)"
    "B_Number b = B_Number (CurrentBlock L) + 1" "BH_Miner (B_Header b) = 0"
    using GenerateBlock_account [OF mode gen] by blast
  have view': "same_view E (L\<lparr>Txpool := pool\<rparr>) F"
    using view by (auto simp: same_view_def opens_def)
  from GetUpdateStatusTrie_agree [OF laws(1) view' g(1)] obtain d e s t where
    u: "L1 = L\<lparr>Txpool := pool, triedb := d\<rparr>"
      "GetUpdateStatusTrie E txs F = Inr (rt, F\<lparr>triedb := e\<rparr>)"
      "opens E L1 rt s" "opens E (F\<lparr>triedb := e\<rparr>) rt t" "T_get E s = T_get E t" by blast
  obtain sl where sl: "Storage_AddBlock E b (Storage L) = Inr sl"
    using Storage_ok [OF laws(2) hash] by blast
  obtain sf where sf: "Storage_AddBlock E b (Storage F) = Inr sf"
    using Storage_ok [OF laws(2) hash] by blast
  have al: "AddBlock E b L1 = Inr (L1\<lparr>CurrentBlock := b, Storage := sl\<rparr>)"
    using u(1) g(6,7) ids(1) sl by (simp add: AddBlock_def)
  have af: "AddBlock E b F = Inr (F\<lparr>triedb := e, CurrentBlock := b, Storage := sf\<rparr>)"
    using u(2) g(2,6,7) ids(2) sf view mode by (simp add: AddBlock_def same_view_def)
  have "same_view E (L1\<lparr>CurrentBlock := b, Storage := sl\<rparr>)
          (F\<lparr>triedb := e, CurrentBlock := b, Storage := sf\<rparr>)"
    using view u g(3) by (auto simp: same_view_def opens_def)
  moreover have "IsValidBlock E b F = None"
    using g(2,4,5) view by (simp add: IsValidBlock_def same_view_def)
  ultimately show ?thesis using al af by auto
qed

section \<open>A concrete chain\<close>

text \<open>
  A node of shard 0 of two, at its genesis block, with the given transactions pooled. Addresses
  ending in an even digit are in shard 0.
\<close>

definition demo_genesis :: Block where
  "demo_genesis =
     \<lparr>B_Header = \<lparr>BH_ParentBlockHash = [], BH_StateRoot = ''e'', BH_TxRoot = ''e'', BH_Number = 0,
                  BH_Time = 0, BH_Miner = 0\<rparr>,
      B_Body = [], B_UTXO = [], B_Hash = ''h0''\<rparr>"

definition demo_chain :: "u64 \<Rightarrow> Transaction list \<Rightarrow> (bytes \<rightharpoonup> demo_trie, demo_trie) BlockChain" where
  "demo_chain nid txs =
     \<lparr>db = Map.empty, triedb = Some Map.empty,
      ChainConfig = \<lparr>CC_ChainID = 0, CC_NodeID = nid, CC_ShardID = 0, CC_Nodes_perShard = 4, CC_ShardNums = 2,
        CC_BlockSize = 10, CC_BlockInterval = 1, CC_InjectSpeed = 1,
        CC_MaxRelayBlockSize = 10\<rparr>,
      CurrentBlock = demo_genesis, Storage = NewStorage (demo_env False 2) (\<lambda>_. None),
      Txpool = NewTxPool\<lparr>TxQueue := txs\<rparr>, UTXOTxpool = NewUTXOTxPool,
      PartitionMap = Map.empty, UTXOStateRoot = []\<rparr>"

definition demo_pay :: "string \<Rightarrow> string \<Rightarrow> int \<Rightarrow> Transaction" where
  "demo_pay s r v = NewTransaction (sha_tx (demo_env False 2)) s r v 0"

lemma demo_opens: "opens (demo_env False 2) (demo_chain n txs) (B_StateRoot demo_genesis) []"
  by (simp add: opens_def demo_chain_def demo_env_def demo_genesis_def)

lemma demo_wf: "wf_state (demo_env False 2) []"
  by (simp add: wf_state_def demo_env_def)

lemma demo_routable:
  "routable (demo_env False 2) (demo_chain n txs) ''00000000''"
  "routable (demo_env False 2) (demo_chain n txs) ''00000001''"
  "routable (demo_env False 2) (demo_chain n txs) ''00000002''"
  by (simp_all add: routable_iff demo_env_def demo_chain_def valid_addr_def hexval_def)

lemma demo_same_view: "same_view (demo_env False 2) (demo_chain n txs) (demo_chain m txs')"
  unfolding same_view_def
  using demo_opens [of n txs] demo_opens [of m txs'] by (auto simp: demo_chain_def)

end
