(* ===== verification/ChainInv.thy ===== *)
theory ChainInv
  imports Ledger
begin

text \<open>
  Properties of the blockchain object: execution of a block, the life of the chain as a step
  relation with its invariant, recovery of the tip after a restart, and the transfer of account
  states.
\<close>

section \<open>Execution of a block\<close>



text \<open>C11: no balance becomes negative. When all balances of the state are non-negative and so are the
  values of the transactions, the state after the block has no negative balance.\<close>

theorem balances_stay_nonnegative:
  assumes "trie_laws E" and "opens E bc (B_StateRoot (CurrentBlock bc)) st" and "wf_state E st"
    and "\<forall>tx\<in>set txs. routable E bc (Tx_Sender tx) \<and> routable E bc (Tx_Recipient tx)"
    and "\<forall>a. 0 \<le> bal E st a" and "\<forall>tx\<in>set txs. 0 \<le> Tx_Value tx"
  shows "\<exists>rt bc' st'. GetUpdateStatusTrie E txs bc = Inr (rt, bc') \<and> opens E bc' rt st' \<and>
           (\<forall>a. 0 \<le> bal E st' a)"
proof -
  have "0 \<le> fold (ledger_tx (home E bc)) txs (bal E st) a" for a
    by (rule ledger_nonneg [OF assms(5,6)])
  with GetUpdateStatusTrie_refines [OF assms(1-4)] show ?thesis by fastforce
qed

theorem balances_stay_nonnegative_witness:
  "\<exists>rt bc' st'.
     GetUpdateStatusTrie (demo_env False 2) [demo_pay ''00000000'' ''00000002'' 5] (demo_chain 0 [])
       = Inr (rt, bc') \<and>
     opens (demo_env False 2) bc' rt st' \<and> (\<forall>a. 0 \<le> bal (demo_env False 2) st' a)"
proof (rule balances_stay_nonnegative [OF demo_trie_laws _ demo_wf])
  show "opens (demo_env False 2) (demo_chain 0 [])
      (B_StateRoot (CurrentBlock (demo_chain 0 []))) []"
    using demo_opens [of 0 "[]"] by (simp add: demo_chain_def)
  show "\<forall>tx\<in>set [demo_pay ''00000000'' ''00000002'' 5].
      routable (demo_env False 2) (demo_chain 0 []) (Tx_Sender tx) \<and>
      routable (demo_env False 2) (demo_chain 0 []) (Tx_Recipient tx)"
    using demo_routable by (simp add: demo_pay_def NewTransaction_def)
qed (simp_all add: bal_def demo_env_def Init_Balance_def demo_pay_def NewTransaction_def)

text \<open>C12: the total of a shard changes only by what crosses its border. Over any finite set of
  addresses that contains the parties of the block, the sum of the balances changes by the values
  credited here minus the values debited here (\<open>net\<close>), and not at all by a block all of whose
  transactions are debited and credited in this shard.\<close>

theorem block_changes_total_by_net:
  assumes "trie_laws E" and "opens E bc (B_StateRoot (CurrentBlock bc)) st" and "wf_state E st"
    and "\<forall>tx\<in>set txs. routable E bc (Tx_Sender tx) \<and> routable E bc (Tx_Recipient tx)"
    and "finite A" and "\<forall>tx\<in>set txs. Tx_Sender tx \<in> A \<and> Tx_Recipient tx \<in> A"
  shows "\<exists>rt bc' st'. GetUpdateStatusTrie E txs bc = Inr (rt, bc') \<and> opens E bc' rt st' \<and>
           sum (bal E st') A = sum (bal E st) A + net (home E bc) txs (bal E st) \<and>
           ((\<forall>tx\<in>set txs. debits (home E bc) tx \<and> credits (home E bc) tx) \<longrightarrow>
              sum (bal E st') A = sum (bal E st) A)"
proof -
  obtain rt bc' st' where "GetUpdateStatusTrie E txs bc = Inr (rt, bc')" "opens E bc' rt st'"
    and b: "bal E st' = fold (ledger_tx (home E bc)) txs (bal E st)"
    using GetUpdateStatusTrie_refines [OF assms(1-4)] by blast
  moreover have "sum (bal E st') A = sum (bal E st) A + net (home E bc) txs (bal E st)"
    unfolding b by (rule ledger_total [OF assms(5,6)])
  ultimately show ?thesis using net_local [of txs "home E bc" "bal E st"] by auto
qed

lemma demo_home: "home (demo_env False 2) (demo_chain 0 txs) ''00000000''"
    "home (demo_env False 2) (demo_chain 0 txs) ''00000002''"
    "\<not> home (demo_env False 2) (demo_chain 0 txs) ''00000001''"
  by (simp_all add: home_def Get_PartitionMap_def demo_chain_def Addr2Shard_eq valid_addr_def
      addr_num_def hexval_def demo_env_def)

theorem block_changes_total_by_net_witness:
  "\<exists>rt bc' st'.
     GetUpdateStatusTrie (demo_env False 2) [demo_pay ''00000000'' ''00000001'' 5] (demo_chain 0 [])
       = Inr (rt, bc') \<and>
     opens (demo_env False 2) bc' rt st' \<and>
     sum (bal (demo_env False 2) st') {''00000000'', ''00000001''} =
       sum (bal (demo_env False 2) []) {''00000000'', ''00000001''} - 5"
proof -
  let ?E = "demo_env False 2" and ?bc = "demo_chain 0 []"
  let ?tx = "demo_pay ''00000000'' ''00000001'' 5"
  have "opens ?E ?bc (B_StateRoot (CurrentBlock ?bc)) []"
    using demo_opens [of 0 "[]"] by (simp add: demo_chain_def)
  moreover have "\<forall>tx\<in>set [?tx]. routable ?E ?bc (Tx_Sender tx) \<and> routable ?E ?bc (Tx_Recipient tx)"
    using demo_routable by (simp add: demo_pay_def NewTransaction_def)
  moreover have "net (home ?E ?bc) [?tx] (bal ?E []) = - 5"
    using demo_home [of "[]"]
    by (simp add: delta_def overdraws_def debits_def credits_def demo_pay_def NewTransaction_def
        bal_def demo_env_def Init_Balance_def)
  ultimately show ?thesis
    using block_changes_total_by_net [OF demo_trie_laws [of False 2] _ demo_wf, of ?bc "[?tx]"
        "{''00000000'', ''00000001''}"]
    by (auto simp: demo_pay_def NewTransaction_def)
qed

section \<open>One round of consensus on the account chain\<close>

text \<open>C3: a replica that re-executes the leader's block reaches the leader's state. When the leader
  (node 0) and a replica have the same tip, partition map and state contents, the block the leader
  generates passes the replica's check, both add it, and afterwards both have it as tip with the
  same state root and state contents.\<close>

theorem round_agreement:
  assumes "trie_laws E" and "bolt_laws E" and "\<not> P_UTXO E" and "same_view E L F"
    and "CC_NodeID (ChainConfig L) = 0" and "CC_NodeID (ChainConfig F) \<noteq> 0"
    and "GenerateBlock E now L = Inr (b, L1)" and "B_Hash b \<noteq> []"
  shows "IsValidBlock E b F = None \<and>
         (\<exists>L2 F2. AddBlock E b L1 = Inr L2 \<and> AddBlock E b F = Inr F2 \<and>
            CurrentBlock L2 = b \<and> CurrentBlock F2 = b \<and> same_view E L2 F2)"
  by (rule round_agreement_aux [OF assms])

lemma demo_generate:
  "\<exists>b L1. GenerateBlock (demo_env False 2) 7 (demo_chain 0 [demo_pay ''00000000'' ''00000002'' 5])
      = Inr (b, L1) \<and> B_Hash b \<noteq> []"
proof -
  let ?E = "demo_env False 2" and ?tx = "demo_pay ''00000000'' ''00000002'' 5"
  let ?L = "demo_chain 0 [?tx]" and ?P = "demo_chain 0 []"
  have pk: "PackTxs 10 (Txpool ?L) = ([?tx], Txpool ?P)"
    by (simp add: PackTxs_def demo_chain_def Let_def)
  have L: "?L\<lparr>Txpool := Txpool ?P\<rparr> = ?P" by (simp add: demo_chain_def)
  have "\<exists>rt bc' st'. GetUpdateStatusTrie ?E [?tx] ?P = Inr (rt, bc') \<and> opens ?E bc' rt st' \<and>
      wf_state ?E st' \<and> bal ?E st' = fold (ledger_tx (home ?E ?P)) [?tx] (bal ?E [])"
    by (rule GetUpdateStatusTrie_refines [OF demo_trie_laws _ demo_wf])
       (insert demo_opens [of 0 "[]"] demo_routable,
        simp_all add: demo_chain_def demo_pay_def NewTransaction_def)
  then obtain rt bc' where "GetUpdateStatusTrie ?E [?tx] ?P = Inr (rt, bc')" by blast
  moreover have "CC_BlockSize (ChainConfig ?L) = 10" by (simp add: demo_chain_def)
  ultimately show ?thesis using pk L
    by (simp add: GenerateBlock_def Let_def) (simp add: demo_env_def)
qed

theorem round_agreement_witness:
  "\<exists>b L1 L2 F2.
     GenerateBlock (demo_env False 2) 7 (demo_chain 0 [demo_pay ''00000000'' ''00000002'' 5])
       = Inr (b, L1) \<and>
     AddBlock (demo_env False 2) b L1 = Inr L2 \<and>
     AddBlock (demo_env False 2) b (demo_chain 3 []) = Inr F2 \<and> same_view (demo_env False 2) L2 F2"
proof -
  let ?L = "demo_chain 0 [demo_pay ''00000000'' ''00000002'' 5]"
  obtain b L1 where g: "GenerateBlock (demo_env False 2) 7 ?L = Inr (b, L1)" "B_Hash b \<noteq> []"
    using demo_generate by blast
  have "\<not> P_UTXO (demo_env False 2)" "CC_NodeID (ChainConfig ?L) = 0"
    "CC_NodeID (ChainConfig (demo_chain 3 [])) \<noteq> 0"
    by (simp_all add: demo_env_def demo_chain_def)
  from round_agreement [OF demo_trie_laws demo_bolt_laws this(1) demo_same_view this(2,3) g] g(1)
  show ?thesis by blast
qed

section \<open>The life of an account chain\<close>

definition state_ok :: "('t, 'd, 'b) env \<Rightarrow> ('d, 'b) BlockChain \<Rightarrow> bool" where
  "state_ok E bc \<longleftrightarrow> (\<exists>st. opens E bc (B_StateRoot (CurrentBlock bc)) st \<and> wf_state E st)"

definition tip_stored :: "('t, 'd, 'b) env \<Rightarrow> ('d, 'b) BlockChain \<Rightarrow> bool" where
  "tip_stored E bc \<longleftrightarrow>
     GetNewestBlockHash E (Storage bc) = Inr (Inr (B_Hash (CurrentBlock bc))) \<and>
     GetBlock E (B_Hash (CurrentBlock bc)) (Storage bc) = Inr (Inr (CurrentBlock bc))"

text \<open>\<open>linked n\<close>: following the parent hashes from \<open>h\<close> through the store gives blocks with the
  numbers \<open>n\<close>, ..., 0; only the last has no parent.\<close>

fun linked :: "('t, 'd, 'b) env \<Rightarrow> 'b Storage \<Rightarrow> nat \<Rightarrow> bytes \<Rightarrow> bool" where
  "linked E s 0 h \<longleftrightarrow>
     (\<exists>b. GetBlock E h s = Inr (Inr b) \<and> B_Number b = 0 \<and> BH_ParentBlockHash (B_Header b) = [])"
| "linked E s (Suc n) h \<longleftrightarrow>
     (\<exists>b. GetBlock E h s = Inr (Inr b) \<and> B_Number b = of_nat (Suc n) \<and>
          BH_ParentBlockHash (B_Header b) \<noteq> [] \<and> linked E s n (BH_ParentBlockHash (B_Header b)))"

definition unused :: "('t, 'd, 'b) env \<Rightarrow> Block \<Rightarrow> ('d, 'b) BlockChain \<Rightarrow> bool" where
  "unused E b bc \<longleftrightarrow> K_get E (blockBucket (Storage bc)) (B_Hash b) = None"

text \<open>
  The steps of a node's chain: transactions arrive, an address is reassigned, the leader mines, a
  replica adds a checked block whose state root is the one it computes, a block of another height
  is refused, account states arrive. A new block's hash is not one of the stored ones.
\<close>

inductive chain_step :: "('t, 'd, 'b) env \<Rightarrow> ('d, 'b) BlockChain \<Rightarrow> ('d, 'b) BlockChain \<Rightarrow> bool"
  for E where
  arrive: "chain_step E bc (SendTx2Pool clk txs bc)"
| assign: "chain_step E bc (Update_PartitionMap a s bc)"
| mine: "GenerateBlock E now bc = Inr (b, bc1) \<Longrightarrow> unused E b bc1 \<Longrightarrow>
    CC_NodeID (ChainConfig bc1) = 0 \<Longrightarrow>
    \<forall>tx\<in>set (B_Body b). routable E bc (Tx_Sender tx) \<and> routable E bc (Tx_Recipient tx) \<Longrightarrow>
    AddBlock E b bc1 = Inr bc2 \<Longrightarrow> chain_step E bc bc2"
| follow: "IsValidBlock E b bc = None \<Longrightarrow> unused E b bc \<Longrightarrow>
    B_Number b = B_Number (CurrentBlock bc) + 1 \<Longrightarrow>
    BH_Miner (B_Header b) \<noteq> CC_NodeID (ChainConfig bc) \<Longrightarrow>
    \<forall>tx\<in>set (B_Body b). routable E bc (Tx_Sender tx) \<and> routable E bc (Tx_Recipient tx) \<Longrightarrow>
    GetUpdateStatusTrie E (B_Body b) bc = Inr (B_StateRoot b, bc1) \<Longrightarrow>
    AddBlock E b bc = Inr bc2 \<Longrightarrow> chain_step E bc bc2"
| refuse: "B_Number b \<noteq> B_Number (CurrentBlock bc) + 1 \<Longrightarrow> AddBlock E b bc = Inr bc2 \<Longrightarrow>
    chain_step E bc bc2"
| receive: "AddAccounts E ac as bc = Inr bc2 \<Longrightarrow> unused E (CurrentBlock bc2) bc \<Longrightarrow>
    chain_step E bc bc2"

inductive chain_reachable :: "('t, 'd, 'b) env \<Rightarrow> ('d, 'b) BlockChain \<Rightarrow> bool" for E where
  start: "NewBlockChain E cc d (\<lambda>_. None) = Inr bc \<Longrightarrow> chain_reachable E bc"
| step: "chain_reachable E bc \<Longrightarrow> chain_step E bc bc' \<Longrightarrow> chain_reachable E bc'"

definition chain_ok :: "('t, 'd, 'b) env \<Rightarrow> ('d, 'b) BlockChain \<Rightarrow> bool" where
  "chain_ok E bc \<longleftrightarrow> tip_stored E bc \<and> state_ok E bc \<and> B_Hash (CurrentBlock bc) \<noteq> [] \<and>
     (\<exists>n. B_Number (CurrentBlock bc) = of_nat n \<and>
          linked E (Storage bc) n (B_Hash (CurrentBlock bc)))"

lemma chain_ok_cong:
  "CurrentBlock bc' = CurrentBlock bc \<Longrightarrow> Storage bc' = Storage bc \<Longrightarrow> triedb bc' = triedb bc \<Longrightarrow>
     chain_ok E bc' = chain_ok E bc"
  by (simp add: chain_ok_def tip_stored_def state_ok_def opens_def)

lemma GetBlock_D: "GetBlock E h s = Inr (Inr b) \<Longrightarrow> K_get E (blockBucket s) h \<noteq> None"
  by (auto simp: GetBlock_def split: option.splits)

lemma linked_mono:
  assumes "linked E s n h" and "\<And>h b. GetBlock E h s = Inr (Inr b) \<Longrightarrow> GetBlock E h s' = Inr (Inr b)"
  shows "linked E s' n h"
  using assms(1) by (induction n arbitrary: h) (auto dest: assms(2))

lemma Storage_AddBlock_get:
  assumes "bolt_laws E" and "Storage_AddBlock E b s = Inr s'"
  shows "GetBlock E h s' = (if h = B_Hash b then Inr (Inr b) else GetBlock E h s)"
    and "GetNewestBlockHash E s' = Inr (Inr (B_Hash b))"
  using Storage_AddBlock_D [OF assms] by (simp_all add: GetBlock_def GetNewestBlockHash_def)

text \<open>The common part of every step that makes a new tip.\<close>

lemma chain_ok_new_tip:
  assumes laws: "bolt_laws E" and ok: "chain_ok E bc" and add: "Storage_AddBlock E b (Storage bc) = Inr s"
    and tip: "CurrentBlock bc2 = b" "Storage bc2 = s"
    and fresh: "K_get E (blockBucket (Storage bc)) (B_Hash b) = None"
    and next_b: "B_Number b = B_Number (CurrentBlock bc) + 1"
      "BH_ParentBlockHash (B_Header b) = B_Hash (CurrentBlock bc)"
    and st: "state_ok E bc2"
  shows "chain_ok E bc2"
proof -
  note get = Storage_AddBlock_get [OF laws add]
  have ne: "B_Hash b \<noteq> []" by (rule Storage_AddBlock_D(3) [OF laws add])
  have keep: "GetBlock E h s = Inr (Inr c)" if "GetBlock E h (Storage bc) = Inr (Inr c)" for h c
    using that fresh GetBlock_D [OF that] get(1) [of h] by auto
  obtain n where n: "B_Number (CurrentBlock bc) = of_nat n"
    "linked E (Storage bc) n (B_Hash (CurrentBlock bc))" using ok by (auto simp: chain_ok_def)
  have "linked E s n (B_Hash (CurrentBlock bc))" by (rule linked_mono [OF n(2) keep])
  then have "linked E s (Suc n) (B_Hash b)" using get(1) n(1) next_b ok by (simp add: add.commute chain_ok_def)
  moreover have "B_Number b = of_nat (Suc n)" using n(1) next_b(1) by (simp add: add.commute)
  moreover have "tip_stored E bc2" using get tip by (simp add: tip_stored_def)
  ultimately show ?thesis using st tip ne unfolding chain_ok_def by blast
qed

lemma state_ok_execute:
  assumes "trie_laws E" and "state_ok E bc"
    and "\<forall>tx\<in>set txs. routable E bc (Tx_Sender tx) \<and> routable E bc (Tx_Recipient tx)"
    and "GetUpdateStatusTrie E txs bc = Inr (rt, bc')"
  shows "\<exists>st. opens E bc' rt st \<and> wf_state E st"
  using assms(2) GetUpdateStatusTrie_refines [OF assms(1) _ _ assms(3)] assms(4)
  by (fastforce simp: state_ok_def)

lemma GetUpdateStatusTrie_frame:
  "GetUpdateStatusTrie E txs bc = Inr (rt, bc') \<Longrightarrow> bc' = bc \<or> (\<exists>d. bc' = bc\<lparr>triedb := Some d\<rparr>)"
  by (auto simp: GetUpdateStatusTrie_def res_simps Let_def split: if_splits prod.splits)

lemma GetUpdateStatusTrie_keeps:
  assumes "GetUpdateStatusTrie E txs bc = Inr (rt, bc')"
  shows "CurrentBlock bc' = CurrentBlock bc" and "Storage bc' = Storage bc"
    and "ChainConfig bc' = ChainConfig bc" and "PartitionMap bc' = PartitionMap bc"
  using GetUpdateStatusTrie_frame [OF assms] by auto

lemma chain_ok_mine:
  assumes laws: "trie_laws E" "bolt_laws E" "\<not> P_UTXO E" and ok: "chain_ok E bc"
    and gen: "GenerateBlock E now bc = Inr (b, bc1)" and fresh: "unused E b bc1"
    and leader: "CC_NodeID (ChainConfig bc1) = 0"
    and routes: "\<forall>tx\<in>set (B_Body b). routable E bc (Tx_Sender tx) \<and> routable E bc (Tx_Recipient tx)"
    and add: "AddBlock E b bc1 = Inr bc2"
  shows "chain_ok E bc2"
proof -
  obtain pool where g: "GetUpdateStatusTrie E (B_Body b) (bc\<lparr>Txpool := pool\<rparr>) = Inr (B_StateRoot b, bc1)"
    "BH_ParentBlockHash (B_Header b) = B_Hash (CurrentBlock bc)"
    "B_Number b = B_Number (CurrentBlock bc) + 1" "BH_Miner (B_Header b) = 0"
    using GenerateBlock_account [OF laws(3) gen] by metis
  note keeps = GetUpdateStatusTrie_keeps [OF g(1)]
  obtain s where s: "Storage_AddBlock E b (Storage bc) = Inr s"
    and bc2: "bc2 = bc1\<lparr>CurrentBlock := b, Storage := s\<rparr>"
    using add g(3,4) leader keeps by (auto simp: AddBlock_def res_simps)
  have "state_ok E (bc\<lparr>Txpool := pool\<rparr>)" using ok by (simp add: chain_ok_def state_ok_def opens_def)
  moreover have "\<forall>tx\<in>set (B_Body b). routable E (bc\<lparr>Txpool := pool\<rparr>) (Tx_Sender tx) \<and>
      routable E (bc\<lparr>Txpool := pool\<rparr>) (Tx_Recipient tx)"
    using routes by (simp add: routable_def Get_PartitionMap_def)
  ultimately have "\<exists>st. opens E bc1 (B_StateRoot b) st \<and> wf_state E st"
    by (rule state_ok_execute [OF laws(1) _ _ g(1)])
  then have "state_ok E bc2" by (simp add: state_ok_def bc2 opens_def)
  then show ?thesis
    using chain_ok_new_tip [OF laws(2) ok s] bc2 g(2,3) fresh keeps by (simp add: unused_def)
qed

lemma chain_ok_follow:
  assumes laws: "trie_laws E" "bolt_laws E" "\<not> P_UTXO E" and ok: "chain_ok E bc"
    and valid: "IsValidBlock E b bc = None" and fresh: "unused E b bc"
    and height: "B_Number b = B_Number (CurrentBlock bc) + 1"
    and other: "BH_Miner (B_Header b) \<noteq> CC_NodeID (ChainConfig bc)"
    and routes: "\<forall>tx\<in>set (B_Body b). routable E bc (Tx_Sender tx) \<and> routable E bc (Tx_Recipient tx)"
    and ex: "GetUpdateStatusTrie E (B_Body b) bc = Inr (B_StateRoot b, bc1)"
    and add: "AddBlock E b bc = Inr bc2"
  shows "chain_ok E bc2"
proof -
  note keeps = GetUpdateStatusTrie_keeps [OF ex]
  obtain s where s: "Storage_AddBlock E b (Storage bc) = Inr s"
    and bc2: "bc2 = bc1\<lparr>CurrentBlock := b, Storage := s\<rparr>"
    using add height other laws(3) ex keeps by (auto simp: AddBlock_def res_simps)
  have "state_ok E bc" using ok by (simp add: chain_ok_def)
  from state_ok_execute [OF laws(1) this routes ex] have "state_ok E bc2"
    by (simp add: state_ok_def bc2 opens_def)
  moreover have "BH_ParentBlockHash (B_Header b) = B_Hash (CurrentBlock bc)"
    using valid by (auto simp: IsValidBlock_def split: if_splits)
  ultimately show ?thesis
    using chain_ok_new_tip [OF laws(2) ok s] bc2 height fresh keeps by (simp add: unused_def)
qed

section \<open>Receiving account states\<close>

lemma add_account_wf:
  assumes "trie_laws E" and "wf_state E st" and "add_account E bc as ix st = Inr st'"
  shows "wf_state E st'"
  using assms by (cases ix) (auto simp: add_account_def res_simps wf_state_put split: if_splits)

lemma add_accounts_wf:
  "trie_laws E \<Longrightarrow> wf_state E st \<Longrightarrow> rfold (add_account E bc as) ixs st = Inr st' \<Longrightarrow> wf_state E st'"
  by (erule rfold_invariant) (auto intro: add_account_wf)

text \<open>What \<^verbatim>\<open>AddAccounts\<close> does: the accounts are written, a block without transactions is the new tip
  and its state can be opened, although \<^verbatim>\<open>triedb.Commit\<close> is given the old root.\<close>

lemma AddAccounts_D:
  assumes laws: "trie_laws E" "bolt_laws E" and opn: "opens E bc (B_StateRoot (CurrentBlock bc)) st"
    and add: "AddAccounts E ac as bc = Inr bc2"
  shows "\<exists>st1 st2 s. rfold (add_account E bc as) (enumerate 0 ac) st = Inr st1 \<and>
           Storage_AddBlock E (CurrentBlock bc2) (Storage bc) = Inr s \<and> Storage bc2 = s \<and>
           B_Number (CurrentBlock bc2) = B_Number (CurrentBlock bc) + 1 \<and>
           BH_ParentBlockHash (B_Header (CurrentBlock bc2)) = B_Hash (CurrentBlock bc) \<and>
           opens E bc2 (B_StateRoot (CurrentBlock bc2)) st2 \<and> T_get E st2 = T_get E st1"
proof (cases "ac = []")
  case True
  then show ?thesis using add opn laws(1)
    by (auto simp: AddAccounts_def res_simps Let_def NewBlock_def opens_def env_simps)
next
  case False
  let ?r = "B_StateRoot (CurrentBlock bc)"
  obtain d where d: "triedb bc = Some d" "open_trie E ?r bc = Inr (st, d)"
    using open_trie_ok [OF opn] by blast
  obtain st1 where st1: "rfold (add_account E bc as) (enumerate 0 ac) st = Inr st1"
    using add False d by (auto simp: AddAccounts_def res_simps Let_def)
  obtain d1 st2 where d1: "T_updateDB E d st1 = Some d1" "T_new E (T_root E st1) d1 = Some st2"
    "T_get E st2 = T_get E st1" and old: "\<forall>r. T_new E r d \<noteq> None \<longrightarrow> T_new E r d1 \<noteq> None"
    using trie_update [OF laws(1), of d st1] by blast
  have "T_new E (BytesToHash E ?r) d1 \<noteq> None" using old opn d(1) by (simp add: opens_def)
  from trie_commit [OF laws(1) this] obtain d2 where
    d2: "T_commitDB E d1 (BytesToHash E ?r) = Some d2" "\<forall>r. T_new E r d2 = T_new E r d1" by blast
  have "T_new E (BytesToHash E (T_root E st1)) d2 = Some st2"
    using d1(2) d2(2) by (simp add: trie_root_hash [OF laws(1)])
  with add False d st1 d1(1,3) d2(1) show ?thesis
    by (auto simp: AddAccounts_def res_simps Let_def NewBlock_def opens_def)
qed

lemma chain_ok_receive:
  assumes laws: "trie_laws E" "bolt_laws E" and ok: "chain_ok E bc"
    and add: "AddAccounts E ac as bc = Inr bc2" and fresh: "unused E (CurrentBlock bc2) bc"
  shows "chain_ok E bc2"
proof -
  obtain st where st: "opens E bc (B_StateRoot (CurrentBlock bc)) st" "wf_state E st"
    using ok by (auto simp: chain_ok_def state_ok_def)
  from AddAccounts_D [OF laws st(1) add] obtain st1 st2 s where
    u: "rfold (add_account E bc as) (enumerate 0 ac) st = Inr st1"
      "Storage_AddBlock E (CurrentBlock bc2) (Storage bc) = Inr s" "Storage bc2 = s"
      "B_Number (CurrentBlock bc2) = B_Number (CurrentBlock bc) + 1"
      "BH_ParentBlockHash (B_Header (CurrentBlock bc2)) = B_Hash (CurrentBlock bc)"
      "opens E bc2 (B_StateRoot (CurrentBlock bc2)) st2" "T_get E st2 = T_get E st1" by blast
  have "wf_state E st2"
    using add_accounts_wf [OF laws(1) st(2) u(1)] u(7) by (simp add: wf_state_def)
  then have "state_ok E bc2" using u(6) by (auto simp: state_ok_def)
  then show ?thesis
    using chain_ok_new_tip [OF laws(2) ok u(2) refl u(3) _ u(4,5)] fresh by (simp add: unused_def)
qed

section \<open>The chain invariant\<close>

lemma AddGenisisBlock_D:
  assumes "bolt_laws E" and "AddGenisisBlock E gb bc = Inr bc'"
  shows "\<exists>s. Storage_AddBlock E gb (Storage bc) = Inr s \<and> bc' = bc\<lparr>Storage := s, CurrentBlock := gb\<rparr>"
proof -
  obtain s where s: "Storage_AddBlock E gb (Storage bc) = Inr s"
    using assms(2) by (auto simp: AddGenisisBlock_def res_simps)
  with assms(2) show ?thesis
    by (simp add: AddGenisisBlock_def must_be_def Storage_AddBlock_get [OF assms(1) s])
qed

lemma NewGenisisBlock_account:
  assumes "\<not> P_UTXO E"
  shows "\<exists>gb. NewGenisisBlock E bc = (gb, bc\<lparr>triedb := Some (T_open E (db bc))\<rparr>) \<and>
           B_Number gb = 0 \<and> B_StateRoot gb = T_root E (T_empty E) \<and>
           BH_ParentBlockHash (B_Header gb) = []"
  using assms by (simp add: NewGenisisBlock_def Let_def NewBlock_def)

text \<open>The object \<^verbatim>\<open>NewBlockChain\<close> starts from, and what the first run does with it.\<close>

definition blank_chain :: "('t, 'd, 'b) env \<Rightarrow> ChainConfig \<Rightarrow> 'd \<Rightarrow> ('d, 'b) BlockChain" where
  "blank_chain E cc d =
     \<lparr>db = d, triedb = None, ChainConfig = cc, CurrentBlock = zero_Block,
      Storage = NewStorage E (\<lambda>_. None), Txpool = NewTxPool, UTXOTxpool = NewUTXOTxPool,
      PartitionMap = Map.empty, UTXOStateRoot = []\<rparr>"

lemma NewBlockChain_empty:
  assumes "bolt_laws E"
  shows "NewBlockChain E cc d (\<lambda>_. None) =
           (case NewGenisisBlock E (blank_chain E cc d) of (gb, bc1) \<Rightarrow> AddGenisisBlock E gb bc1)"
proof -
  have "GetNewestBlockHash E (NewStorage E (\<lambda>_. None))
      = Inr (Inl ''cannot find the newest block hash'')"
    by (simp add: GetNewestBlockHash_def NewStorage_def bucket_or_new_def bolt_get_new [OF assms])
  then show ?thesis by (simp add: NewBlockChain_def blank_chain_def Let_def)
qed

lemma NewBlockChain_first:
  assumes laws: "bolt_laws E" "\<not> P_UTXO E" and new: "NewBlockChain E cc d (\<lambda>_. None) = Inr bc"
  shows "\<exists>gb s. Storage_AddBlock E gb (NewStorage E (\<lambda>_. None)) = Inr s \<and> Storage bc = s \<and>
           triedb bc = Some (T_open E d) \<and> CurrentBlock bc = gb \<and> B_Number gb = 0 \<and>
           B_StateRoot gb = T_root E (T_empty E) \<and> BH_ParentBlockHash (B_Header gb) = []"
proof -
  let ?bc0 = "blank_chain E cc d"
  obtain gb where gen: "NewGenisisBlock E ?bc0 = (gb, ?bc0\<lparr>triedb := Some (T_open E (db ?bc0))\<rparr>)"
    and gb: "B_Number gb = 0" "B_StateRoot gb = T_root E (T_empty E)"
      "BH_ParentBlockHash (B_Header gb) = []"
    using NewGenisisBlock_account [OF laws(2)] by blast
  have "AddGenisisBlock E gb (?bc0\<lparr>triedb := Some (T_open E (db ?bc0))\<rparr>) = Inr bc"
    using new gen by (simp add: NewBlockChain_empty [OF laws(1)])
  from AddGenisisBlock_D [OF laws(1) this] gb show ?thesis by (auto simp: blank_chain_def)
qed

lemma chain_ok_start:
  assumes laws: "trie_laws E" "bolt_laws E" "\<not> P_UTXO E"
    and new: "NewBlockChain E cc d (\<lambda>_. None) = Inr bc"
  shows "chain_ok E bc"
proof -
  obtain gb s where s: "Storage_AddBlock E gb (NewStorage E (\<lambda>_. None)) = Inr s"
    and bc: "Storage bc = s" "triedb bc = Some (T_open E d)" "CurrentBlock bc = gb"
    and gb: "B_Number gb = 0" "B_StateRoot gb = T_root E (T_empty E)"
      "BH_ParentBlockHash (B_Header gb) = []"
    using NewBlockChain_first [OF laws(2,3) new] by blast
  note get = Storage_AddBlock_get [OF laws(2) s]
  obtain t where "T_new E (T_root E (T_empty E)) (T_open E d) = Some t"
    "T_get E t = T_get E (T_empty E)" using trie_open_empty [OF laws(1)] by blast
  then have "opens E bc (B_StateRoot gb) t" "wf_state E t"
    using bc(2) gb(2) laws(1) by (simp_all add: opens_def env_simps wf_state_def)
  then have "state_ok E bc" using bc(3) by (auto simp: state_ok_def)
  moreover have "tip_stored E bc" using get bc by (simp add: tip_stored_def)
  moreover have "B_Number (CurrentBlock bc) = of_nat 0" "linked E (Storage bc) 0 (B_Hash (CurrentBlock bc))"
    using get bc gb(1,3) by simp_all
  moreover have "B_Hash (CurrentBlock bc) \<noteq> []" using Storage_AddBlock_D(3) [OF laws(2) s] bc(3) by simp
  ultimately show ?thesis unfolding chain_ok_def by blast
qed

lemma chain_ok_step:
  assumes laws: "trie_laws E" "bolt_laws E" "\<not> P_UTXO E"
    and "chain_step E bc bc'" and "chain_ok E bc"
  shows "chain_ok E bc'"
  using assms(4,5)
proof cases
  case (arrive clk txs)
  with assms(5) show ?thesis using chain_ok_cong [of bc' bc E] by (simp add: SendTx2Pool_def)
next
  case (assign a s)
  with assms(5) show ?thesis using chain_ok_cong [of bc' bc E] by (simp add: Update_PartitionMap_def)
next
  case (mine now b bc1)
  from chain_ok_mine [OF laws assms(5) mine] show ?thesis .
next
  case (follow b bc1)
  from chain_ok_follow [OF laws assms(5) follow] show ?thesis .
next
  case (refuse b)
  with assms(5) show ?thesis by (simp add: AddBlock_def)
next
  case (receive ac as)
  from chain_ok_receive [OF laws(1,2) assms(5) receive] show ?thesis .
qed


text \<open>The first run on an empty disk succeeds.\<close>

lemma NewBlockChain_first_run:
  assumes "bolt_laws E" and "\<And>h. sha_bh E h \<noteq> []"
  shows "\<exists>bc. NewBlockChain E cc d (\<lambda>_. None) = Inr bc"
proof -
  have "AddGenisisBlock E gb bc \<noteq> Inl e" if hash: "B_Hash gb \<noteq> []"
    for gb e and bc :: "('b, 'c) BlockChain"
  proof -
    obtain s where s: "Storage_AddBlock E gb (Storage bc) = Inr s"
      using Storage_ok [OF assms(1) hash] by blast
    then show ?thesis
      by (simp add: AddGenisisBlock_def must_be_def Storage_AddBlock_get [OF assms(1) s])
  qed
  moreover have "B_Hash (fst (NewGenisisBlock E bc)) \<noteq> []" for bc
    using assms(2) by (simp add: NewGenisisBlock_def Let_def)
  ultimately have "\<exists>bc'. (case NewGenisisBlock E bc of (gb, bc1) \<Rightarrow> AddGenisisBlock E gb bc1) = Inr bc'"
    for bc by (metis obj_sumE prod.case_eq_if)
  then show ?thesis by (simp add: NewBlockChain_empty [OF assms(1)])
qed

definition demo_boot :: "(bytes \<rightharpoonup> demo_trie, demo_trie) BlockChain" where
  "demo_boot = (case NewBlockChain (demo_env False 2) (ChainConfig (demo_chain 0 [])) Map.empty (\<lambda>_. None)
                of Inr bc \<Rightarrow> bc | Inl _ \<Rightarrow> demo_chain 0 [])"

lemma demo_boot_new:
  "NewBlockChain (demo_env False 2) (ChainConfig (demo_chain 0 [])) Map.empty (\<lambda>_. None) = Inr demo_boot"
proof -
  let ?E = "demo_env False 2" and ?cc = "ChainConfig (demo_chain 0 [])"
  have "\<exists>bc. NewBlockChain ?E ?cc Map.empty (\<lambda>_. None) = Inr bc"
    by (rule NewBlockChain_first_run [OF demo_bolt_laws]) (simp_all add: demo_env_def)
  then show ?thesis unfolding demo_boot_def by (auto split: sum.splits)
qed


definition disk_of :: "'b Storage \<Rightarrow> string \<Rightarrow> 'b option" where
  "disk_of s = [''block'' \<mapsto> blockBucket s, ''blockHeader'' \<mapsto> blockHeaderBucket s,
                ''newestBlockHash'' \<mapsto> newestBlockHashBucket s, ''utxo'' \<mapsto> UTXOBucket s]"



section \<open>Moving accounts\<close>

definition carried :: "AccountState \<Rightarrow> AccountState" where
  "carried a = new_AccountState (AS_Nonce a) (AS_Balance a)"

lemma FetchAccounts_eq:
  assumes "opens E bc (B_StateRoot (CurrentBlock bc)) st"
    and "\<forall>a\<in>set addrs. load_account E st 0 a = Inr (f a)"
  shows "FetchAccounts E addrs bc = Inr (map f addrs)"
proof -
  have "rfold (\<lambda>addr res. rbind (load_account E st 0 addr) (\<lambda>a. Inr (res @ [a]))) addrs r
      = Inr (r @ map f addrs)" for r
    using assms(2) by (induction addrs arbitrary: r) auto
  with open_trie_ok [OF assms(1)] show ?thesis by (auto simp: FetchAccounts_def)
qed

lemma FetchAccounts_length:
  assumes "FetchAccounts E addrs bc = Inr as"
  shows "length as = length addrs"
proof -
  have "length r' = length r + length addrs"
    if "rfold (\<lambda>addr res. rbind (load_account E st 0 addr) (\<lambda>a. Inr (res @ [a]))) addrs r = Inr r'"
    for r r' st using that by (induction addrs arbitrary: r) (auto simp: res_simps)
  from this [of _ "[]"] assms show ?thesis by (auto simp: FetchAccounts_def res_simps)
qed

lemma add_accounts_get:
  assumes "trie_laws E" and "\<forall>a\<in>set ac. home E bc a" and "k + length ac \<le> length as"
    and "distinct ac"
  shows "\<exists>st'. rfold (add_account E bc as) (enumerate k ac) st = Inr st' \<and>
           (\<forall>a. a \<notin> set ac \<longrightarrow> T_get E st' a = T_get E st a) \<and>
           (\<forall>i<length ac. T_get E st' (ac ! i) = Some (GobAS (carried (as ! (k + i)))))"
  using assms(2-)
proof (induction ac arbitrary: k st)
  case Nil
  then show ?case by simp
next
  case (Cons a ac)
  let ?st1 = "T_put E st a (GobAS (carried (as ! k)))"
  have one: "add_account E bc as (k, a) st = Inr ?st1"
    using Cons.prems by (simp add: add_account_def home_def carried_def)
  obtain st' where st': "rfold (add_account E bc as) (enumerate (Suc k) ac) ?st1 = Inr st'"
    and keep: "\<forall>x. x \<notin> set ac \<longrightarrow> T_get E st' x = T_get E ?st1 x"
    and new: "\<forall>i<length ac. T_get E st' (ac ! i) = Some (GobAS (carried (as ! (Suc k + i))))"
    using Cons.IH [of "Suc k" ?st1] Cons.prems by auto
  have "T_get E st' ((a # ac) ! i) = Some (GobAS (carried (as ! (k + i))))" if "i < length (a # ac)" for i
    using that keep new Cons.prems(3) trie_get_put [OF assms(1)] by (cases i) auto
  moreover have "T_get E st' x = T_get E st x" if "x \<notin> set (a # ac)" for x
    using that keep trie_get_put [OF assms(1)] by auto
  ultimately show ?case using one st' by auto
qed

lemma AddAccounts_succeeds:
  assumes laws: "trie_laws E" "bolt_laws E" and hash: "\<And>h. sha_bh E h \<noteq> []"
    and opn: "opens E bc (B_StateRoot (CurrentBlock bc)) st"
    and ex: "rfold (add_account E bc as) (enumerate 0 ac) st = Inr st1"
  shows "\<exists>bc2. AddAccounts E ac as bc = Inr bc2"
proof -
  let ?r = "B_StateRoot (CurrentBlock bc)"
  have stored: "\<exists>s. Storage_AddBlock E b s0 = Inr s" if "B_Hash b = sha_bh E h" for b h s0
    using Storage_ok [OF laws(2)] hash that by metis
  obtain d where d: "triedb bc = Some d" "open_trie E ?r bc = Inr (st, d)"
    using open_trie_ok [OF opn] by blast
  obtain d1 where d1: "T_updateDB E d st1 = Some d1"
    and old: "\<forall>r. T_new E r d \<noteq> None \<longrightarrow> T_new E r d1 \<noteq> None"
    using trie_update [OF laws(1), of d st1] by blast
  have "T_new E (BytesToHash E ?r) d1 \<noteq> None" using old opn d(1) by (simp add: opens_def)
  from trie_commit [OF laws(1) this] obtain d2 where
    d2: "T_commitDB E d1 (BytesToHash E ?r) = Some d2" by blast
  show ?thesis
    using d ex d1 d2 stored by (simp add: AddAccounts_def res_simps Let_def)
qed

lemma AddAccounts_frame:
  "AddAccounts E ac as bc = Inr bc2 \<Longrightarrow>
     PartitionMap bc2 = PartitionMap bc \<and> ChainConfig bc2 = ChainConfig bc \<and> Txpool bc2 = Txpool bc"
  by (auto simp: AddAccounts_def res_simps Let_def split: if_splits)

lemma AddAccounts_installs:
  assumes laws: "trie_laws E" "bolt_laws E" and hash: "\<And>h. sha_bh E h \<noteq> []"
    and len: "length as = length ac" and dist: "distinct ac"
    and opn: "opens E dst (B_StateRoot (CurrentBlock dst)) st" and homes: "\<forall>a\<in>set ac. home E dst a"
  shows "\<exists>dst' st'. AddAccounts E ac as dst = Inr dst' \<and>
           opens E dst' (B_StateRoot (CurrentBlock dst')) st' \<and>
           (\<forall>i<length ac. T_get E st' (ac ! i) = Some (GobAS (carried (as ! i)))) \<and>
           (\<forall>a. a \<notin> set ac \<longrightarrow> T_get E st' a = T_get E st a) \<and>
           BH_ParentBlockHash (B_Header (CurrentBlock dst')) = B_Hash (CurrentBlock dst)"
proof -
  obtain st1 where st1: "rfold (add_account E dst as) (enumerate 0 ac) st = Inr st1"
    and keep: "\<forall>a. a \<notin> set ac \<longrightarrow> T_get E st1 a = T_get E st a"
    and got: "\<forall>i<length ac. T_get E st1 (ac ! i) = Some (GobAS (carried (as ! i)))"
    using add_accounts_get [OF laws(1) homes _ dist, of 0 as st] len by auto
  obtain dst' where add: "AddAccounts E ac as dst = Inr dst'"
    using AddAccounts_succeeds [OF laws hash opn st1] by blast
  from AddAccounts_D [OF laws opn add] st1 obtain st2 where
    "opens E dst' (B_StateRoot (CurrentBlock dst')) st2" "T_get E st2 = T_get E st1"
    "BH_ParentBlockHash (B_Header (CurrentBlock dst')) = B_Hash (CurrentBlock dst)" by auto
  with add keep got show ?thesis by auto
qed



end
