(* ===== verification/UTXOs.thy ===== *)
theory UTXOs
  imports ChainInv
begin

text \<open>
  The UTXO side of the chain (\<^verbatim>\<open>src/chain/utxo_set.go\<close> and \<^verbatim>\<open>NewUTXOTransaction\<close> of
  \<^verbatim>\<open>src/chain/blockchain.go\<close>). Two representations of the unspent outputs exist: a state trie of
  \<^verbatim>\<open>UTXOAccountState\<close> values, which the running program uses, and a bolt bucket from transaction ids
  to output lists, which is used by the tests.

  Random numbers are arguments (\<open>rnd\<close>); \<open>ord\<close> is the order in which \<^verbatim>\<open>range\<close> visits the map of
  selected outputs, any permutation of it.

  The balances of the trie are related to an abstract transfer between public key hashes. The
  account invariant \<open>acct_ok\<close> says that a balance is the sum of the account's unspent outputs.
\<close>

section \<open>Selecting outputs from the state trie\<close>

text \<open>The inner loop over the outputs of one transaction: \<open>acc\<close>, the balance and the map of selected
  outputs are updated for every output taken, which is deleted; the loop stops as soon as more than
  \<open>amount\<close> is accumulated.\<close>

definition append_at :: "string \<Rightarrow> int \<Rightarrow> (string, int list) gomap \<Rightarrow> (string, int list) gomap" where
  "append_at txid i m = gput txid ((case gget m txid of None \<Rightarrow> [] | Some l \<Rightarrow> l) @ [i]) m"

fun spend_outs ::
    "int \<Rightarrow> string \<Rightarrow> (int, int) gomap \<Rightarrow> int \<Rightarrow> int \<Rightarrow> (string, int list) gomap
      \<Rightarrow> int \<times> int \<times> (string, int list) gomap \<times> (int, int) gomap" where
  "spend_outs amount txid [] acc blc un = (acc, blc, un, [])"
| "spend_outs amount txid ((outId, v) # txOut) acc blc un =
     (if acc + v > amount then (acc + v, blc - v, append_at txid outId un, txOut)
      else spend_outs amount txid txOut (acc + v) (blc - v) (append_at txid outId un))"

fun spend_txs ::
    "int \<Rightarrow> (string, (int, int) gomap) gomap \<Rightarrow> int \<Rightarrow> int \<Rightarrow> (string, int list) gomap
      \<Rightarrow> int \<times> int \<times> (string, int list) gomap \<times> (string, (int, int) gomap) gomap" where
  "spend_txs amount [] acc blc un = (acc, blc, un, [])"
| "spend_txs amount ((txid, txOut) # utxos) acc blc un =
     (let (acc1, bal1, un1, left) = spend_outs amount txid txOut acc blc un;
          keep = (if left = [] then [] else [(txid, left)])
      in if acc1 > amount then (acc1, bal1, un1, keep @ utxos)
         else let (acc2, bal2, un2, rest) = spend_txs amount utxos acc1 bal1 un1
              in (acc2, bal2, un2, keep @ rest))"

definition new_UAS :: "bytes \<Rightarrow> u64 \<Rightarrow> UTXOAccountState" where
  "new_UAS pk rnd = \<lparr>UAS_PubkeyHash = pk, UAS_Nonce = rnd, UAS_Balance = 0, UAS_UTXOs = []\<rparr>"

text \<open>The last three statements of both functions: commit the trie and record its root.\<close>

definition commit_utxo_root ::
    "('t, 'd, 'b) env \<Rightarrow> 't \<Rightarrow> 'd \<Rightarrow> ('d, 'b) BlockChain \<Rightarrow> ('d, 'b) BlockChain res" where
  "commit_utxo_root E st d bc =
     rbind (commit_trie E st d) (\<lambda>(rt, d'). Inr (bc\<lparr>triedb := Some d', UTXOStateRoot := rt\<rparr>))"

definition FindSpendableOutputsFromStatusTrie ::
    "('t, 'd, 'b) env \<Rightarrow> u64 \<Rightarrow> bytes \<Rightarrow> int \<Rightarrow> ('d, 'b) BlockChain
      \<Rightarrow> ((int \<times> (string, int list) gomap) \<times> ('d, 'b) BlockChain) res" where
  "FindSpendableOutputsFromStatusTrie E rnd pubkeyHash amount bc =
     rbind (open_trie E (UTXOStateRoot bc) bc) (\<lambda>(st, d).
     case T_get E st pubkeyHash of
       None \<Rightarrow>
         rbind (commit_utxo_root E (T_put E st pubkeyHash (GobUAS (new_UAS pubkeyHash rnd))) d bc)
           (\<lambda>bc'. Inr ((-1, []), bc'))
     | Some enc \<Rightarrow>
         rbind (DecodeUAS enc) (\<lambda>s_state.
         if UAS_Balance s_state < amount then Inr ((0, []), bc)
         else
           let (acc, blc, un, utxos) =
                 spend_txs amount (UAS_UTXOs s_state) 0 (UAS_Balance s_state) [];
               s_state = s_state\<lparr>UAS_Balance := blc, UAS_UTXOs := utxos\<rparr>
           in rbind (commit_utxo_root E (T_put E st pubkeyHash (GobUAS s_state)) d bc)
                (\<lambda>bc'. Inr ((acc, un), bc'))))"

section \<open>Adding outputs to the state trie\<close>

definition add_out :: "string \<Rightarrow> nat \<Rightarrow> TxOut \<Rightarrow> UTXOAccountState \<Rightarrow> UTXOAccountState" where
  "add_out txid index Vout s =
     (let m = (case gget (UAS_UTXOs s) txid of
                 None \<Rightarrow> [(int index, Out_Value Vout)]
               | Some m \<Rightarrow> gput (int index) (Out_Value Vout) m)
      in s\<lparr>UAS_UTXOs := gput txid m (UAS_UTXOs s), UAS_Balance := UAS_Balance s + Out_Value Vout\<rparr>)"

definition add_vout ::
    "('t, 'd, 'b) env \<Rightarrow> (nat \<Rightarrow> u64) \<Rightarrow> bytes \<Rightarrow> nat \<times> TxOut \<Rightarrow> 't \<Rightarrow> 't res" where
  "add_vout E rnd txid iv st =
     (let (index, Vout) = iv in
      rbind (case T_get E st (Out_PubKeyHash Vout) of
               None \<Rightarrow> Inr (new_UAS (Out_PubKeyHash Vout) (rnd index))
             | Some enc \<Rightarrow> DecodeUAS enc) (\<lambda>s_state.
      Inr (T_put E st (Out_PubKeyHash Vout) (GobUAS (add_out (hexEncode txid) index Vout s_state)))))"

text \<open>\<open>None\<close> is a nil transaction.\<close>

definition AddUTXO2StatusTrie ::
    "('t, 'd, 'b) env \<Rightarrow> (nat \<Rightarrow> u64) \<Rightarrow> UTXOTransaction option \<Rightarrow> ('d, 'b) BlockChain
      \<Rightarrow> ('d, 'b) BlockChain res" where
  "AddUTXO2StatusTrie E rnd otx bc =
     (case otx of
        None \<Rightarrow> Inr bc
      | Some tx \<Rightarrow>
          rbind (open_trie E (UTXOStateRoot bc) bc) (\<lambda>(st, d).
          rbind (rfold (add_vout E rnd (U_TxId tx)) (enumerate 0 (U_Vout tx)) st) (\<lambda>st'.
          commit_utxo_root E st' d bc)))"

section \<open>Making a transaction\<close>

fun build_inputs :: "bytes \<Rightarrow> (string, int list) gomap \<Rightarrow> TxIn list res" where
  "build_inputs Pubkey [] = Inr []"
| "build_inputs Pubkey ((txid, outindexs) # m) =
     rbind (opt_or (Panic ''hex.DecodeString'') (hexDecode txid)) (\<lambda>txID.
     rbind (build_inputs Pubkey m) (\<lambda>inputs.
     Inr (map (\<lambda>outindex. \<lparr>In_PrevTxId = txID, In_Index = outindex, In_Signature = [], In_PubKey = Pubkey\<rparr>)
            outindexs @ inputs)))"

definition NewUTXOTransaction ::
    "('t, 'd, 'b) env \<Rightarrow> u64 \<Rightarrow> 64 word \<Rightarrow> ((string, int list) gomap \<Rightarrow> (string, int list) gomap)
      \<Rightarrow> string \<Rightarrow> string \<Rightarrow> int \<Rightarrow> ('d, 'b) BlockChain
      \<Rightarrow> ((UTXOTransaction option \<times> UTXOTransaction option) \<times> ('d, 'b) BlockChain) res" where
  "NewUTXOTransaction E rnd cnonce ord from to amount bc =
     (let SenderPubkeyHash = sha_str E from in
      rbind (FindSpendableOutputsFromStatusTrie E rnd SenderPubkeyHash amount bc)
        (\<lambda>((acc0, valid0), bc').
         let (coinbase, acc, validOutputs) =
               (if acc0 = -1 \<or> acc0 = 0 then
                  (let cb = NewCoinbaseTX (sha_utxo E) cnonce SenderPubkeyHash amount None
                   in (Some cb, amount, [(hexEncode (U_TxId cb), [0])]))
                else (None, acc0, valid0))
         in
         rbind (build_inputs from (ord validOutputs)) (\<lambda>inputs.
         let outputs = \<lparr>Out_Value = amount, Out_PubKeyHash = sha_str E to\<rparr> #
               (if acc > amount
                then [\<lparr>Out_Value = acc - amount, Out_PubKeyHash = SenderPubkeyHash\<rparr>] else []);
             tx = \<lparr>U_TxId = [], U_Vin = inputs, U_Vout = outputs, U_Nonce = 0, U_Time = 0,
                   U_TxHash = [], U_Relayed = False, U_Recipient = to\<rparr>;
             tx = tx\<lparr>U_TxId := UTXO_Hash (sha_utxo E) tx\<rparr>;
             tx = tx\<lparr>U_TxHash := UTXO_Hash (sha_utxo E) tx\<rparr>
         in Inr ((Some tx, coinbase), bc'))))"

text \<open>
  The body of \<^verbatim>\<open>TxTransform\<close> (\<^verbatim>\<open>src/consensus_shard/pbft_all/messageHandle.go\<close>) for one injected
  transaction, and one pass of its loop: pack up to 200 account transactions, transform each, add
  the results to the UTXO pool. The record of random choices is given per transaction. A nil
  transaction beside a coinbase would be dereferenced by the pool; it does not occur.
\<close>

record utxo_choice =
  ch_rnd :: u64
  ch_cnonce :: "64 word"
  ch_ord :: "(string, int list) gomap \<Rightarrow> (string, int list) gomap"
  ch_rnds :: "nat \<Rightarrow> u64"

definition transform_tx ::
    "('t, 'd, 'b) env \<Rightarrow> utxo_choice \<times> Transaction \<Rightarrow> UTXOTransaction list \<times> ('d, 'b) BlockChain
      \<Rightarrow> (UTXOTransaction list \<times> ('d, 'b) BlockChain) res" where
  "transform_tx E ci s =
     (let (ch, InjectTx) = ci; (txs, bc) = s in
      rbind (NewUTXOTransaction E (ch_rnd ch) (ch_cnonce ch) (ch_ord ch) (Tx_Sender InjectTx)
               (Tx_Recipient InjectTx) (Tx_Value InjectTx) bc)
        (\<lambda>((tx, coinbase), bc1).
         case coinbase of
           Some cb \<Rightarrow>
             (case tx of
                None \<Rightarrow> Inl (Panic ''nil pointer dereference'')
              | Some t \<Rightarrow>
                  rbind (AddUTXO2StatusTrie E (ch_rnds ch) tx bc1)
                    (\<lambda>bc2. Inr (txs @ [cb, t], bc2)))
         | None \<Rightarrow>
             (case tx of
                None \<Rightarrow> Inr (txs, bc1)
              | Some t \<Rightarrow>
                  rbind (AddUTXO2StatusTrie E (ch_rnds ch) tx bc1) (\<lambda>bc2. Inr (txs @ [t], bc2)))))"

definition TxTransform_pass ::
    "('t, 'd, 'b) env \<Rightarrow> (nat \<Rightarrow> utxo_choice) \<Rightarrow> (nat \<Rightarrow> go_time) \<Rightarrow> ('d, 'b) BlockChain
      \<Rightarrow> ('d, 'b) BlockChain res" where
  "TxTransform_pass E ch clk bc =
     (let (injectedTxs, pool) = PackTxs 200 (Txpool bc) in
      rbind (rfold (transform_tx E) (map (\<lambda>(i, tx). (ch i, tx)) (enumerate 0 injectedTxs))
               ([], bc\<lparr>Txpool := pool\<rparr>))
        (\<lambda>(txs, bc'). Inr (bc'\<lparr>UTXOTxpool := U_AddTxs2Pool clk txs (UTXOTxpool bc')\<rparr>)))"

section \<open>What the selection loops do\<close>

text \<open>The unspent outputs of an account as a list of transaction id, index and value; the selected
  ones as a list of transaction id and index.\<close>

definition flat :: "(string, (int, int) gomap) gomap \<Rightarrow> (string \<times> int \<times> int) list" where
  "flat m = concat (map (\<lambda>(t, os). map (Pair t) os) m)"

definition out_id :: "string \<times> int \<times> int \<Rightarrow> string \<times> int" where
  "out_id x = (fst x, fst (snd x))"

definition vsum :: "(string \<times> int \<times> int) list \<Rightarrow> int" where
  "vsum p = sum_list (map (\<lambda>x. snd (snd x)) p)"

definition ids_of :: "(string, int list) gomap \<Rightarrow> (string \<times> int) list" where
  "ids_of m = concat (map (\<lambda>(t, is). map (\<lambda>i. (t, i)) is) m)"

lemma flat_simps [simp]:
  "flat [] = []" "flat ((t, os) # m) = map (Pair t) os @ flat m"
  "flat (m @ m') = flat m @ flat m'"
  by (simp_all add: flat_def)

lemma vsum_simps [simp]: "vsum [] = 0" "vsum (x # p) = snd (snd x) + vsum p" "vsum (p @ q) = vsum p + vsum q"
  by (simp_all add: vsum_def)

lemma ids_of_simps [simp]: "ids_of [] = []" "ids_of ((t, is) # m) = map (\<lambda>i. (t, i)) is @ ids_of m"
  by (simp_all add: ids_of_def)

lemma ids_of_fresh: "gget m t = None \<Longrightarrow> ids_of (gput t [i] m) = ids_of m @ [(t, i)]"
  by (induction m) (auto split: if_splits)

lemma append_at_ids:
  "wf_map m \<Longrightarrow> wf_map (append_at t i m) \<and> mset (ids_of (append_at t i m)) = add_mset (t, i) (mset (ids_of m))"
proof (induction m)
  case Nil
  then show ?case by (simp add: append_at_def)
next
  case (Cons x m)
  obtain k l where x: "x = (k, l)" by (cases x)
  show ?case
  proof (cases "k = t")
    case True
    with x Cons.prems show ?thesis by (simp add: append_at_def)
  next
    case False
    with x have eq: "append_at t i (x # m) = x # append_at t i m"
      by (simp add: append_at_def)
    have "fst ` set (append_at t i m) = insert t (fst ` set m)"
      by (simp add: append_at_def dom_update)
    with eq x False Cons show ?thesis by auto
  qed
qed

lemma spend_outs_spec:
  assumes "spend_outs amount txid outs acc blc un = (acc', blc', un', left)" and "wf_map un"
  shows "\<exists>p. outs = p @ left \<and> acc' = acc + sum_list (map snd p) \<and> blc' = blc - sum_list (map snd p) \<and>
           wf_map un' \<and> mset (ids_of un') = mset (ids_of un) + mset (map (\<lambda>x. (txid, fst x)) p) \<and>
           (acc' > amount \<or> left = [])"
  using assms
proof (induction outs arbitrary: acc blc un)
  case Nil
  then show ?case by simp
next
  case (Cons x outs)
  obtain i v where x: "x = (i, v)" by (cases x)
  note ap = append_at_ids [OF Cons.prems(2), of txid i]
  show ?case
  proof (cases "acc + v > amount")
    case True
    with Cons.prems(1) x ap show ?thesis by (intro exI [of _ "[x]"]) auto
  next
    case False
    with Cons.prems(1) x
    have r: "spend_outs amount txid outs (acc + v) (blc - v) (append_at txid i un) = (acc', blc', un', left)"
      by simp
    from Cons.IH [OF r] ap obtain p where p: "outs = p @ left"
      "acc' = acc + v + sum_list (map snd p)" "blc' = blc - v - sum_list (map snd p)" "wf_map un'"
      "mset (ids_of un') = add_mset (txid, i) (mset (ids_of un)) + mset (map (\<lambda>x. (txid, fst x)) p)"
      "acc' > amount \<or> left = []" by auto
    with x show ?thesis by (intro exI [of _ "x # p"]) auto
  qed
qed

lemma sum_snd_map: "sum_list (map snd p) = vsum (map (Pair t) p)"
  by (induction p) auto

lemma out_id_map: "map out_id (map (Pair t) p) = map (\<lambda>x. (t, fst x)) p"
  by (simp add: out_id_def)

lemma spend_txs_spec:
  assumes "spend_txs amount m acc blc un = (acc', blc', un', m')" and "wf_map un"
  shows "\<exists>p. flat m = p @ flat m' \<and> acc' = acc + vsum p \<and> blc' = blc - vsum p \<and> wf_map un' \<and>
           mset (ids_of un') = mset (ids_of un) + mset (map out_id p) \<and> (acc' > amount \<or> flat m' = [])"
  using assms
proof (induction m arbitrary: acc blc un acc' blc' un' m')
  case Nil
  then show ?case by auto
next
  case (Cons x m)
  obtain t os where x: "x = (t, os)" by (cases x)
  obtain acc1 blc1 un1 left where so: "spend_outs amount t os acc blc un = (acc1, blc1, un1, left)"
    by (metis prod_cases4)
  obtain p where p: "os = p @ left" "acc1 = acc + sum_list (map snd p)"
    "blc1 = blc - sum_list (map snd p)" "wf_map un1"
    "mset (ids_of un1) = mset (ids_of un) + mset (map (\<lambda>x. (t, fst x)) p)"
    "acc1 > amount \<or> left = []" using spend_outs_spec [OF so Cons.prems(2)] by blast
  let ?q = "map (Pair t) p"
  note q = sum_snd_map [of p t] out_id_map [of t p]
  show ?case
  proof (cases "acc1 > amount")
    case True
    with Cons.prems(1) x so have "acc' = acc1" "blc' = blc1" "un' = un1"
      "flat m' = map (Pair t) left @ flat m" by (auto simp: Let_def)
    with x p q True show ?thesis by (intro exI [of _ ?q]) (simp del: map_map)
  next
    case False
    obtain acc2 blc2 un2 rest where st: "spend_txs amount m acc1 blc1 un1 = (acc2, blc2, un2, rest)"
      by (metis prod_cases4)
    obtain p' where p': "flat m = p' @ flat rest" "acc2 = acc1 + vsum p'" "blc2 = blc1 - vsum p'"
      "wf_map un2" "mset (ids_of un2) = mset (ids_of un1) + mset (map out_id p')"
      "acc2 > amount \<or> flat rest = []" using Cons.IH [OF st p(4)] by blast
    have "left = []" using False p(6) by simp
    with Cons.prems(1) x so st False have "acc' = acc2" "blc' = blc2" "un' = un2" "m' = rest" by auto
    with x p p' q \<open>left = []\<close> show ?thesis by (intro exI [of _ "?q @ p'"]) (simp del: map_map)
  qed
qed

section \<open>The account invariant\<close>

definition acct_ok :: "UTXOAccountState \<Rightarrow> bool" where
  "acct_ok s \<longleftrightarrow>
     wf_map (UAS_UTXOs s) \<and>
     (\<forall>(t, os) \<in> set (UAS_UTXOs s). wf_map os \<and> os \<noteq> [] \<and> (\<exists>x. t = hexEncode x)) \<and>
     UAS_Balance s = vsum (flat (UAS_UTXOs s))"

lemma spend_outs_left:
  "spend_outs amount txid outs acc blc un = (acc', blc', un', left) \<Longrightarrow> wf_map outs \<Longrightarrow> wf_map left"
  by (induction outs arbitrary: acc blc un) (auto split: if_splits)

lemma spend_txs_shape:
  assumes "spend_txs amount m acc blc un = (acc', blc', un', m')"
    and "wf_map m" and "\<forall>(t, os) \<in> set m. wf_map os \<and> os \<noteq> [] \<and> (\<exists>x. t = hexEncode x)"
  shows "wf_map m' \<and> (\<forall>(t, os) \<in> set m'. wf_map os \<and> os \<noteq> [] \<and> (\<exists>x. t = hexEncode x)) \<and>
         fst ` set m' \<subseteq> fst ` set m"
  using assms
proof (induction m arbitrary: acc blc un acc' blc' un' m')
  case Nil
  then show ?case by simp
next
  case (Cons x m)
  obtain t os where x: "x = (t, os)" by (cases x)
  obtain acc1 blc1 un1 left where so: "spend_outs amount t os acc blc un = (acc1, blc1, un1, left)"
    by (metis prod_cases4)
  have wl: "wf_map left" using spend_outs_left [OF so] Cons.prems(3) x by auto
  obtain acc2 blc2 un2 rest where st: "spend_txs amount m acc1 blc1 un1 = (acc2, blc2, un2, rest)"
    by (metis prod_cases4)
  have ih: "wf_map rest" "\<forall>(t, os) \<in> set rest. wf_map os \<and> os \<noteq> [] \<and> (\<exists>x. t = hexEncode x)"
    "fst ` set rest \<subseteq> fst ` set m" using Cons.IH [OF st] Cons.prems(2,3) x by auto
  have "m' = (if left = [] then [] else [(t, left)]) @ (if acc1 > amount then m else rest)"
    using Cons.prems(1) x so st by (auto simp: Let_def)
  then show ?case using ih wl Cons.prems(2,3) x by auto
qed

lemma flat_keys: "x \<in> set (flat m) \<Longrightarrow> fst x \<in> fst ` set m"
  by (force simp: flat_def)

lemma flat_ids_distinct:
  "wf_map m \<Longrightarrow> \<forall>(t, os) \<in> set m. wf_map os \<Longrightarrow> distinct (map out_id (flat m))"
proof (induction m)
  case Nil
  then show ?case by simp
next
  case (Cons x m)
  obtain t os where x: "x = (t, os)" by (cases x)
  have "distinct (map (\<lambda>x. (t, fst x)) os)"
    using Cons.prems(2) x by (auto simp: wf_map_def distinct_map inj_on_def)
  then have "distinct (map out_id (map (Pair t) os))" by (simp only: out_id_map)
  moreover have "set (map out_id (map (Pair t) os)) \<inter> set (map out_id (flat m)) = {}"
    using Cons.prems(1) x flat_keys [of _ m] by (auto simp: out_id_def)
  ultimately show ?case using Cons x by (simp del: map_map)
qed

lemma acct_ok_spend:
  assumes "acct_ok s" and "spend_txs amount (UAS_UTXOs s) 0 (UAS_Balance s) [] = (acc, blc, un, m)"
  shows "acct_ok (s\<lparr>UAS_Balance := blc, UAS_UTXOs := m\<rparr>)"
proof -
  obtain p where "flat (UAS_UTXOs s) = p @ flat m" "blc = UAS_Balance s - vsum p"
    using spend_txs_spec [OF assms(2)] by auto
  then show ?thesis using spend_txs_shape [OF assms(2)] assms(1) by (simp add: acct_ok_def)
qed

lemma spend_enough:
  assumes "acct_ok s" and "amount \<le> UAS_Balance s"
    and "spend_txs amount (UAS_UTXOs s) 0 (UAS_Balance s) [] = (acc, blc, un, m)"
  shows "amount \<le> acc" and "blc = UAS_Balance s - acc"
proof -
  obtain p where p: "flat (UAS_UTXOs s) = p @ flat m" "blc = UAS_Balance s - vsum p" "acc = vsum p"
    "acc > amount \<or> flat m = []" using spend_txs_spec [OF assms(3)] by auto
  then show "amount \<le> acc" "blc = UAS_Balance s - acc" using assms(1,2) by (auto simp: acct_ok_def)
qed

section \<open>Balances of the UTXO state\<close>

definition ubal :: "('t, 'd, 'b) env \<Rightarrow> 't \<Rightarrow> bytes \<Rightarrow> int" where
  "ubal E st k = (case T_get E st k of Some (GobUAS s) \<Rightarrow> UAS_Balance s | _ \<Rightarrow> 0)"

definition wf_ustate :: "('t, 'd, 'b) env \<Rightarrow> 't \<Rightarrow> bool" where
  "wf_ustate E st \<longleftrightarrow> (\<forall>k g. T_get E st k = Some g \<longrightarrow> (\<exists>s. g = GobUAS s \<and> acct_ok s))"

text \<open>No account has an output of this transaction with an index from \<open>n\<close> on.\<close>

definition fresh_from :: "('t, 'd, 'b) env \<Rightarrow> 't \<Rightarrow> string \<Rightarrow> nat \<Rightarrow> bool" where
  "fresh_from E st txid n \<longleftrightarrow>
     (\<forall>k s. T_get E st k = Some (GobUAS s) \<longrightarrow>
        (\<forall>x \<in> set (flat (UAS_UTXOs s)). fst x = txid \<longrightarrow> fst (snd x) < int n))"

lemma new_UAS_ok [simp]: "acct_ok (new_UAS pk r)" "UAS_Balance (new_UAS pk r) = 0" "UAS_UTXOs (new_UAS pk r) = []"
  by (simp_all add: acct_ok_def new_UAS_def)

lemma vsum_flat_gput:
  assumes "wf_map m"
  shows "vsum (flat (gput t os m)) = vsum (flat m) - (case gget m t of None \<Rightarrow> 0 | Some o0 \<Rightarrow> sum_list (map snd o0))
           + sum_list (map snd os)"
  using assms by (induction m) (auto simp: sum_snd_map [of _ t] split: option.splits)

lemma sum_gput_fresh: "i \<notin> fst ` set m \<Longrightarrow> sum_list (map snd (gput i (v :: int) m)) = sum_list (map snd m) + v"
  by (induction m) auto

lemma gput_set: "wf_map m \<Longrightarrow> (t, os) \<in> set (gput k v m) \<Longrightarrow> (t = k \<and> os = v) \<or> (t, os) \<in> set m"
  by (metis gget_gput gget_set option.inject wf_map_gput)

lemma gput_not_Nil [simp]: "gput k v m \<noteq> []"
  by (cases m) auto

lemma add_out_ok:
  assumes "acct_ok s" and "\<And>m. gget (UAS_UTXOs s) (hexEncode x) = Some m \<Longrightarrow> int n \<notin> fst ` set m"
  shows "acct_ok (add_out (hexEncode x) n Vout s)"
    and "UAS_Balance (add_out (hexEncode x) n Vout s) = UAS_Balance s + Out_Value Vout"
proof -
  let ?t = "hexEncode x" and ?u = "UAS_UTXOs s" and ?v = "Out_Value Vout"
  define m where "m = (case gget ?u ?t of None \<Rightarrow> [(int n, ?v)] | Some m \<Rightarrow> gput (int n) ?v m)"
  have s': "add_out ?t n Vout s = s\<lparr>UAS_UTXOs := gput ?t m ?u, UAS_Balance := UAS_Balance s + ?v\<rparr>"
    by (simp add: add_out_def m_def)
  have ok: "wf_map ?u" "\<forall>(t, os) \<in> set ?u. wf_map os \<and> os \<noteq> [] \<and> (\<exists>x. t = hexEncode x)"
    "UAS_Balance s = vsum (flat ?u)" using assms(1) by (simp_all add: acct_ok_def)
  have m: "wf_map m \<and> m \<noteq> []"
    using ok(1,2) by (fastforce simp: m_def dest: map_of_SomeD split: option.splits)
  have "sum_list (map snd m) = (case gget ?u ?t of None \<Rightarrow> 0 | Some o0 \<Rightarrow> sum_list (map snd o0)) + ?v"
    using assms(2) sum_gput_fresh by (auto simp: m_def split: option.splits)
  then have "vsum (flat (gput ?t m ?u)) = UAS_Balance s + ?v" using vsum_flat_gput [OF ok(1)] ok(3) by simp
  moreover have "\<forall>(t, os) \<in> set (gput ?t m ?u). wf_map os \<and> os \<noteq> [] \<and> (\<exists>x. t = hexEncode x)"
    using gput_set [OF ok(1)] ok(2) m by blast
  ultimately show "acct_ok (add_out ?t n Vout s)" using ok(1) s' by (auto simp: acct_ok_def)
  show "UAS_Balance (add_out ?t n Vout s) = UAS_Balance s + ?v" by (simp add: s')
qed

definition pay_out :: "TxOut \<Rightarrow> (bytes \<Rightarrow> int) \<Rightarrow> bytes \<Rightarrow> int" where
  "pay_out Vout f = f(Out_PubKeyHash Vout := f (Out_PubKeyHash Vout) + Out_Value Vout)"

lemma wf_ustate_put:
  "trie_laws E \<Longrightarrow> wf_ustate E st \<Longrightarrow> acct_ok s \<Longrightarrow> wf_ustate E (T_put E st k (GobUAS s))"
  by (simp add: wf_ustate_def env_simps)

lemma ubal_put: "trie_laws E \<Longrightarrow> ubal E (T_put E st k (GobUAS s)) = (ubal E st)(k := UAS_Balance s)"
  by (simp add: ubal_def env_simps fun_eq_iff)

lemma flat_mem: "(t, y) \<in> set (flat m) \<longleftrightarrow> (\<exists>os. (t, os) \<in> set m \<and> y \<in> set os)"
  by (force simp: flat_def)

lemma add_out_new_ids:
  assumes wf: "wf_map (UAS_UTXOs s)"
    and old: "\<And>y. (t, y) \<in> set (flat (UAS_UTXOs s)) \<Longrightarrow> fst y < int n"
    and new: "(t, y) \<in> set (flat (UAS_UTXOs (add_out t n Vout s)))"
  shows "fst y < int (Suc n)"
proof -
  let ?u = "UAS_UTXOs s" and ?v = "Out_Value Vout"
  define m where "m = (case gget ?u t of None \<Rightarrow> [(int n, ?v)] | Some m \<Rightarrow> gput (int n) ?v m)"
  have "UAS_UTXOs (add_out t n Vout s) = gput t m ?u" by (simp add: add_out_def m_def)
  with new obtain os where os: "(t, os) \<in> set (gput t m ?u)" "y \<in> set os" by (auto simp: flat_mem)
  then have "os = m" using gget_set [OF wf_map_gput [OF wf]] by (metis gget_gput option.inject)
  show ?thesis
  proof (cases "gget ?u t")
    case None
    with os \<open>os = m\<close> show ?thesis by (auto simp: m_def)
  next
    case (Some m0)
    then have "fst y \<in> fst ` set (gput (int n) ?v m0)" using os \<open>os = m\<close> by (simp add: m_def)
    then have "fst y = int n \<or> fst y \<in> fst ` set m0" by (simp add: dom_update)
    moreover have "fst z < int n" if "z \<in> set m0" for z
      using old [of z] that map_of_SomeD [OF Some] by (auto simp: flat_mem)
    ultimately show ?thesis by force
  qed
qed

lemma add_vout_ok:
  assumes laws: "trie_laws E" and wf: "wf_ustate E st" and fr: "fresh_from E st (hexEncode x) n"
  shows "\<exists>st'. add_vout E rnd x (n, Vout) st = Inr st' \<and> wf_ustate E st' \<and>
           fresh_from E st' (hexEncode x) (Suc n) \<and> ubal E st' = pay_out Vout (ubal E st)"
proof -
  let ?k = "Out_PubKeyHash Vout"
  obtain s where s: "(case T_get E st ?k of None \<Rightarrow> Inr (new_UAS ?k (rnd n)) | Some enc \<Rightarrow> DecodeUAS enc) = Inr s"
    and ok: "acct_ok s" and b: "UAS_Balance s = ubal E st ?k"
    and ids: "\<And>y. (hexEncode x, y) \<in> set (flat (UAS_UTXOs s)) \<Longrightarrow> fst y < int n"
  proof (cases "T_get E st ?k")
    case None
    then show ?thesis using that [of "new_UAS ?k (rnd n)"] by (simp add: ubal_def)
  next
    case (Some g)
    then obtain s where g: "g = GobUAS s" "acct_ok s" using wf by (auto simp: wf_ustate_def)
    show ?thesis
      by (rule that [of s]) (use Some g fr in \<open>fastforce simp: ubal_def fresh_from_def\<close>)+
  qed
  let ?s' = "add_out (hexEncode x) n Vout s" and ?st' = "T_put E st ?k (GobUAS (add_out (hexEncode x) n Vout s))"
  have new_index: "int n \<notin> fst ` set m" if "gget (UAS_UTXOs s) (hexEncode x) = Some m" for m
    using ids map_of_SomeD [OF that] by (fastforce simp: flat_mem)
  have s': "acct_ok ?s'" "UAS_Balance ?s' = UAS_Balance s + Out_Value Vout"
    using add_out_ok [OF ok, of x n Vout] new_index by blast+
  have "fresh_from E ?st' (hexEncode x) (Suc n)"
    unfolding fresh_from_def trie_get_put [OF laws]
  proof (intro allI impI ballI)
    fix k s0 z
    assume g: "(if k = ?k then Some (GobUAS ?s') else T_get E st k) = Some (GobUAS s0)"
      and z: "z \<in> set (flat (UAS_UTXOs s0))" "fst z = hexEncode x"
    show "fst (snd z) < int (Suc n)"
    proof (cases "k = ?k")
      case True
      with g z have "(hexEncode x, snd z) \<in> set (flat (UAS_UTXOs ?s'))" by (metis gob.inject(2) option.inject prod.collapse)
      from add_out_new_ids [OF _ ids this] ok show ?thesis by (simp add: acct_ok_def)
    next
      case False
      with g z fr show ?thesis by (fastforce simp: fresh_from_def)
    qed
  qed
  moreover have "add_vout E rnd x (n, Vout) st = Inr ?st'" using s by (simp add: add_vout_def)
  moreover have "ubal E ?st' = pay_out Vout (ubal E st)"
    using b s'(2) by (simp add: ubal_put [OF laws] pay_out_def)
  ultimately show ?thesis using wf_ustate_put [OF laws wf s'(1)] by blast
qed

lemma add_vouts_ok:
  assumes laws: "trie_laws E" and "wf_ustate E st" and "fresh_from E st (hexEncode x) n"
  shows "\<exists>st'. rfold (add_vout E rnd x) (enumerate n outs) st = Inr st' \<and> wf_ustate E st' \<and>
           ubal E st' = fold pay_out outs (ubal E st)"
  using assms(2,3)
proof (induction outs arbitrary: n st)
  case Nil
  then show ?case by simp
next
  case (Cons out outs)
  obtain st1 where st1: "add_vout E rnd x (n, out) st = Inr st1" "wf_ustate E st1"
    "fresh_from E st1 (hexEncode x) (Suc n)" "ubal E st1 = pay_out out (ubal E st)"
    using add_vout_ok [OF laws Cons.prems] by blast
  from Cons.IH [OF st1(2,3)] st1 show ?case by auto
qed

section \<open>The state after each operation\<close>

lemma wf_ustate_cong: "T_get E t = T_get E s \<Longrightarrow> wf_ustate E t = wf_ustate E s"
  by (simp add: wf_ustate_def)

lemma ubal_cong: "T_get E t = T_get E s \<Longrightarrow> ubal E t = ubal E s"
  by (simp add: ubal_def fun_eq_iff)

lemma fresh_from_cong: "T_get E t = T_get E s \<Longrightarrow> fresh_from E t = fresh_from E s"
  by (simp add: fresh_from_def fun_eq_iff)

lemma commit_utxo_root_ok:
  assumes "trie_laws E"
  shows "\<exists>bc' t. commit_utxo_root E st d bc = Inr bc' \<and> opens E bc' (UTXOStateRoot bc') t \<and>
           T_get E t = T_get E st"
proof -
  obtain d' t where c: "commit_trie E st d = Inr (T_root E st, d')" "T_new E (T_root E st) d' = Some t"
    "T_get E t = T_get E st" using commit_trie_ok [OF assms] by blast
  then show ?thesis
    by (auto simp: commit_utxo_root_def opens_def trie_root_hash [OF assms])
qed

lemma AddUTXO2StatusTrie_ok:
  assumes laws: "trie_laws E" and opn: "opens E bc (UTXOStateRoot bc) st" and wf: "wf_ustate E st"
    and fr: "fresh_from E st (hexEncode (U_TxId tx)) 0"
  shows "\<exists>bc' st'. AddUTXO2StatusTrie E rnd (Some tx) bc = Inr bc' \<and>
           opens E bc' (UTXOStateRoot bc') st' \<and> wf_ustate E st' \<and>
           ubal E st' = fold pay_out (U_Vout tx) (ubal E st)"
proof -
  obtain d where d: "open_trie E (UTXOStateRoot bc) bc = Inr (st, d)" using open_trie_ok [OF opn] by blast
  obtain st1 where st1: "rfold (add_vout E rnd (U_TxId tx)) (enumerate 0 (U_Vout tx)) st = Inr st1"
    "wf_ustate E st1" "ubal E st1 = fold pay_out (U_Vout tx) (ubal E st)"
    using add_vouts_ok [OF laws wf fr] by blast
  obtain bc' t where c: "commit_utxo_root E st1 d bc = Inr bc'" "opens E bc' (UTXOStateRoot bc') t"
    "T_get E t = T_get E st1" using commit_utxo_root_ok [OF laws] by blast
  have "AddUTXO2StatusTrie E rnd (Some tx) bc = Inr bc'"
    using d st1(1) c(1) by (simp add: AddUTXO2StatusTrie_def)
  with c(2) st1(2,3) wf_ustate_cong [OF c(3)] ubal_cong [OF c(3)] show ?thesis by auto
qed

text \<open>\<open>picks\<close>: between two states, exactly the outputs \<open>p\<close> were taken from an account.\<close>

definition picks ::
    "('t, 'd, 'b) env \<Rightarrow> 't \<Rightarrow> 't \<Rightarrow> bytes \<Rightarrow> (string \<times> int \<times> int) list \<Rightarrow> bool" where
  "picks E st st' pk p \<longleftrightarrow>
     (\<exists>s s'. T_get E st pk = Some (GobUAS s) \<and> T_get E st' = (T_get E st)(pk \<mapsto> GobUAS s') \<and>
             flat (UAS_UTXOs s) = p @ flat (UAS_UTXOs s'))"

lemma FindSpendable_short:
  assumes laws: "trie_laws E" and opn: "opens E bc (UTXOStateRoot bc) st" and wf: "wf_ustate E st"
    and amt: "ubal E st pk < amount"
  shows "\<exists>acc bc' st'. FindSpendableOutputsFromStatusTrie E rnd pk amount bc = Inr ((acc, []), bc') \<and>
           (acc = -1 \<or> acc = 0) \<and> opens E bc' (UTXOStateRoot bc') st' \<and> wf_ustate E st' \<and>
           ubal E st' = ubal E st \<and> (\<forall>t n. fresh_from E st t n \<longrightarrow> fresh_from E st' t n)"
proof (cases "T_get E st pk")
  case None
  let ?st1 = "T_put E st pk (GobUAS (new_UAS pk rnd))"
  obtain d where d: "open_trie E (UTXOStateRoot bc) bc = Inr (st, d)" using open_trie_ok [OF opn] by blast
  obtain bc' t where c: "commit_utxo_root E ?st1 d bc = Inr bc'" "opens E bc' (UTXOStateRoot bc') t"
    "T_get E t = T_get E ?st1" using commit_utxo_root_ok [OF laws] by blast
  have "FindSpendableOutputsFromStatusTrie E rnd pk amount bc = Inr ((-1, []), bc')"
    using d None c(1) by (simp add: FindSpendableOutputsFromStatusTrie_def)
  moreover have "wf_ustate E t" using wf_ustate_put [OF laws wf] wf_ustate_cong [OF c(3)] by simp
  moreover have "ubal E t = ubal E st"
    using ubal_cong [OF c(3)] ubal_put [OF laws] None by (auto simp: ubal_def)
  moreover have "fresh_from E t x n" if "fresh_from E st x n" for x n
    unfolding fresh_from_cong [OF c(3)] using that
    by (auto simp: fresh_from_def trie_get_put [OF laws] split: if_splits)
  ultimately show ?thesis using c(2) by blast
next
  case (Some g)
  with wf obtain s where s: "g = GobUAS s" by (auto simp: wf_ustate_def)
  then have "UAS_Balance s < amount" using amt Some by (simp add: ubal_def)
  then show ?thesis using Some s opn wf open_trie_ok [OF opn]
    by (fastforce simp: FindSpendableOutputsFromStatusTrie_def)
qed

section \<open>A transaction moves value\<close>

definition utxo_transfer :: "bytes \<Rightarrow> bytes \<Rightarrow> int \<Rightarrow> (bytes \<Rightarrow> int) \<Rightarrow> bytes \<Rightarrow> int" where
  "utxo_transfer s r amount f =
     (let f1 = (if amount \<le> f s then f(s := f s - amount) else f) in f1(r := f1 r + amount))"

definition in_key :: "TxIn \<Rightarrow> string \<times> int" where
  "in_key i = (hexEncode (In_PrevTxId i), In_Index i)"

definition permutes_maps :: "((string, int list) gomap \<Rightarrow> (string, int list) gomap) \<Rightarrow> bool" where
  "permutes_maps ord \<longleftrightarrow> (\<forall>m. mset (ord m) = mset m)"

lemma in_key_simp [simp]:
  "in_key \<lparr>In_PrevTxId = a, In_Index = i, In_Signature = s, In_PubKey = q\<rparr> = (hexEncode a, i)"
  by (simp add: in_key_def)

lemma build_inputs_ok:
  assumes "\<forall>(t, l) \<in> set m. \<exists>x. t = hexEncode x"
  shows "\<exists>ins. build_inputs pk m = Inr ins \<and> map in_key ins = ids_of m"
  using assms
proof (induction m)
  case Nil
  then show ?case by simp
next
  case (Cons x m)
  obtain y l where x: "x = (hexEncode y, l)" using Cons.prems by (cases x) auto
  from Cons obtain ins where "build_inputs pk m = Inr ins" "map in_key ins = ids_of m" by auto
  with x show ?case by (simp add: comp_def)
qed

lemma ids_of_sum: "mset (ids_of m) = sum_mset (image_mset (\<lambda>(t, l). mset (map (Pair t) l)) (mset m))"
  by (induction m) auto

lemma ids_of_mset: "mset m = mset m' \<Longrightarrow> mset (ids_of m) = mset (ids_of m')"
  by (simp add: ids_of_sum)

lemma picks_fresh:
  assumes "picks E st st' pk p" and "fresh_from E st t n"
  shows "fresh_from E st' t n"
proof -
  obtain s s' where g: "T_get E st pk = Some (GobUAS s)" "T_get E st' = (T_get E st)(pk \<mapsto> GobUAS s')"
    and f: "flat (UAS_UTXOs s) = p @ flat (UAS_UTXOs s')" using assms(1) by (auto simp: picks_def)
  have "fst (snd x) < int n" if "x \<in> set (flat (UAS_UTXOs s'))" "fst x = t" for x
    using assms(2) g(1) f that unfolding fresh_from_def by (metis Un_iff set_append)
  then show ?thesis using assms(2) g(2) unfolding fresh_from_def by (auto split: if_splits)
qed

lemma ids_of_keys:
  assumes "mset (ids_of un) = mset (map out_id p)" and "(t, l) \<in> set un" and "l \<noteq> []"
  shows "\<exists>x \<in> set p. fst x = t"
proof -
  obtain i where "i \<in> set l" using assms(3) by (cases l) auto
  then have "(t, i) \<in> set (ids_of un)" using assms(2) by (force simp: ids_of_def)
  then have "(t, i) \<in> set (map out_id p)" using assms(1) by (metis mset_eq_setD)
  then show ?thesis by (auto simp: out_id_def)
qed

text \<open>Every entry of the map of selected outputs has at least one index.\<close>

lemma append_at_nonempty:
  "wf_map m \<Longrightarrow> \<forall>(t, l) \<in> set m. l \<noteq> [] \<Longrightarrow> \<forall>(t, l) \<in> set (append_at x i m). l \<noteq> []"
  using gput_set [of m] unfolding append_at_def by blast

lemma spend_outs_nonempty:
  assumes "spend_outs amount txid outs acc blc un = (acc', blc', un', left)" and "wf_map un"
    and "\<forall>(t, l) \<in> set un. l \<noteq> []"
  shows "\<forall>(t, l) \<in> set un'. l \<noteq> []"
  using assms
proof (induction outs arbitrary: acc blc un)
  case (Cons x outs)
  then show ?case
    using append_at_nonempty [OF Cons.prems(2,3)] append_at_ids [OF Cons.prems(2)]
    by (cases x) (fastforce split: if_splits)
qed simp

lemma spend_txs_nonempty:
  assumes "spend_txs amount m acc blc un = (acc', blc', un', m')" and "wf_map un"
    and "\<forall>(t, l) \<in> set un. l \<noteq> []"
  shows "\<forall>(t, l) \<in> set un'. l \<noteq> []"
  using assms
proof (induction m arbitrary: acc blc un acc' blc' un' m')
  case (Cons x m)
  obtain t os where x: "x = (t, os)" by (cases x)
  obtain acc1 blc1 un1 left where so: "spend_outs amount t os acc blc un = (acc1, blc1, un1, left)"
    by (metis prod_cases4)
  note un1 = spend_outs_nonempty [OF so Cons.prems(2,3)] spend_outs_spec [OF so Cons.prems(2)]
  obtain acc2 blc2 un2 rest where st: "spend_txs amount m acc1 blc1 un1 = (acc2, blc2, un2, rest)"
    by (metis prod_cases4)
  have "un' = un1 \<or> un' = un2" using Cons.prems(1) x so st by (auto simp: Let_def split: if_splits)
  with Cons.IH [OF st] un1 show ?case by blast
qed simp

lemma FindSpendable_funded:
  assumes laws: "trie_laws E" and opn: "opens E bc (UTXOStateRoot bc) st" and wf: "wf_ustate E st"
    and amt: "0 < amount" "amount \<le> ubal E st pk"
  shows "\<exists>acc un bc' st' p. FindSpendableOutputsFromStatusTrie E rnd pk amount bc = Inr ((acc, un), bc') \<and>
           amount \<le> acc \<and> opens E bc' (UTXOStateRoot bc') st' \<and> wf_ustate E st' \<and>
           ubal E st' = (ubal E st)(pk := ubal E st pk - acc) \<and>
           picks E st st' pk p \<and> acc = vsum p \<and> mset (ids_of un) = mset (map out_id p) \<and>
           (\<forall>(t, l) \<in> set un. \<exists>x. t = hexEncode x)"
proof -
  obtain s where g: "T_get E st pk = Some (GobUAS s)" and b: "UAS_Balance s = ubal E st pk"
    using amt wf by (auto simp: ubal_def wf_ustate_def split: option.splits gob.splits)
  then have ok: "acct_ok s" using wf by (auto simp: wf_ustate_def)
  obtain acc blc un m where sp: "spend_txs amount (UAS_UTXOs s) 0 (UAS_Balance s) [] = (acc, blc, un, m)"
    by (metis prod_cases4)
  let ?s' = "s\<lparr>UAS_Balance := blc, UAS_UTXOs := m\<rparr>"
  let ?st1 = "T_put E st pk (GobUAS ?s')"
  obtain d where d: "open_trie E (UTXOStateRoot bc) bc = Inr (st, d)" using open_trie_ok [OF opn] by blast
  obtain bc' t where c: "commit_utxo_root E ?st1 d bc = Inr bc'" "opens E bc' (UTXOStateRoot bc') t"
    "T_get E t = T_get E ?st1" using commit_utxo_root_ok [OF laws] by blast
  have f: "FindSpendableOutputsFromStatusTrie E rnd pk amount bc = Inr ((acc, un), bc')"
    using d g sp b amt c(1) by (simp add: FindSpendableOutputsFromStatusTrie_def)
  obtain p where p: "flat (UAS_UTXOs s) = p @ flat m" "acc = vsum p"
    "mset (ids_of un) = mset (map out_id p)" using spend_txs_spec [OF sp] by auto
  have "amount \<le> acc" "blc = ubal E st pk - acc" using spend_enough [OF ok _ sp] b amt(2) by auto
  moreover have "wf_ustate E t"
    using wf_ustate_put [OF laws wf acct_ok_spend [OF ok sp]] wf_ustate_cong [OF c(3)] by simp
  moreover have "ubal E t = (ubal E st)(pk := blc)" using ubal_cong [OF c(3)] ubal_put [OF laws] by simp
  moreover have "picks E st t pk p"
    unfolding picks_def c(3) using g p(1) by (intro exI [of _ s] exI [of _ ?s']) (simp add: T_get_put_fun [OF laws])
  moreover have "\<forall>(t, l) \<in> set un. \<exists>x. t = hexEncode x"
  proof (clarify)
    fix t l assume "(t, l) \<in> set un"
    with spend_txs_nonempty [OF sp] ids_of_keys [OF p(3)] obtain y where "y \<in> set p" "fst y = t" by fastforce
    then have "t \<in> fst ` set (UAS_UTXOs s)" using p(1) flat_keys [of y "UAS_UTXOs s"] by auto
    with ok show "\<exists>x. t = hexEncode x" by (auto simp: acct_ok_def)
  qed
  ultimately show ?thesis using f c(2) p(2,3) by blast
qed

definition utxo_tx_of ::
    "('t, 'd, 'b) env \<Rightarrow> string \<Rightarrow> string \<Rightarrow> int \<Rightarrow> int \<Rightarrow> TxIn list \<Rightarrow> UTXOTransaction \<Rightarrow> bool" where
  "utxo_tx_of E from to amount acc ins tx \<longleftrightarrow>
     U_Vin tx = ins \<and> U_Recipient tx = to \<and>
     U_Vout tx = \<lparr>Out_Value = amount, Out_PubKeyHash = sha_str E to\<rparr> #
       (if acc > amount then [\<lparr>Out_Value = acc - amount, Out_PubKeyHash = sha_str E from\<rparr>] else [])"

lemma NewUTXOTransaction_funded:
  assumes laws: "trie_laws E" and opn: "opens E bc (UTXOStateRoot bc) st" and wf: "wf_ustate E st"
    and amt: "0 < amount" "amount \<le> ubal E st (sha_str E from)" and perm: "permutes_maps ord"
  shows "\<exists>tx ins acc bc' st' p. NewUTXOTransaction E rnd cn ord from to amount bc = Inr ((Some tx, None), bc') \<and>
           utxo_tx_of E from to amount acc ins tx \<and> amount \<le> acc \<and> acc = vsum p \<and>
           opens E bc' (UTXOStateRoot bc') st' \<and> wf_ustate E st' \<and>
           ubal E st' = (ubal E st)(sha_str E from := ubal E st (sha_str E from) - acc) \<and>
           picks E st st' (sha_str E from) p \<and> mset (map in_key ins) = mset (map out_id p)"
proof -
  obtain acc un bc' st' p where f:
    "FindSpendableOutputsFromStatusTrie E rnd (sha_str E from) amount bc = Inr ((acc, un), bc')"
    "amount \<le> acc" "opens E bc' (UTXOStateRoot bc') st'" "wf_ustate E st'"
    "ubal E st' = (ubal E st)(sha_str E from := ubal E st (sha_str E from) - acc)"
    "picks E st st' (sha_str E from) p" "acc = vsum p" "mset (ids_of un) = mset (map out_id p)"
    "\<forall>(t, l) \<in> set un. \<exists>x. t = hexEncode x"
    using FindSpendable_funded [OF laws opn wf amt, of rnd] by (elim exE conjE) (rule that)
  have m: "mset (ord un) = mset un" using perm by (simp add: permutes_maps_def)
  then have "\<forall>(t, l) \<in> set (ord un). \<exists>x. t = hexEncode x" using f(9) by (metis mset_eq_setD)
  then obtain ins where ins: "build_inputs from (ord un) = Inr ins" "map in_key ins = ids_of (ord un)"
    using build_inputs_ok by blast
  have "\<not> (acc = -1 \<or> acc = 0)" using f(2) amt(1) by auto
  then obtain tx where tx: "NewUTXOTransaction E rnd cn ord from to amount bc = Inr ((Some tx, None), bc')"
    "utxo_tx_of E from to amount acc ins tx"
    using f(1) ins(1) by (simp add: NewUTXOTransaction_def utxo_tx_of_def Let_def)
  have "mset (map in_key ins) = mset (map out_id p)"
    using ins(2) ids_of_mset [OF m] f(8) by simp
  then show ?thesis using tx f(2-7)
    by (intro exI [of _ tx] exI [of _ ins] exI [of _ acc] exI [of _ bc'] exI [of _ st'] exI [of _ p]) simp
qed

lemma NewUTXOTransaction_short:
  assumes laws: "trie_laws E" and opn: "opens E bc (UTXOStateRoot bc) st" and wf: "wf_ustate E st"
    and amt: "ubal E st (sha_str E from) < amount" and perm: "permutes_maps ord"
  shows "\<exists>tx cb ins bc' st'. NewUTXOTransaction E rnd cn ord from to amount bc = Inr ((Some tx, Some cb), bc') \<and>
           cb = NewCoinbaseTX (sha_utxo E) cn (sha_str E from) amount None \<and>
           utxo_tx_of E from to amount amount ins tx \<and> map in_key ins = [(hexEncode (U_TxId cb), 0)] \<and>
           opens E bc' (UTXOStateRoot bc') st' \<and> wf_ustate E st' \<and> ubal E st' = ubal E st \<and>
           (\<forall>t n. fresh_from E st t n \<longrightarrow> fresh_from E st' t n)"
proof -
  obtain acc bc' st' where f:
    "FindSpendableOutputsFromStatusTrie E rnd (sha_str E from) amount bc = Inr ((acc, []), bc')"
    "acc = -1 \<or> acc = 0" "opens E bc' (UTXOStateRoot bc') st'" "wf_ustate E st'"
    "ubal E st' = ubal E st" "\<forall>t n. fresh_from E st t n \<longrightarrow> fresh_from E st' t n"
    using FindSpendable_short [OF laws opn wf amt, of rnd] by (elim exE conjE) (rule that)
  let ?cb = "NewCoinbaseTX (sha_utxo E) cn (sha_str E from) amount None"
  have "mset (ord [(hexEncode (U_TxId ?cb), [0])]) = mset [(hexEncode (U_TxId ?cb), [0])]"
    using perm by (simp add: permutes_maps_def)
  then have m: "ord [(hexEncode (U_TxId ?cb), [0])] = [(hexEncode (U_TxId ?cb), [0])]" by simp
  obtain ins where ins: "build_inputs from [(hexEncode (U_TxId ?cb), [0])] = Inr ins"
    "map in_key ins = [(hexEncode (U_TxId ?cb), 0)]"
    using build_inputs_ok [of "[(hexEncode (U_TxId ?cb), [0])]" "from"] by auto
  obtain tx where tx: "NewUTXOTransaction E rnd cn ord from to amount bc = Inr ((Some tx, Some ?cb), bc')"
    "utxo_tx_of E from to amount amount ins tx"
    using f(1,2) ins(1) m by (simp add: NewUTXOTransaction_def utxo_tx_of_def Let_def)
  then show ?thesis using ins(2) f(3-6)
    by (intro exI [of _ tx] exI [of _ ?cb] exI [of _ ins] exI [of _ bc'] exI [of _ st']) simp
qed

lemma pay_change:
  assumes "utxo_tx_of E from to amount acc ins tx" and "amount \<le> acc"
  shows "fold pay_out (U_Vout tx) (f(sha_str E from := f (sha_str E from) - acc)) =
           (let f1 = f(sha_str E from := f (sha_str E from) - amount)
            in f1(sha_str E to := f1 (sha_str E to) + amount))"
  using assms by (auto simp: utxo_tx_of_def pay_out_def fun_eq_iff)

text \<open>C6: a UTXO transaction moves its value. For a positive amount, \<^verbatim>\<open>NewUTXOTransaction\<close> always
  returns a transaction (the "insufficient" result of its caller never occurs), together with a
  coinbase exactly when the sender's balance is too small. Adding the transaction to the state trie
  then gives the state in which the amount has been moved from the sender, or minted when the sender
  could not pay, to the recipient, provided the transaction id is new to the state. Every account
  keeps a balance equal to the sum of its unspent outputs.\<close>

theorem utxo_transfer_refines:
  assumes "trie_laws E" and "opens E bc (UTXOStateRoot bc) st" and "wf_ustate E st"
    and "0 < amount" and "permutes_maps ord"
  shows "\<exists>tx cb bc1. NewUTXOTransaction E rnd cn ord from to amount bc = Inr ((Some tx, cb), bc1) \<and>
           (cb = None \<longleftrightarrow> amount \<le> ubal E st (sha_str E from)) \<and>
           (fresh_from E st (hexEncode (U_TxId tx)) 0 \<longrightarrow>
             (\<exists>bc2 st2. AddUTXO2StatusTrie E rnds (Some tx) bc1 = Inr bc2 \<and>
                opens E bc2 (UTXOStateRoot bc2) st2 \<and> wf_ustate E st2 \<and>
                ubal E st2 = utxo_transfer (sha_str E from) (sha_str E to) amount (ubal E st)))"
proof (cases "amount \<le> ubal E st (sha_str E from)")
  case True
  from NewUTXOTransaction_funded [OF assms(1-4) True assms(5), of rnd cn to]
  obtain tx ins acc bc1 st1 p where
    t: "NewUTXOTransaction E rnd cn ord from to amount bc = Inr ((Some tx, None), bc1)"
      "utxo_tx_of E from to amount acc ins tx" "amount \<le> acc" "opens E bc1 (UTXOStateRoot bc1) st1"
      "wf_ustate E st1" "ubal E st1 = (ubal E st)(sha_str E from := ubal E st (sha_str E from) - acc)"
      "picks E st st1 (sha_str E from) p" by (elim exE conjE) (rule that)
  have "\<exists>bc2 st2. AddUTXO2StatusTrie E rnds (Some tx) bc1 = Inr bc2 \<and>
      opens E bc2 (UTXOStateRoot bc2) st2 \<and> wf_ustate E st2 \<and>
      ubal E st2 = utxo_transfer (sha_str E from) (sha_str E to) amount (ubal E st)"
    if "fresh_from E st (hexEncode (U_TxId tx)) 0"
    using AddUTXO2StatusTrie_ok [OF assms(1) t(4,5) picks_fresh [OF t(7) that], of rnds] True t(6)
      pay_change [OF t(2,3), of "ubal E st"] by (simp add: utxo_transfer_def)
  with t(1) True show ?thesis by auto
next
  case False
  then have lt: "ubal E st (sha_str E from) < amount" by simp
  from NewUTXOTransaction_short [OF assms(1-3) lt assms(5), of rnd cn to]
  obtain tx cb ins bc1 st1 where
    t: "NewUTXOTransaction E rnd cn ord from to amount bc = Inr ((Some tx, Some cb), bc1)"
      "utxo_tx_of E from to amount amount ins tx" "opens E bc1 (UTXOStateRoot bc1) st1"
      "wf_ustate E st1" "ubal E st1 = ubal E st" "\<forall>t n. fresh_from E st t n \<longrightarrow> fresh_from E st1 t n"
    by (elim exE conjE) (rule that)
  have "\<exists>bc2 st2. AddUTXO2StatusTrie E rnds (Some tx) bc1 = Inr bc2 \<and>
      opens E bc2 (UTXOStateRoot bc2) st2 \<and> wf_ustate E st2 \<and>
      ubal E st2 = utxo_transfer (sha_str E from) (sha_str E to) amount (ubal E st)"
    if "fresh_from E st (hexEncode (U_TxId tx)) 0"
    using AddUTXO2StatusTrie_ok [OF assms(1) t(3,4), of tx rnds] that t(2,5,6) False
    by (simp add: utxo_transfer_def utxo_tx_of_def pay_out_def Let_def)
  with t(1) False show ?thesis by auto
qed

definition demo_uchain :: "demo_trie \<Rightarrow> (bytes \<rightharpoonup> demo_trie, demo_trie) BlockChain" where
  "demo_uchain st =
     (demo_chain 0 [])\<lparr>triedb := Some [''r'' \<mapsto> st], UTXOStateRoot := (if st = [] then ''e'' else ''r'')\<rparr>"

definition demo_acct :: UTXOAccountState where
  "demo_acct = \<lparr>UAS_PubkeyHash = ''salice'', UAS_Nonce = 0, UAS_Balance = 9,
     UAS_UTXOs = [(hexEncode ''k'', [(0, 4), (1, 5)])]\<rparr>"

definition demo_ustate :: demo_trie where
  "demo_ustate = [(''salice'', GobUAS demo_acct)]"

lemma demo_acct_ok: "acct_ok demo_acct"
  by (simp add: acct_ok_def demo_acct_def del: hexEncode.simps)

lemma demo_ustate_ok:
  "opens (demo_env True 2) (demo_uchain demo_ustate) (UTXOStateRoot (demo_uchain demo_ustate)) demo_ustate"
  "wf_ustate (demo_env True 2) demo_ustate" "ubal (demo_env True 2) demo_ustate ''salice'' = 9"
proof -
  show "wf_ustate (demo_env True 2) demo_ustate"
    using demo_acct_ok by (simp add: wf_ustate_def demo_env_def demo_ustate_def)
qed (simp_all add: opens_def demo_uchain_def demo_ustate_def demo_acct_def demo_env_def ubal_def)

theorem utxo_transfer_refines_witness:
  "\<exists>tx cb bc1. NewUTXOTransaction (demo_env True 2) 1 2 (\<lambda>m. m) ''alice'' ''bob'' 6 (demo_uchain demo_ustate)
      = Inr ((Some tx, cb), bc1) \<and> cb = None"
proof -
  have "permutes_maps (\<lambda>m. m)" by (simp add: permutes_maps_def)
  moreover have "sha_str (demo_env True 2) ''alice'' = ''salice''" by (simp add: demo_env_def)
  ultimately show ?thesis
    using utxo_transfer_refines [OF demo_trie_laws demo_ustate_ok(1,2), of 6 "\<lambda>m. m" 1 2 "''alice''" "''bob''" "\<lambda>_. 0"]
      demo_ustate_ok(3) by auto
qed

text \<open>C7: a spent output is gone. The inputs of a funded transaction cite, each exactly once, unspent
  outputs of the sender; these are removed from the sender's account and nothing else of any account
  changes; and their values add up to the values of the transaction's outputs.\<close>

theorem utxo_no_double_spend:
  assumes "trie_laws E" and "opens E bc (UTXOStateRoot bc) st" and "wf_ustate E st"
    and "0 < amount" and "amount \<le> ubal E st (sha_str E from)" and "permutes_maps ord"
  shows "\<exists>tx bc1 st1 s s1 p. NewUTXOTransaction E rnd cn ord from to amount bc = Inr ((Some tx, None), bc1) \<and>
           opens E bc1 (UTXOStateRoot bc1) st1 \<and> T_get E st (sha_str E from) = Some (GobUAS s) \<and>
           T_get E st1 = (T_get E st)(sha_str E from \<mapsto> GobUAS s1) \<and>
           flat (UAS_UTXOs s) = p @ flat (UAS_UTXOs s1) \<and>
           mset (map in_key (U_Vin tx)) = mset (map out_id p) \<and>
           distinct (map in_key (U_Vin tx)) \<and>
           set (map in_key (U_Vin tx)) \<inter> set (map out_id (flat (UAS_UTXOs s1))) = {} \<and>
           outs_value (U_Vout tx) = vsum p"
proof -
  from NewUTXOTransaction_funded [OF assms, of rnd cn to]
  obtain tx ins acc bc1 st1 p where
    t: "NewUTXOTransaction E rnd cn ord from to amount bc = Inr ((Some tx, None), bc1)"
      "utxo_tx_of E from to amount acc ins tx" "amount \<le> acc" "acc = vsum p"
      "opens E bc1 (UTXOStateRoot bc1) st1" "picks E st st1 (sha_str E from) p"
      "mset (map in_key ins) = mset (map out_id p)" by (elim exE conjE) (rule that)
  obtain s s1 where s: "T_get E st (sha_str E from) = Some (GobUAS s)"
    "T_get E st1 = (T_get E st)(sha_str E from \<mapsto> GobUAS s1)"
    "flat (UAS_UTXOs s) = p @ flat (UAS_UTXOs s1)" using t(6) unfolding picks_def by blast
  have vin: "U_Vin tx = ins" using t(2) by (simp add: utxo_tx_of_def)
  have "acct_ok s" using assms(3) s(1) by (auto simp: wf_ustate_def)
  then have "distinct (map out_id (flat (UAS_UTXOs s)))"
    using flat_ids_distinct [of "UAS_UTXOs s"] by (auto simp: acct_ok_def)
  then have d: "distinct (map out_id p)" "set (map out_id p) \<inter> set (map out_id (flat (UAS_UTXOs s1))) = {}"
    unfolding s(3) by auto
  have "distinct (map in_key ins)" using d(1) t(7) by (metis mset_eq_imp_distinct_iff)
  moreover have "set (map in_key ins) = set (map out_id p)" using t(7) by (metis mset_eq_setD)
  moreover have "outs_value (U_Vout tx) = vsum p"
    using t(2-4) by (auto simp: utxo_tx_of_def outs_value_def)
  ultimately show ?thesis using t(1,5,7) s vin d(2) by metis
qed

theorem utxo_no_double_spend_witness:
  "\<exists>tx bc1. NewUTXOTransaction (demo_env True 2) 1 2 (\<lambda>m. m) ''alice'' ''bob'' 6 (demo_uchain demo_ustate)
      = Inr ((Some tx, None), bc1) \<and> distinct (map in_key (U_Vin tx))"
proof -
  have p: "permutes_maps (\<lambda>m. m)" by (simp add: permutes_maps_def)
  have "(6::int) \<le> ubal (demo_env True 2) demo_ustate (sha_str (demo_env True 2) ''alice'')"
    using demo_ustate_ok(3) by (simp add: demo_env_def)
  from utxo_no_double_spend [OF demo_trie_laws demo_ustate_ok(1,2) _ this p, of 1 2 "''bob''"]
  show ?thesis by force
qed

end
