(* ===== verification/UTXOSet.thy ===== *)
theory UTXOSet
  imports ChainInv
begin

text \<open>
  The unspent outputs kept in a bolt bucket (\<^verbatim>\<open>src/chain/utxo_set.go\<close>): a map from transaction id to
  the list of outputs. \<^verbatim>\<open>FindUTXO\<close> walks the chain from the tip to the genesis block; its loop is
  given fuel, and on a linked chain of height \<open>n\<close> the fuel \<open>n + 1\<close> is enough. A bolt transaction that
  panics leaves the bucket as it was, because it is not committed.
\<close>

section \<open>Walking the chain\<close>

definition Next :: "('t, 'd, 'b) env \<Rightarrow> 'b Storage \<Rightarrow> bytes \<Rightarrow> (Block \<times> bytes) res" where
  "Next E s currentHash =
     rbind (opt_or (Panic ''gob: decode Block'') (K_get E (blockBucket s) currentHash)) (\<lambda>enc.
     rbind (DecodeB enc) (\<lambda>block. Inr (block, BH_ParentBlockHash (B_Header block))))"

type_synonym utxo_map = "(string, TxOut list) gomap"
type_synonym spent_map = "string \<rightharpoonup> int list"

definition outs_at :: "utxo_map \<Rightarrow> string \<Rightarrow> TxOut list" where
  "outs_at m t = (case gget m t of None \<Rightarrow> [] | Some l \<Rightarrow> l)"

definition spent_at :: "spent_map \<Rightarrow> string \<Rightarrow> int list" where
  "spent_at m t = (case m t of None \<Rightarrow> [] | Some l \<Rightarrow> l)"

definition find_tx :: "UTXOTransaction \<Rightarrow> utxo_map \<times> spent_map \<Rightarrow> utxo_map \<times> spent_map" where
  "find_tx tx us =
     (let (UTXO, spentTXOs) = us;
          txID = hexEncode (U_TxId tx);
          UTXO = fold (\<lambda>(outIdx, out) m. if int outIdx \<in> set (spent_at spentTXOs txID) then m
                                          else gput txID (outs_at m txID @ [out]) m)
                   (enumerate 0 (U_Vout tx)) UTXO;
          spentTXOs = (if IsCoinbase tx then spentTXOs
                       else fold (\<lambda>i m. m(hexEncode (In_PrevTxId i) \<mapsto>
                                            spent_at m (hexEncode (In_PrevTxId i)) @ [In_Index i]))
                              (U_Vin tx) spentTXOs)
      in (UTXO, spentTXOs))"

text \<open>\<open>None\<close>: the fuel was not enough.\<close>

fun FindUTXO_loop ::
    "('t, 'd, 'b) env \<Rightarrow> 'b Storage \<Rightarrow> nat \<Rightarrow> bytes \<Rightarrow> utxo_map \<times> spent_map \<Rightarrow> utxo_map option res" where
  "FindUTXO_loop E s 0 h us = Inr None"
| "FindUTXO_loop E s (Suc n) h us =
     rbind (Next E s h) (\<lambda>(block, h').
     let us' = fold find_tx (B_UTXO block) us in
     if length (BH_ParentBlockHash (B_Header block)) = 0 then Inr (Some (fst us'))
     else FindUTXO_loop E s n h' us')"

definition FindUTXO :: "('t, 'd, 'b) env \<Rightarrow> nat \<Rightarrow> ('d, 'b) BlockChain \<Rightarrow> utxo_map option res" where
  "FindUTXO E fuel bc = FindUTXO_loop E (Storage bc) fuel (B_Hash (CurrentBlock bc)) ([], Map.empty)"

text \<open>\<^verbatim>\<open>Reindex\<close>: the bucket is emptied and filled with the outputs found.\<close>

definition reindex_put :: "('t, 'd, 'b) env \<Rightarrow> string \<times> TxOut list \<Rightarrow> 'b \<Rightarrow> 'b res" where
  "reindex_put E to b =
     rbind (opt_or (Panic ''hex.DecodeString'') (hexDecode (fst to))) (\<lambda>key.
     opt_or (Panic ''bolt Put'') (K_put E b key (GobOuts (snd to))))"

definition Reindex ::
    "('t, 'd, 'b) env \<Rightarrow> nat \<Rightarrow> ('d, 'b) BlockChain \<Rightarrow> ('d, 'b) BlockChain option res" where
  "Reindex E fuel bc =
     (let bc = bc\<lparr>Storage := (Storage bc)\<lparr>UTXOBucket := K_new E\<rparr>\<rparr> in
      rbind (FindUTXO E fuel bc) (\<lambda>r.
      case r of
        None \<Rightarrow> Inr None
      | Some UTXO \<Rightarrow>
          rbind (rfold (reindex_put E) UTXO (UTXOBucket (Storage bc))) (\<lambda>b.
          Inr (Some (bc\<lparr>Storage := (Storage bc)\<lparr>UTXOBucket := b\<rparr>\<rparr>)))))"

section \<open>Selecting outputs\<close>

definition select_out ::
    "bytes \<Rightarrow> int \<Rightarrow> string \<Rightarrow> nat \<times> TxOut \<Rightarrow> int \<times> (string \<rightharpoonup> int list) \<Rightarrow> int \<times> (string \<rightharpoonup> int list)" where
  "select_out pubkeyHash amount txID io au =
     (let (outIdx, out) = io; (accumulated, unspentOutputs) = au in
      if pubkeyHash = Out_PubKeyHash out \<and> accumulated < amount
      then (accumulated + Out_Value out,
            unspentOutputs(txID \<mapsto> spent_at unspentOutputs txID @ [int outIdx]))
      else (accumulated, unspentOutputs))"

definition FindSpendableOutputs ::
    "('t, 'd, 'b) env \<Rightarrow> bytes \<Rightarrow> int \<Rightarrow> ('d, 'b) BlockChain \<Rightarrow> (int \<times> (string \<rightharpoonup> int list)) res" where
  "FindSpendableOutputs E pubkeyHash amount bc =
     rfold (\<lambda>(key, val) au.
        rbind (DecodeOutputs (Some val)) (\<lambda>outs.
        Inr (fold (select_out pubkeyHash amount (hexEncode key)) (enumerate 0 outs) au)))
       (K_list E (UTXOBucket (Storage bc))) (0, Map.empty)"

section \<open>Updating the bucket\<close>

definition drop_index :: "int \<Rightarrow> TxOut list \<Rightarrow> TxOut list" where
  "drop_index k outs = map snd (filter (\<lambda>(outIdx, out). int outIdx \<noteq> k) (enumerate 0 outs))"

definition remove_input :: "('t, 'd, 'b) env \<Rightarrow> TxIn \<Rightarrow> 'b \<Rightarrow> 'b res" where
  "remove_input E vin b =
     rbind (DecodeOutputs (K_get E b (In_PrevTxId vin))) (\<lambda>outs.
     let updatedOuts = drop_index (In_Index vin) outs in
     if length updatedOuts = 0 then Inr (K_del E b (In_PrevTxId vin))
     else opt_or (Panic ''bolt Put'') (K_put E b (In_PrevTxId vin) (GobOuts updatedOuts)))"

definition update_tx :: "('t, 'd, 'b) env \<Rightarrow> UTXOTransaction \<Rightarrow> 'b \<Rightarrow> 'b res" where
  "update_tx E tx b =
     (if IsCoinbase tx then Inr b
      else rbind (rfold (remove_input E) (U_Vin tx) b)
             (\<lambda>b. opt_or (Panic ''bolt Put'') (K_put E b (U_TxId tx) (GobOuts (U_Vout tx)))))"

definition UpdateUTXOSet ::
    "('t, 'd, 'b) env \<Rightarrow> Block \<Rightarrow> ('d, 'b) BlockChain \<Rightarrow> ('d, 'b) BlockChain res" where
  "UpdateUTXOSet E block bc =
     rbind (rfold (update_tx E) (B_UTXO block) (UTXOBucket (Storage bc)))
       (\<lambda>b. Inr (bc\<lparr>Storage := (Storage bc)\<lparr>UTXOBucket := b\<rparr>\<rparr>))"

definition AddTx2UTXOSet ::
    "('t, 'd, 'b) env \<Rightarrow> UTXOTransaction option \<Rightarrow> ('d, 'b) BlockChain \<Rightarrow> ('d, 'b) BlockChain res" where
  "AddTx2UTXOSet E otx bc =
     (case otx of
        None \<Rightarrow> Inr bc
      | Some utxotx \<Rightarrow>
          rbind (if IsCoinbase utxotx then Inr (UTXOBucket (Storage bc))
                 else rfold (remove_input E) (U_Vin utxotx) (UTXOBucket (Storage bc))) (\<lambda>b.
          rbind (opt_or (Panic ''bolt Put'') (K_put E b (U_TxId utxotx) (GobOuts (U_Vout utxotx))))
            (\<lambda>b. Inr (bc\<lparr>Storage := (Storage bc)\<lparr>UTXOBucket := b\<rparr>\<rparr>))))"

section \<open>Properties\<close>

lemma Next_stored:
  "GetBlock E h s = Inr (Inr b) \<Longrightarrow> Next E s h = Inr (b, BH_ParentBlockHash (B_Header b))"
  by (auto simp: GetBlock_def Next_def res_simps split: option.splits)

lemma FindUTXO_loop_linked:
  "linked E s n h \<Longrightarrow> \<exists>u. FindUTXO_loop E s (Suc n) h us = Inr (Some u)"
proof (induction n arbitrary: h us)
  case 0
  then show ?case by (auto simp: Next_stored Let_def)
next
  case (Suc n)
  then obtain b where b: "GetBlock E h s = Inr (Inr b)" "BH_ParentBlockHash (B_Header b) \<noteq> []"
    "linked E s n (BH_ParentBlockHash (B_Header b))" by auto
  have "FindUTXO_loop E s (Suc (Suc n)) h us =
      FindUTXO_loop E s (Suc n) (BH_ParentBlockHash (B_Header b)) (fold find_tx (B_UTXO b) us)"
    by (subst FindUTXO_loop.simps(2)) (simp only: Next_stored [OF b(1)] rbind.simps Let_def split b(2) length_0_conv if_False)
  with Suc.IH [OF b(3)] show ?case by metis
qed

text \<open>C34: the walk over the chain ends. On a chain whose blocks are linked down to the genesis block,
  \<^verbatim>\<open>FindUTXO\<close> visits one block per height and returns after height plus one iterations.\<close>

theorem FindUTXO_terminates:
  assumes "linked E (Storage bc) n (B_Hash (CurrentBlock bc))"
  shows "\<exists>u. FindUTXO E (Suc n) bc = Inr (Some u)"
  unfolding FindUTXO_def by (rule FindUTXO_loop_linked [OF assms])

theorem FindUTXO_terminates_witness:
  "\<exists>n u. FindUTXO (demo_env False 2) (Suc n) demo_boot = Inr (Some u)"
proof -
  have "chain_ok (demo_env False 2) demo_boot"
    by (rule chain_ok_start [OF demo_trie_laws demo_bolt_laws _ demo_boot_new]) (simp add: demo_env_def)
  then obtain n where "linked (demo_env False 2) (Storage demo_boot) n (B_Hash (CurrentBlock demo_boot))"
    by (auto simp: chain_ok_def)
  from FindUTXO_terminates [OF this] show ?thesis by blast
qed

lemma drop_index_nth:
  assumes "i < length outs"
  shows "drop_index (int i) outs = take i outs @ drop (Suc i) outs"
proof -
  have split: "outs = take i outs @ outs ! i # drop (Suc i) outs" by (rule id_take_nth_drop [OF assms])
  have len: "length (take i outs) = i" using assms by simp
  have gen: "map snd (filter (\<lambda>(j, out). int j \<noteq> int i) (enumerate k xs)) = xs"
    if "\<forall>j. k \<le> j \<and> j < k + length xs \<longrightarrow> j \<noteq> i" for k and xs :: "TxOut list"
    using that by (induction xs arbitrary: k) auto
  have "drop_index (int i) outs = drop_index (int i) (take i outs @ outs ! i # drop (Suc i) outs)"
    using split by simp
  also have "\<dots> = take i outs @ drop (Suc i) outs"
    unfolding drop_index_def enumerate_append_eq filter_append map_append
    using gen [of 0 "take i outs"] gen [of "Suc i" "drop (Suc i) outs"] len assms by simp
  finally show ?thesis .
qed

text \<open>What one input does to the bucket, when it cites an existing output.\<close>

lemma remove_input_ok:
  assumes "bolt_laws E" and "K_get E b p = Some (GobOuts outs)" and "p \<noteq> []" and "i < length outs"
    and "In_PrevTxId vin = p" and "In_Index vin = int i"
  shows "\<exists>b'. remove_input E vin b = Inr b' \<and>
           K_get E b' = (K_get E b)(p := if length outs = 1 then None
                                         else Some (GobOuts (take i outs @ drop (Suc i) outs)))"
proof -
  let ?l = "take i outs @ drop (Suc i) outs"
  have l: "drop_index (int i) outs = ?l" by (rule drop_index_nth [OF assms(4)])
  have len: "?l = [] \<longleftrightarrow> length outs = 1" using assms(4) by (cases outs) auto
  obtain b' where "K_put E b p (GobOuts ?l) = Some b'" "K_get E b' = (K_get E b)(p \<mapsto> GobOuts ?l)"
    using bolt_put [OF assms(1,3)] by blast
  with assms(2,5,6) l len show ?thesis
    by (simp add: remove_input_def Let_def bolt_del [OF assms(1)])
qed

text \<open>Indices in descending order are all removed.\<close>

lemma nths_local: "(\<And>j. j < length xs \<Longrightarrow> j \<in> A \<longleftrightarrow> j \<in> B) \<Longrightarrow> nths xs A = nths xs B"
  unfolding nths_def by (rule arg_cong [where f = "map fst"], rule filter_cong) (auto dest: set_zip_rightD)

lemma nths_drop_last:
  assumes "i < length outs" and "\<forall>j\<in>J. j < i"
  shows "nths (take i outs @ drop (Suc i) outs) (- J) = nths outs (- insert i J)"
proof -
  have split: "outs = take i outs @ [outs ! i] @ drop (Suc i) outs"
    using id_take_nth_drop [OF assms(1)] by simp
  have len: "length (take i outs) = i" using assms(1) by simp
  have all: "nths xs {j. j + k \<in> A} = xs" if "\<And>j. k \<le> j \<Longrightarrow> j \<in> A" for k A and xs :: "'a list"
    using that by (intro nths_all) auto
  have "nths (take i outs) (- J) = nths (take i outs) (- insert i J)"
    by (rule nths_local) (use len in auto)
  moreover have "nths (drop (Suc i) outs) {j. j + i \<in> - J} = drop (Suc i) outs"
    using assms(2) by (intro all) auto
  moreover have "nths ([outs ! i] @ drop (Suc i) outs) {j. j + i \<in> - insert i J} = drop (Suc i) outs"
    using assms(2) by (subst nths_append) (auto simp: nths_singleton intro!: nths_all)
  moreover have "nths outs (- insert i J) = nths (take i outs @ [outs ! i] @ drop (Suc i) outs) (- insert i J)"
    by (rule arg_cong [OF split])
  ultimately show ?thesis by (simp only: nths_append len)
qed

definition cite :: "bytes \<Rightarrow> nat \<Rightarrow> TxIn" where
  "cite p i = \<lparr>In_PrevTxId = p, In_Index = int i, In_Signature = [], In_PubKey = []\<rparr>"

lemma remove_inputs_descending:
  assumes laws: "bolt_laws E" and p: "p \<noteq> []"
    and "K_get E b p = Some (GobOuts outs)" and "outs \<noteq> []"
    and "sorted_wrt (>) idxs" and "\<forall>i\<in>set idxs. i < length outs"
  shows "\<exists>b'. rfold (remove_input E) (map (cite p) idxs) b = Inr b' \<and>
           K_get E b' = (K_get E b)(p := (let l = nths outs (- set idxs) in
                                          if l = [] then None else Some (GobOuts l)))"
  using assms(3-)
proof (induction idxs arbitrary: b outs)
  case Nil
  then show ?case by (auto simp: nths_all Let_def)
next
  case (Cons i idxs)
  let ?l = "take i outs @ drop (Suc i) outs"
  have i: "i < length outs" using Cons.prems(4) by simp
  have J: "\<forall>j\<in>set idxs. j < i" using Cons.prems(3) by simp
  obtain b1 where b1: "remove_input E (cite p i) b = Inr b1"
    "K_get E b1 = (K_get E b)(p := if length outs = 1 then None else Some (GobOuts ?l))"
    using remove_input_ok [OF laws Cons.prems(1) p i, of "cite p i"] by (auto simp: cite_def)
  have n: "nths outs (- set (i # idxs)) = nths ?l (- set idxs)"
    using nths_drop_last [OF i J] by simp
  show ?case
  proof (cases "length outs = 1")
    case True
    then have "i = 0" "idxs = []" "?l = []" using i J by (cases idxs, auto)
    with b1 n True show ?thesis by (auto simp: Let_def fun_eq_iff)
  next
    case False
    have "K_get E b1 p = Some (GobOuts ?l)" "?l \<noteq> []" using b1(2) False i by auto
    moreover have "sorted_wrt (>) idxs" "\<forall>j\<in>set idxs. j < length ?l" using Cons.prems(3) J i by auto
    ultimately obtain b' where "rfold (remove_input E) (map (cite p) idxs) b1 = Inr b'"
      "K_get E b' = (K_get E b1)(p := (let l = nths ?l (- set idxs) in
                                       if l = [] then None else Some (GobOuts l)))"
      using Cons.IH by blast
    with b1 n show ?thesis by (auto simp: fun_eq_iff)
  qed
qed


definition demo_set :: "TxOut list \<Rightarrow> (bytes \<rightharpoonup> demo_trie, demo_trie) BlockChain" where
  "demo_set outs = (demo_chain 0 [])\<lparr>Storage := (NewStorage (demo_env True 2) (\<lambda>_. None))\<lparr>UTXOBucket :=
     [(''prev'', GobOuts outs)]\<rparr>\<rparr>"

definition demo_out :: "int \<Rightarrow> TxOut" where
  "demo_out v = \<lparr>Out_Value = v, Out_PubKeyHash = ''k''\<rparr>"

definition demo_spend :: "nat list \<Rightarrow> UTXOTransaction" where
  "demo_spend idxs = \<lparr>U_TxId = ''next'', U_Vin = map (cite ''prev'') idxs, U_Vout = [demo_out 7], U_Nonce = 0,
     U_Time = 0, U_TxHash = ''x'', U_Relayed = False, U_Recipient = ''r''\<rparr>"

lemma demo_set_get:
  "K_get (demo_env True 2) (UTXOBucket (Storage (demo_set outs))) ''prev'' = Some (GobOuts outs)"
  by (simp add: demo_set_def demo_env_def)


text \<open>Removing outputs by position is wrong for ascending positions. When a block holds a
  transaction that spends both outputs of an earlier one, in the order of their indices, the first
  removal shifts the second output to position 0 and it is kept: \<^verbatim>\<open>UpdateUTXOSet\<close> leaves a spent
  output in the set (the comment there says that the loop is correct).\<close>

theorem UpdateUTXOSet_keeps_spent_output:
  assumes "bolt_laws E" and "K_get E (UTXOBucket (Storage bc)) p = Some (GobOuts [o0, o1])" and "p \<noteq> []"
    and "B_UTXO block = [tx]" and "U_Vin tx = [cite p 0, cite p 1]" and "U_TxId tx \<noteq> []" and "U_TxId tx \<noteq> p"
  shows "\<exists>bc'. UpdateUTXOSet E block bc = Inr bc' \<and>
           K_get E (UTXOBucket (Storage bc')) p = Some (GobOuts [o1])"
proof -
  let ?b = "UTXOBucket (Storage bc)"
  obtain b1 where b1: "remove_input E (cite p 0) ?b = Inr b1" "K_get E b1 p = Some (GobOuts [o1])"
    using remove_input_ok [OF assms(1-3), of 0 "cite p 0"] by (auto simp: cite_def)
  obtain b2 where b2: "K_put E b1 p (GobOuts [o1]) = Some b2" "K_get E b2 = (K_get E b1)(p \<mapsto> GobOuts [o1])"
    using bolt_put [OF assms(1,3)] by blast
  have "remove_input E (cite p 1) b1 = Inr b2"
    using b1(2) b2(1) by (simp add: remove_input_def cite_def drop_index_def)
  moreover obtain b3 where "K_put E b2 (U_TxId tx) (GobOuts (U_Vout tx)) = Some b3"
    "K_get E b3 = (K_get E b2)(U_TxId tx \<mapsto> GobOuts (U_Vout tx))" using bolt_put [OF assms(1,6)] by blast
  moreover have "\<not> IsCoinbase tx" using assms(5) by (simp add: IsCoinbase_def)
  ultimately show ?thesis using b1(1) b2 assms(4,5,7) by (auto simp: UpdateUTXOSet_def update_tx_def)
qed

theorem UpdateUTXOSet_keeps_spent_output_witness:
  "\<exists>bc'. UpdateUTXOSet (demo_env True 2) ((sample_block 1)\<lparr>B_UTXO := [demo_spend [0, 1]]\<rparr>)
           (demo_set [demo_out 3, demo_out 4]) = Inr bc' \<and>
         K_get (demo_env True 2) (UTXOBucket (Storage bc')) ''prev'' = Some (GobOuts [demo_out 4])"
  by (rule UpdateUTXOSet_keeps_spent_output [OF demo_bolt_laws demo_set_get, where tx = "demo_spend [0, 1]"])
     (simp_all add: demo_spend_def)

end
