(* ===== verification/Pbft.thy ===== *)
theory Pbft
  imports Chain
begin

text \<open>
  The PBFT consensus node (\<^verbatim>\<open>src/consensus_shard/pbft_all/pbft.go\<close>, \<^verbatim>\<open>messageHandle.go\<close>,
  \<^verbatim>\<open>toolFuncs.go\<close>): its state, the message handlers and the proposal of the leader.

  Incoming messages are handled one at a time (\<^verbatim>\<open>tcpPoolLock\<close>), so a handler is one atomic step from
  the decoded message and the node to the messages sent, with their addresses, and the new node.
  The sends are made by separate goroutines: the list of sent messages says what is sent, not in
  which order it arrives.

  \<^item> The vote maps are keyed by the pointer \<^verbatim>\<open>*shard.Node\<close> of the decoded message, which is a new
    object for every message; a pointer is a number, and \<^verbatim>\<open>PN_heap\<close> counts the objects allocated.
  \<^item> \<^verbatim>\<open>sequenceLock\<close> and \<^verbatim>\<open>askForLock\<close> are taken in one step and released in another, so they are part
    of the state: taking a held lock is \<open>Blocked\<close>, releasing a free one is the fatal error
    "unlock of unlocked mutex". The locks held within one handler are not in the model.
  \<^item> What differs between the transaction mechanisms is the inside module \<open>ihm\<close>, a record of the
    functions the handlers call; the handlers take it as their argument. The contract the handlers
    rely on is the locale \<open>inside_mod\<close>.
  \<^item> \<^verbatim>\<open>HandleinPropose\<close> of the re-sharding modules waits, twice, for messages of other shards that the
    handlers receive meanwhile. A call is therefore one or more steps of the proposing goroutine:
    a step returns the messages sent and either the request or \<open>None\<close>, when the call is still
    waiting; \<open>PN_propose_pc\<close> is the place where it waits. The data those modules share with the
    handlers of outside messages (\<^verbatim>\<open>Data_supportCLPA\<close>) is the field \<open>PN_cdm\<close>, which the other modules
    do not use.
  \<^item> Listening, closing connections, logging and the channel \<^verbatim>\<open>pStop\<close> are not modelled.
\<close>

section \<open>The data of the re-sharding modules\<close>

text \<open>\<^verbatim>\<open>dataSupport/clpaData_Extra.go\<close>. The maps that are ranged over or measured are association
  lists.\<close>

record Data_supportCLPA =
  CD_ModifiedMap :: "(string, u64) gomap list"
  CD_AccountTransferRound :: u64
  CD_ReceivedNewAccountState :: "(string, AccountState) gomap"
  CD_ReceivedNewTx :: "Transaction list"
  CD_AccountStateTx :: "(u64, AccountStateAndTx) gomap"
  CD_PartitionOn :: bool
  CD_PartitionReady :: "(u64, bool) gomap"
  CD_ReadySeq :: "u64 \<rightharpoonup> u64"
  CD_CollectOver :: bool

definition NewCLPADataSupport :: Data_supportCLPA where
  "NewCLPADataSupport =
     \<lparr>CD_ModifiedMap = [], CD_AccountTransferRound = 0, CD_ReceivedNewAccountState = [],
      CD_ReceivedNewTx = [], CD_AccountStateTx = [], CD_PartitionOn = False,
      CD_PartitionReady = [], CD_ReadySeq = Map.empty, CD_CollectOver = False\<rparr>"

datatype propose_pc = PC_start | PC_ready | PC_collect

section \<open>The node\<close>

type_synonym ip_table = "(u64, (u64, string) gomap) gomap"
type_synonym sends = "(string \<times> net_msg) list"

record ('d, 'b) pnode =
  PN_RunningNode :: Node
  PN_ShardID :: u64
  PN_NodeID :: u64
  PN_CurChain :: "('d, 'b) BlockChain"
  PN_pbftChainConfig :: ChainConfig
  PN_ip_nodeTable :: ip_table
  PN_node_nums :: u64
  PN_malicious_nums :: u64
  PN_view :: u64
  PN_sequenceID :: u64
  PN_stop :: bool
  PN_requestPool :: "string \<rightharpoonup> Request"
  PN_cntPrepareConfirm :: "string \<rightharpoonup> (nat, bool) gomap"
  PN_cntCommitConfirm :: "string \<rightharpoonup> (nat, bool) gomap"
  PN_isCommitBordcast :: "string \<Rightarrow> bool"
  PN_isReply :: "string \<Rightarrow> bool"
  PN_height2Digest :: "u64 \<rightharpoonup> string"
  PN_sequenceLock :: bool
  PN_askForLock :: bool
  PN_seqIDMap :: "(u64, u64) gomap"
  PN_heap :: nat
  PN_cdm :: Data_supportCLPA
  PN_propose_pc :: propose_pc

definition ip_of :: "ip_table \<Rightarrow> u64 \<Rightarrow> u64 \<Rightarrow> string" where
  "ip_of tbl sid nid =
     (case gget tbl sid of None \<Rightarrow> [] | Some m \<Rightarrow> (case gget m nid of None \<Rightarrow> [] | Some ip \<Rightarrow> ip))"

datatype HandleType = Mod_CLPA_Broker | Mod_CLPA | Mod_Broker | Mod_UTXO | Mod_Relay

definition handle_type :: "bool \<Rightarrow> string \<Rightarrow> HandleType" where
  "handle_type utxo messageHandleType =
     (if messageHandleType = ''CLPA_Broker'' then Mod_CLPA_Broker
      else if messageHandleType = ''CLPA'' then Mod_CLPA
      else if messageHandleType = ''Broker'' then Mod_Broker
      else if utxo then Mod_UTXO else Mod_Relay)"

text \<open>\<^verbatim>\<open>NewPbftNode\<close>: the chain comes from \<^verbatim>\<open>NewBlockChain\<close> on the node's databases.\<close>

definition NewPbftNode ::
    "('t, 'd, 'b) env \<Rightarrow> ip_table \<Rightarrow> 'd \<Rightarrow> (string \<Rightarrow> 'b option) \<Rightarrow> u64 \<Rightarrow> u64 \<Rightarrow> ChainConfig
      \<Rightarrow> ('d, 'b) pnode res" where
  "NewPbftNode E ips d disk shardID nodeID pcc =
     rbind (NewBlockChain E pcc d disk) (\<lambda>bc. Inr
       \<lparr>PN_RunningNode = \<lparr>N_NodeID = nodeID, N_ShardID = shardID, N_IPaddr = ip_of ips shardID nodeID\<rparr>,
        PN_ShardID = shardID, PN_NodeID = nodeID, PN_CurChain = bc, PN_pbftChainConfig = pcc,
        PN_ip_nodeTable = ips, PN_node_nums = CC_Nodes_perShard pcc,
        PN_malicious_nums = (CC_Nodes_perShard pcc - 1) div 3, PN_view = 0,
        PN_sequenceID = B_Number (CurrentBlock bc) + 1, PN_stop = False,
        PN_requestPool = Map.empty, PN_cntPrepareConfirm = Map.empty,
        PN_cntCommitConfirm = Map.empty, PN_isCommitBordcast = (\<lambda>_. False),
        PN_isReply = (\<lambda>_. False), PN_height2Digest = Map.empty, PN_sequenceLock = False,
        PN_askForLock = False, PN_seqIDMap = [], PN_heap = 0,
        PN_cdm = NewCLPADataSupport, PN_propose_pc = PC_start\<rparr>)"

definition set2DMap :: "bool \<Rightarrow> string \<Rightarrow> nat \<Rightarrow> ('d, 'b) pnode \<Rightarrow> ('d, 'b) pnode" where
  "set2DMap isPrePareConfirm key val p =
     (if isPrePareConfirm then
        (let m = (case PN_cntPrepareConfirm p key of None \<Rightarrow> [] | Some m \<Rightarrow> m)
         in p\<lparr>PN_cntPrepareConfirm := (PN_cntPrepareConfirm p)(key \<mapsto> gput val True m)\<rparr>)
      else
        (let m = (case PN_cntCommitConfirm p key of None \<Rightarrow> [] | Some m \<Rightarrow> m)
         in p\<lparr>PN_cntCommitConfirm := (PN_cntCommitConfirm p)(key \<mapsto> gput val True m)\<rparr>))"

text \<open>Decoding a message with a sender allocates the sender's node object.\<close>

definition alloc :: "('d, 'b) pnode \<Rightarrow> nat \<times> ('d, 'b) pnode" where
  "alloc p = (PN_heap p, p\<lparr>PN_heap := PN_heap p + 1\<rparr>)"

definition votes :: "(string \<rightharpoonup> (nat, bool) gomap) \<Rightarrow> string \<Rightarrow> nat" where
  "votes m key = (case m key of None \<Rightarrow> 0 | Some l \<Rightarrow> length l)"

definition getNeighborNodes :: "('d, 'b) pnode \<Rightarrow> string list" where
  "getNeighborNodes p =
     (case gget (PN_ip_nodeTable p) (PN_ShardID p) of None \<Rightarrow> [] | Some m \<Rightarrow> map snd m)"

definition Broadcast :: "string \<Rightarrow> string list \<Rightarrow> net_msg \<Rightarrow> sends" where
  "Broadcast sender receivers msg =
     map (\<lambda>ip. (ip, msg)) (filter (\<lambda>ip. ip \<noteq> sender) receivers)"

definition broadcast_from :: "('d, 'b) pnode \<Rightarrow> net_msg \<Rightarrow> sends" where
  "broadcast_from p msg = Broadcast (N_IPaddr (PN_RunningNode p)) (getNeighborNodes p) msg"

section \<open>The interface of the inside modules\<close>

record ('d, 'b) ihm =
  HandleinPropose :: "('d, 'b) pnode \<Rightarrow> (sends \<times> Request option \<times> ('d, 'b) pnode) res"
  HandleinPrePrepare :: "PrePrepare \<Rightarrow> ('d, 'b) pnode \<Rightarrow> (bool \<times> ('d, 'b) pnode) res"
  HandleinPrepare :: "Prepare \<Rightarrow> ('d, 'b) pnode \<Rightarrow> ('d, 'b) pnode res"
  HandleinCommit :: "Commit \<Rightarrow> ('d, 'b) pnode \<Rightarrow> (sends \<times> ('d, 'b) pnode) res"
  HandleReqestforOldSeq :: "RequestOldMessage \<Rightarrow> ('d, 'b) pnode \<Rightarrow> ('d, 'b) pnode res"
  HandleforSequentialRequest :: "SendOldMessage \<Rightarrow> ('d, 'b) pnode \<Rightarrow> ('d, 'b) pnode res"

section \<open>The handlers\<close>

text \<open>One iteration of the loop of \<^verbatim>\<open>Propose\<close>, run by the leader, or a part of it when
  \<^verbatim>\<open>HandleinPropose\<close> waits: the lock is taken once, and the request is announced when it is there.\<close>

definition announce ::
    "('t, 'd, 'b) env \<Rightarrow> Request \<Rightarrow> ('d, 'b) pnode \<Rightarrow> sends \<times> ('d, 'b) pnode" where
  "announce E r p =
     (let digest = sha_req E r;
          p = p\<lparr>PN_requestPool := (PN_requestPool p)(digest \<mapsto> r),
                PN_height2Digest := (PN_height2Digest p)(PN_sequenceID p \<mapsto> digest)\<rparr>;
          ppmsg = \<lparr>PP_RequestMsg = r, PP_Digest = digest, PP_SeqID = PN_sequenceID p\<rparr>
      in (broadcast_from p (MPrePrepare ppmsg), p))"

definition Propose ::
    "('t, 'd, 'b) env \<Rightarrow> ('d, 'b) ihm \<Rightarrow> ('d, 'b) pnode \<Rightarrow> (sends \<times> ('d, 'b) pnode) res" where
  "Propose E M p =
     (if PN_view p \<noteq> PN_NodeID p then Inr ([], p)
      else if PN_propose_pc p = PC_start \<and> PN_sequenceLock p then Inl (Blocked ''sequenceLock'')
      else
        rbind (HandleinPropose M (p\<lparr>PN_sequenceLock := True\<rparr>)) (\<lambda>(out, req, p).
        case req of
          None \<Rightarrow> Inr (out, p)
        | Some r \<Rightarrow> (let (bcast, p) = announce E r p in Inr (out @ bcast, p))))"

definition prepare_for :: "PrePrepare \<Rightarrow> ('d, 'b) pnode \<Rightarrow> net_msg" where
  "prepare_for ppmsg p =
     MPrepare \<lparr>P_Digest = PP_Digest ppmsg, P_SeqID = PP_SeqID ppmsg, P_SenderNode = PN_RunningNode p\<rparr>"

definition handlePrePrepare ::
    "('t, 'd, 'b) env \<Rightarrow> ('d, 'b) ihm \<Rightarrow> PrePrepare \<Rightarrow> ('d, 'b) pnode
      \<Rightarrow> (sends \<times> ('d, 'b) pnode) res" where
  "handlePrePrepare E M ppmsg p =
     (let digest = sha_req E (PP_RequestMsg ppmsg);
          record_req = (\<lambda>p. p\<lparr>PN_requestPool := (PN_requestPool p)(digest \<mapsto> PP_RequestMsg ppmsg),
                              PN_height2Digest := (PN_height2Digest p)(PP_SeqID ppmsg \<mapsto> digest)\<rparr>)
      in
      rbind (if digest \<noteq> PP_Digest ppmsg then Inr (False, p)
             else if PN_sequenceID p < PP_SeqID ppmsg then Inr (False, record_req p)
             else rbind (HandleinPrePrepare M ppmsg p) (\<lambda>(flag, p). Inr (flag, record_req p)))
        (\<lambda>(flag, p).
         Inr (if flag then broadcast_from p (prepare_for ppmsg p) else [], p)))"

text \<open>\<^verbatim>\<open>int(2 * p.malicious_nums)\<close>, less one for a replica.\<close>

definition specifiedcnt :: "('d, 'b) pnode \<Rightarrow> int" where
  "specifiedcnt p = sint (2 * PN_malicious_nums p) - (if PN_NodeID p \<noteq> PN_view p then 1 else 0)"

definition required_cnt :: "('d, 'b) pnode \<Rightarrow> int" where
  "required_cnt p = sint (2 * PN_malicious_nums p)"

definition handlePrepare ::
    "('t, 'd, 'b) env \<Rightarrow> ('d, 'b) ihm \<Rightarrow> Prepare \<Rightarrow> ('d, 'b) pnode
      \<Rightarrow> (sends \<times> ('d, 'b) pnode) res" where
  "handlePrepare E M pmsg p =
     (let (ptr, p) = alloc p in
      if PN_requestPool p (P_Digest pmsg) = None then Inr ([], p)
      else if PN_sequenceID p < P_SeqID pmsg then Inr ([], p)
      else
        rbind (HandleinPrepare M pmsg p) (\<lambda>p.
        let p = set2DMap True (P_Digest pmsg) ptr p;
            cnt = int (votes (PN_cntPrepareConfirm p) (P_Digest pmsg))
        in
        if cnt \<ge> specifiedcnt p \<and> \<not> PN_isCommitBordcast p (P_Digest pmsg) then
          Inr (broadcast_from p
                 (MCommit \<lparr>C_Digest = P_Digest pmsg, C_SeqID = P_SeqID pmsg,
                           C_SenderNode = PN_RunningNode p\<rparr>),
               p\<lparr>PN_isCommitBordcast := (PN_isCommitBordcast p)(P_Digest pmsg := True)\<rparr>)
        else Inr ([], p)))"

definition ask_old :: "Commit \<Rightarrow> ('d, 'b) pnode \<Rightarrow> string \<times> net_msg" where
  "ask_old cmsg p =
     (let sn = \<lparr>N_NodeID = PN_view p, N_ShardID = PN_ShardID p,
                N_IPaddr = ip_of (PN_ip_nodeTable p) (PN_ShardID p) (PN_view p)\<rparr>
      in (N_IPaddr sn,
          MRequestOld \<lparr>ROM_SeqStartHeight = PN_sequenceID p + 1, ROM_SeqEndHeight = C_SeqID cmsg,
                       ROM_ServerNode = sn, ROM_SenderNode = PN_RunningNode p\<rparr>))"

definition unlock_sequence :: "('d, 'b) pnode \<Rightarrow> ('d, 'b) pnode res" where
  "unlock_sequence p =
     (if PN_NodeID p \<noteq> PN_view p then Inr p
      else if PN_sequenceLock p then Inr (p\<lparr>PN_sequenceLock := False\<rparr>)
      else Inl (Panic ''sync: unlock of unlocked mutex''))"

definition handleCommit ::
    "('t, 'd, 'b) env \<Rightarrow> ('d, 'b) ihm \<Rightarrow> Commit \<Rightarrow> ('d, 'b) pnode
      \<Rightarrow> (sends \<times> ('d, 'b) pnode) res" where
  "handleCommit E M cmsg p =
     (let (ptr, p) = alloc p;
          p = set2DMap False (C_Digest cmsg) ptr p;
          cnt = int (votes (PN_cntCommitConfirm p) (C_Digest cmsg))
      in
      if cnt \<ge> required_cnt p \<and> \<not> PN_isReply p (C_Digest cmsg) then
        rbind (if PN_requestPool p (C_Digest cmsg) = None then
                 (let p = p\<lparr>PN_isReply := (PN_isReply p)(C_Digest cmsg := True)\<rparr> in
                  if PN_askForLock p then Inl (Blocked ''askForLock'')
                  else Inr ([ask_old cmsg p], p\<lparr>PN_askForLock := True\<rparr>))
               else
                 rbind (HandleinCommit M cmsg p) (\<lambda>(out, p).
                 Inr (out, p\<lparr>PN_isReply := (PN_isReply p)(C_Digest cmsg := True),
                             PN_sequenceID := PN_sequenceID p + 1\<rparr>)))
          (\<lambda>(out, p). rbind (unlock_sequence p) (\<lambda>p. Inr (out, p)))
      else Inr ([], p))"

text \<open>The loop over the heights asked for stops at the first one the leader does not have. (The Go
  loop variable would wrap after height \<open>2 ^ 64 - 1\<close>.)\<close>

fun old_requests :: "nat \<Rightarrow> u64 \<Rightarrow> ('d, 'b) pnode \<Rightarrow> Request list" where
  "old_requests 0 height p = []"
| "old_requests (Suc n) height p =
     (case PN_height2Digest p height of
        None \<Rightarrow> []
      | Some d \<Rightarrow>
          (case PN_requestPool p d of
             None \<Rightarrow> []
           | Some r \<Rightarrow> r # old_requests n (height + 1) p))"

definition handleRequestOldSeq ::
    "('t, 'd, 'b) env \<Rightarrow> ('d, 'b) ihm \<Rightarrow> RequestOldMessage \<Rightarrow> ('d, 'b) pnode
      \<Rightarrow> (sends \<times> ('d, 'b) pnode) res" where
  "handleRequestOldSeq E M rom p =
     (if PN_view p \<noteq> PN_NodeID p then Inr ([], p)
      else
        let oldR = old_requests (Suc (unat (ROM_SeqEndHeight rom)) - unat (ROM_SeqStartHeight rom))
                     (ROM_SeqStartHeight rom) p
        in rbind (HandleReqestforOldSeq M rom p) (\<lambda>p.
           Inr ([(N_IPaddr (ROM_SenderNode rom),
                  MSendOld \<lparr>SOM_SeqStartHeight = ROM_SeqStartHeight rom,
                            SOM_SeqEndHeight = ROM_SeqEndHeight rom, SOM_OldRequest = oldR,
                            SOM_SenderNode = PN_RunningNode p\<rparr>)], p)))"

definition store_old ::
    "('t, 'd, 'b) env \<Rightarrow> u64 \<Rightarrow> nat \<times> Request \<Rightarrow> ('d, 'b) pnode \<Rightarrow> ('d, 'b) pnode" where
  "store_old E beginSeq ir p =
     (let (idx, r) = ir; d = sha_req E r in
      p\<lparr>PN_requestPool := (PN_requestPool p)(d \<mapsto> r),
        PN_height2Digest := (PN_height2Digest p)(of_nat idx + beginSeq \<mapsto> d),
        PN_isReply := (PN_isReply p)(d := True)\<rparr>)"

definition handleSendOldSeq ::
    "('t, 'd, 'b) env \<Rightarrow> ('d, 'b) ihm \<Rightarrow> SendOldMessage \<Rightarrow> ('d, 'b) pnode
      \<Rightarrow> (sends \<times> ('d, 'b) pnode) res" where
  "handleSendOldSeq E M som p =
     rbind (HandleforSequentialRequest M som p) (\<lambda>p.
     let p = fold (store_old E (SOM_SeqStartHeight som)) (enumerate 0 (SOM_OldRequest som)) p;
         p = p\<lparr>PN_sequenceID := SOM_SeqEndHeight som + 1\<rparr>
     in
     rbind (case PN_height2Digest p (PN_sequenceID p) of
              None \<Rightarrow> Inr ([], p)
            | Some rDigest \<Rightarrow>
                (case PN_requestPool p rDigest of
                   None \<Rightarrow> Inr ([], p)
                 | Some r \<Rightarrow>
                     let ppmsg = \<lparr>PP_RequestMsg = r, PP_Digest = sha_req E r,
                                  PP_SeqID = PN_sequenceID p\<rparr>
                     in rbind (HandleinPrePrepare M ppmsg p) (\<lambda>(flag, p).
                        Inr (if flag then broadcast_from p (prepare_for ppmsg p) else [], p))))
       (\<lambda>(out, p).
        if PN_askForLock p then Inr (out, p\<lparr>PN_askForLock := False\<rparr>)
        else Inl (Panic ''sync: unlock of unlocked mutex'')))"

definition WaitToStop :: "('d, 'b) pnode \<Rightarrow> ('d, 'b) pnode" where
  "WaitToStop p = p\<lparr>PN_stop := True\<rparr>"

text \<open>\<^verbatim>\<open>handleMessage\<close>; messages of other types go to the outside module \<open>ohm\<close>.\<close>

definition handleMessage ::
    "('t, 'd, 'b) env \<Rightarrow> ('d, 'b) ihm \<Rightarrow> (net_msg \<Rightarrow> ('d, 'b) pnode \<Rightarrow> (sends \<times> ('d, 'b) pnode) res)
      \<Rightarrow> net_msg \<Rightarrow> ('d, 'b) pnode \<Rightarrow> (sends \<times> ('d, 'b) pnode) res" where
  "handleMessage E M ohm msg p =
     (case msg of
        MPrePrepare m \<Rightarrow> handlePrePrepare E M m p
      | MPrepare m \<Rightarrow> handlePrepare E M m p
      | MCommit m \<Rightarrow> handleCommit E M m p
      | MRequestOld m \<Rightarrow> handleRequestOldSeq E M m p
      | MSendOld m \<Rightarrow> handleSendOldSeq E M m p
      | MStop \<Rightarrow> Inr ([], WaitToStop p)
      | _ \<Rightarrow> ohm msg p)"

end
