(* ===== verification/PbftMods.thy ===== *)
theory PbftMods
  imports Pbft
begin

text \<open>
  The modules that say what a PBFT shard does with its requests: transaction relay
  (\<^verbatim>\<open>pbftInside_module.go\<close>, \<^verbatim>\<open>pbftOutside_module.go\<close>), relay of UTXO transactions
  (\<^verbatim>\<open>..._module_utxo.go\<close>) and brokers (\<^verbatim>\<open>..._moduleBroker.go\<close>), all under
  \<^verbatim>\<open>src/consensus_shard/pbft_all\<close>.

  \<open>now i\<close> is the \<open>i\<close>-th reading of the clock in a call. The committed block is a freshly decoded
  object; marking a transaction as relayed changes it in that block, and therefore also in
  \<^verbatim>\<open>CurrentBlock\<close> when the block was accepted (\<open>mark_current\<close>), but not in the stored copy.
\<close>

section \<open>Shared parts\<close>

definition put_chain :: "('d, 'b) BlockChain \<Rightarrow> ('d, 'b) pnode \<Rightarrow> ('d, 'b) pnode" where
  "put_chain bc p = p\<lparr>PN_CurChain := bc\<rparr>"

definition propose_block ::
    "('t, 'd, 'b) env \<Rightarrow> (nat \<Rightarrow> go_time) \<Rightarrow> ('d, 'b) pnode
      \<Rightarrow> (sends \<times> Request option \<times> ('d, 'b) pnode) res" where
  "propose_block E now p =
     rbind (GenerateBlock E (now 0) (PN_CurChain p)) (\<lambda>(block, bc).
     Inr ([], Some \<lparr>R_RequestType = BlockRequest, R_Content = GobB block, R_ReqTime = now 1\<rparr>,
          put_chain bc p))"

definition preprepare_block ::
    "(Block \<Rightarrow> ('d, 'b) BlockChain \<Rightarrow> string option) \<Rightarrow> PrePrepare \<Rightarrow> ('d, 'b) pnode
      \<Rightarrow> (bool \<times> ('d, 'b) pnode) res" where
  "preprepare_block valid ppmsg p =
     rbind (DecodeB (R_Content (PP_RequestMsg ppmsg))) (\<lambda>b.
     if valid b (PN_CurChain p) \<noteq> None then Inr (False, p)
     else Inr (True, p\<lparr>PN_requestPool := (PN_requestPool p)(PP_Digest ppmsg \<mapsto> PP_RequestMsg ppmsg)\<rparr>))"

text \<open>The loop \<^verbatim>\<open>for height := start; height <= end; height++\<close> with the requests indexed by
  \<^verbatim>\<open>height-start\<close>: the number of iterations, one more (which is out of range) when the loop variable
  wraps around.\<close>

definition height_count :: "u64 \<Rightarrow> u64 \<Rightarrow> nat" where
  "height_count start end =
     (if start \<le> end then unat end - unat start + 1 + (if end = -1 then 1 else 0) else 0)"

fun add_old_blocks ::
    "('t, 'd, 'b) env \<Rightarrow> nat \<Rightarrow> nat \<Rightarrow> Request list \<Rightarrow> ('d, 'b) BlockChain \<Rightarrow> ('d, 'b) BlockChain res" where
  "add_old_blocks E 0 i rs bc = Inr bc"
| "add_old_blocks E (Suc n) i rs bc =
     (if i < length rs then
        rbind (if R_RequestType (rs ! i) = BlockRequest
               then rbind (DecodeB (R_Content (rs ! i))) (\<lambda>b. AddBlock E b bc)
               else Inr bc)
          (add_old_blocks E n (Suc i) rs)
      else Inl (Panic ''index out of range''))"

definition shard_ids :: "('d, 'b) pnode \<Rightarrow> u64 list" where
  "shard_ids p = map of_nat [0..<unat (CC_ShardNums (PN_pbftChainConfig p))]"

definition mark_current :: "bool \<Rightarrow> Block \<Rightarrow> ('d, 'b) BlockChain \<Rightarrow> ('d, 'b) BlockChain" where
  "mark_current accepted block bc = (if accepted then bc\<lparr>CurrentBlock := block\<rparr> else bc)"

definition accepted :: "Block \<Rightarrow> ('d, 'b) BlockChain \<Rightarrow> bool" where
  "accepted b bc \<longleftrightarrow> B_Number b = B_Number (CurrentBlock bc) + 1"

definition block_info ::
    "(nat \<Rightarrow> go_time) \<Rightarrow> nat \<Rightarrow> Transaction list \<Rightarrow> Transaction list \<Rightarrow> Transaction list \<Rightarrow> Transaction list
      \<Rightarrow> Request \<Rightarrow> ('d, 'b) pnode \<Rightarrow> string \<times> net_msg" where
  "block_info now len excuted relay1 broker1 broker2 r p =
     (ip_of (PN_ip_nodeTable p) DeciderShard 0,
      MBlockInfo \<lparr>BI_BlockBodyLength = int len, BI_ExcutedTxs = excuted, BI_Epoch = 0,
        BI_ProposeTime = R_ReqTime r, BI_CommitTime = now 0, BI_SenderShardID = PN_ShardID p,
        BI_Relay1TxNum = of_nat (length relay1), BI_Relay1Txs = relay1,
        BI_Broker1TxNum = of_nat (length broker1), BI_Broker1Txs = broker1,
        BI_Broker2TxNum = of_nat (length broker2), BI_Broker2Txs = broker2\<rparr>)"

section \<open>Transaction relay\<close>

text \<open>The loop over the block body: \<open>(relay pool, executed, relayed, the body afterwards)\<close>.\<close>

definition classify_tx ::
    "('t, 'd, 'b) env \<Rightarrow> ('d, 'b) BlockChain \<Rightarrow> u64 \<Rightarrow> Transaction
      \<Rightarrow> TxPool \<times> Transaction list \<times> Transaction list \<times> Transaction list
      \<Rightarrow> (TxPool \<times> Transaction list \<times> Transaction list \<times> Transaction list) res" where
  "classify_tx E bc shard tx acc =
     (let (pool, txExcuted, relay1Txs, body) = acc in
      rbind (Get_PartitionMap E bc (Tx_Recipient tx)) (\<lambda>rsid.
      if rsid \<noteq> shard then
        (let ntx = tx\<lparr>Tx_Relayed := True\<rparr> in
         rbind (AddRelayTx ntx rsid pool) (\<lambda>pool.
         Inr (pool, txExcuted, relay1Txs @ [ntx], body @ [ntx])))
      else Inr (pool, txExcuted @ [tx], relay1Txs, body @ [tx])))"

definition relay_msgs :: "TxPool \<Rightarrow> ('d, 'b) pnode \<Rightarrow> sends" where
  "relay_msgs pool p =
     map (\<lambda>sid. (ip_of (PN_ip_nodeTable p) sid 0,
                  MRelay \<lparr>RL_Txs = relay_of pool sid, RL_SenderShardID = PN_ShardID p,
                          RL_SenderSeq = PN_sequenceID p\<rparr>))
       (filter (\<lambda>sid. \<not> (sid = PN_ShardID p \<or> length (relay_of pool sid) = 0)) (shard_ids p))"

definition Relay_HandleinCommit ::
    "('t, 'd, 'b) env \<Rightarrow> (nat \<Rightarrow> go_time) \<Rightarrow> Commit \<Rightarrow> ('d, 'b) pnode
      \<Rightarrow> (sends \<times> ('d, 'b) pnode) res" where
  "Relay_HandleinCommit E now cmsg p =
     rbind (opt_or (Panic ''nil pointer dereference'') (PN_requestPool p (C_Digest cmsg))) (\<lambda>r.
     rbind (DecodeB (R_Content r)) (\<lambda>block.
     rbind (AddBlock E block (PN_CurChain p)) (\<lambda>bc.
     if PN_NodeID p = PN_view p then
       rbind (rfold (classify_tx E bc (PN_ShardID p)) (B_Body block)
                ((Txpool bc)\<lparr>RelayPool := Some []\<rparr>, [], [], []))
         (\<lambda>(pool, txExcuted, relay1Txs, body).
          Inr (relay_msgs pool p
                 @ [block_info now (length (B_Body block)) txExcuted relay1Txs [] [] r p],
               put_chain (mark_current (accepted block (PN_CurChain p)) (block\<lparr>B_Body := body\<rparr>)
                            (bc\<lparr>Txpool := ClearRelayPool pool\<rparr>)) p))
     else Inr ([], put_chain bc p))))"

definition Relay_HandleforSequentialRequest ::
    "('t, 'd, 'b) env \<Rightarrow> SendOldMessage \<Rightarrow> ('d, 'b) pnode \<Rightarrow> ('d, 'b) pnode res" where
  "Relay_HandleforSequentialRequest E som p =
     (if sint (SOM_SeqEndHeight som - SOM_SeqStartHeight som + 1) \<noteq> int (length (SOM_OldRequest som))
      then Inr p
      else
        rbind (add_old_blocks E (height_count (SOM_SeqStartHeight som) (SOM_SeqEndHeight som)) 0
                 (SOM_OldRequest som) (PN_CurChain p)) (\<lambda>bc.
        Inr ((put_chain bc p)\<lparr>PN_sequenceID := SOM_SeqEndHeight som + 1\<rparr>)))"

definition relay_mod :: "('t, 'd, 'b) env \<Rightarrow> (nat \<Rightarrow> go_time) \<Rightarrow> ('d, 'b) ihm" where
  "relay_mod E now =
     \<lparr>HandleinPropose = propose_block E now,
      HandleinPrePrepare = preprepare_block (IsValidBlock E),
      HandleinPrepare = (\<lambda>_ p. Inr p),
      HandleinCommit = Relay_HandleinCommit E now,
      HandleReqestforOldSeq = (\<lambda>_ p. Inr p),
      HandleforSequentialRequest = Relay_HandleforSequentialRequest E\<rparr>"

definition add_to_pool ::
    "(nat \<Rightarrow> go_time) \<Rightarrow> Transaction list \<Rightarrow> ('d, 'b) pnode \<Rightarrow> ('d, 'b) pnode" where
  "add_to_pool clk txs p = put_chain (SendTx2Pool clk txs (PN_CurChain p)) p"

definition Relay_handleRelay ::
    "(nat \<Rightarrow> go_time) \<Rightarrow> Relay \<Rightarrow> ('d, 'b) pnode \<Rightarrow> ('d, 'b) pnode" where
  "Relay_handleRelay clk relay p =
     (let p = add_to_pool clk (RL_Txs relay) p
      in p\<lparr>PN_seqIDMap := gput (RL_SenderShardID relay) (RL_SenderSeq relay) (PN_seqIDMap p)\<rparr>)"

definition handleInjectTx ::
    "(nat \<Rightarrow> go_time) \<Rightarrow> InjectTxs \<Rightarrow> ('d, 'b) pnode \<Rightarrow> ('d, 'b) pnode" where
  "handleInjectTx clk it p = add_to_pool clk (IT_Txs it) p"

definition Relay_HandleMessageOutsidePBFT ::
    "(nat \<Rightarrow> go_time) \<Rightarrow> net_msg \<Rightarrow> ('d, 'b) pnode \<Rightarrow> (sends \<times> ('d, 'b) pnode) res" where
  "Relay_HandleMessageOutsidePBFT clk msg p =
     (case msg of
        MRelay m \<Rightarrow> Inr ([], Relay_handleRelay clk m p)
      | MInject m \<Rightarrow> Inr ([], handleInjectTx clk m p)
      | _ \<Rightarrow> Inr ([], p))"

section \<open>Relay of UTXO transactions\<close>

definition U_classify_tx ::
    "('t, 'd, 'b) env \<Rightarrow> ('d, 'b) BlockChain \<Rightarrow> u64 \<Rightarrow> UTXOTransaction
      \<Rightarrow> UTXOTxPool \<times> UTXOTransaction list \<times> UTXOTransaction list \<times> UTXOTransaction list
      \<Rightarrow> (UTXOTxPool \<times> UTXOTransaction list \<times> UTXOTransaction list \<times> UTXOTransaction list) res" where
  "U_classify_tx E bc shard tx acc =
     (let (pool, txExcuted, relay1Txs, body) = acc in
      if IsCoinbase tx then Inr (pool, txExcuted @ [tx], relay1Txs, body @ [tx])
      else
        rbind (Get_PartitionMap E bc (U_Recipient tx)) (\<lambda>rsid.
        if rsid \<noteq> shard then
          (let ntx = tx\<lparr>U_Relayed := True\<rparr> in
           rbind (U_AddRelayTx ntx rsid pool) (\<lambda>pool.
           Inr (pool, txExcuted, relay1Txs @ [ntx], body @ [ntx])))
        else Inr (pool, txExcuted @ [tx], relay1Txs, body @ [tx])))"

text \<open>As in the source, the guard of the sending loop looks at the relay pool of the account pool
  \<open>apool\<close>, while the message takes the UTXO pool's.\<close>

definition U_relay_msgs :: "TxPool \<Rightarrow> UTXOTxPool \<Rightarrow> ('d, 'b) pnode \<Rightarrow> sends" where
  "U_relay_msgs apool pool p =
     map (\<lambda>sid. (ip_of (PN_ip_nodeTable p) sid 0,
                  MRelayUTXO \<lparr>RU_Txs = U_relay_of pool sid, RU_SenderShardID = PN_ShardID p,
                              RU_SenderSeq = PN_sequenceID p\<rparr>))
       (filter (\<lambda>sid. \<not> (sid = PN_ShardID p \<or> length (relay_of apool sid) = 0)) (shard_ids p))"

definition makeup_tx :: "UTXOTransaction \<Rightarrow> Transaction" where
  "makeup_tx tx =
     \<lparr>Tx_Sender = [], Tx_Recipient = [], Tx_Nonce = 0, Tx_Value = 0, Tx_TxHash = U_TxHash tx,
      Tx_Time = U_Time tx, Tx_Relayed = False, Tx_HasBroker = False, Tx_SenderIsBroker = False,
      Tx_OriginalSender = [], Tx_FinalRecipient = [], Tx_RawTxHash = None\<rparr>"

definition UTXO_HandleinCommit ::
    "('t, 'd, 'b) env \<Rightarrow> (nat \<Rightarrow> go_time) \<Rightarrow> Commit \<Rightarrow> ('d, 'b) pnode
      \<Rightarrow> (sends \<times> ('d, 'b) pnode) res" where
  "UTXO_HandleinCommit E now cmsg p =
     rbind (opt_or (Panic ''nil pointer dereference'') (PN_requestPool p (C_Digest cmsg))) (\<lambda>r.
     rbind (DecodeB (R_Content r)) (\<lambda>block.
     rbind (AddBlock E block (PN_CurChain p)) (\<lambda>bc.
     if PN_NodeID p = PN_view p then
       rbind (rfold (U_classify_tx E bc (PN_ShardID p)) (B_UTXO block)
                ((UTXOTxpool bc)\<lparr>U_RelayPool := Some []\<rparr>, [], [], []))
         (\<lambda>(pool, txExcuted, relay1Txs, body).
          Inr (U_relay_msgs (Txpool bc) pool p
                 @ [block_info now (length (B_UTXO block)) (map makeup_tx txExcuted)
                      (map makeup_tx relay1Txs) [] [] r p],
               put_chain (mark_current (accepted block (PN_CurChain p)) (block\<lparr>B_UTXO := body\<rparr>)
                            (bc\<lparr>UTXOTxpool := U_ClearRelayPool pool\<rparr>)) p))
     else Inr ([], put_chain bc p))))"

definition utxo_mod :: "('t, 'd, 'b) env \<Rightarrow> (nat \<Rightarrow> go_time) \<Rightarrow> ('d, 'b) ihm" where
  "utxo_mod E now =
     \<lparr>HandleinPropose = propose_block E now,
      HandleinPrePrepare = preprepare_block (IsValidUTXOBlock E),
      HandleinPrepare = (\<lambda>_ p. Inr p),
      HandleinCommit = UTXO_HandleinCommit E now,
      HandleReqestforOldSeq = (\<lambda>_ p. Inr p),
      HandleforSequentialRequest = Relay_HandleforSequentialRequest E\<rparr>"

text \<open>\<^verbatim>\<open>handleRelay\<close>: every output of a relayed transaction becomes a coinbase; \<open>nonce i\<close> is the random
  number of the \<open>i\<close>-th one.\<close>

definition relayed_outs :: "UTXOTransaction list \<Rightarrow> (bytes \<times> TxOut) list" where
  "relayed_outs txs = concat (map (\<lambda>tx. map (\<lambda>out. (U_TxHash tx, out)) (U_Vout tx)) txs)"

definition UTXO_handleRelay ::
    "('t, 'd, 'b) env \<Rightarrow> (nat \<Rightarrow> 64 word) \<Rightarrow> (nat \<Rightarrow> go_time) \<Rightarrow> RelayUTXO \<Rightarrow> ('d, 'b) pnode
      \<Rightarrow> ('d, 'b) pnode" where
  "UTXO_handleRelay E nonce clk relay p =
     (let newTxs = map (\<lambda>(i, h, out). NewCoinbaseTX (sha_utxo E) (nonce i) (Out_PubKeyHash out)
                                         (Out_Value out) (Some h))
                     (enumerate 0 (relayed_outs (RU_Txs relay)));
          bc = PN_CurChain p;
          p = put_chain (bc\<lparr>UTXOTxpool := U_AddTxs2Pool clk newTxs (UTXOTxpool bc)\<rparr>) p
      in p\<lparr>PN_seqIDMap := gput (RU_SenderShardID relay) (RU_SenderSeq relay) (PN_seqIDMap p)\<rparr>)"

definition UTXO_HandleMessageOutsidePBFT ::
    "('t, 'd, 'b) env \<Rightarrow> (nat \<Rightarrow> 64 word) \<Rightarrow> (nat \<Rightarrow> go_time) \<Rightarrow> net_msg \<Rightarrow> ('d, 'b) pnode
      \<Rightarrow> (sends \<times> ('d, 'b) pnode) res" where
  "UTXO_HandleMessageOutsidePBFT E nonce clk msg p =
     (case msg of
        MRelayUTXO m \<Rightarrow> Inr ([], UTXO_handleRelay E nonce clk m p)
      | MInject m \<Rightarrow> Inr ([], handleInjectTx clk m p)
      | _ \<Rightarrow> Inr ([], p))"

section \<open>Brokers\<close>

definition broker_class :: "Transaction \<Rightarrow> nat" where
  "broker_class tx =
     (let isInnerShardTx = (Tx_RawTxHash tx = None);
          isBroker1Tx = (\<not> isInnerShardTx \<and> Tx_Sender tx = Tx_OriginalSender tx);
          isBroker2Tx = (\<not> isInnerShardTx \<and> Tx_Recipient tx = Tx_FinalRecipient tx)
      in if isBroker2Tx then 2 else if isBroker1Tx then 1 else 0)"

definition seq_msgs :: "('d, 'b) pnode \<Rightarrow> sends" where
  "seq_msgs p =
     map (\<lambda>sid. (ip_of (PN_ip_nodeTable p) sid 0,
                  MSeqID \<lparr>SI_SenderShardID = PN_ShardID p, SI_SenderSeq = PN_sequenceID p\<rparr>))
       (filter (\<lambda>sid. sid \<noteq> PN_ShardID p) (shard_ids p))"

definition Broker_HandleinCommit ::
    "('t, 'd, 'b) env \<Rightarrow> (nat \<Rightarrow> go_time) \<Rightarrow> Commit \<Rightarrow> ('d, 'b) pnode
      \<Rightarrow> (sends \<times> ('d, 'b) pnode) res" where
  "Broker_HandleinCommit E now cmsg p =
     rbind (opt_or (Panic ''nil pointer dereference'') (PN_requestPool p (C_Digest cmsg))) (\<lambda>r.
     rbind (DecodeB (R_Content r)) (\<lambda>block.
     rbind (AddBlock E block (PN_CurChain p)) (\<lambda>bc.
     if PN_NodeID p = PN_view p then
       (let txs = (\<lambda>k. filter (\<lambda>tx. broker_class tx = k) (B_Body block)) in
        Inr (seq_msgs p
               @ [block_info now (length (B_Body block)) (txs 0) [] (txs 1) (txs 2) r p],
             put_chain bc p))
     else Inr ([], put_chain bc p))))"

text \<open>The check here subtracts the heights the other way round.\<close>

definition Broker_HandleforSequentialRequest ::
    "('t, 'd, 'b) env \<Rightarrow> SendOldMessage \<Rightarrow> ('d, 'b) pnode \<Rightarrow> ('d, 'b) pnode res" where
  "Broker_HandleforSequentialRequest E som p =
     (if sint (SOM_SeqStartHeight som - SOM_SeqEndHeight som) \<noteq> int (length (SOM_OldRequest som))
      then Inr p
      else
        rbind (add_old_blocks E (height_count (SOM_SeqStartHeight som) (SOM_SeqEndHeight som)) 0
                 (SOM_OldRequest som) (PN_CurChain p)) (\<lambda>bc.
        Inr ((put_chain bc p)\<lparr>PN_sequenceID := SOM_SeqEndHeight som + 1\<rparr>)))"

definition broker_mod :: "('t, 'd, 'b) env \<Rightarrow> (nat \<Rightarrow> go_time) \<Rightarrow> ('d, 'b) ihm" where
  "broker_mod E now =
     \<lparr>HandleinPropose = propose_block E now,
      HandleinPrePrepare = preprepare_block (IsValidBlock E),
      HandleinPrepare = (\<lambda>_ p. Inr p),
      HandleinCommit = Broker_HandleinCommit E now,
      HandleReqestforOldSeq = (\<lambda>_ p. Inr p),
      HandleforSequentialRequest = Broker_HandleforSequentialRequest E\<rparr>"

definition handleSeqIDinfos :: "SeqIDinfo \<Rightarrow> ('d, 'b) pnode \<Rightarrow> ('d, 'b) pnode" where
  "handleSeqIDinfos sii p =
     p\<lparr>PN_seqIDMap := gput (SI_SenderShardID sii) (SI_SenderSeq sii) (PN_seqIDMap p)\<rparr>"

definition Broker_HandleMessageOutsidePBFT ::
    "(nat \<Rightarrow> go_time) \<Rightarrow> net_msg \<Rightarrow> ('d, 'b) pnode \<Rightarrow> (sends \<times> ('d, 'b) pnode) res" where
  "Broker_HandleMessageOutsidePBFT clk msg p =
     (case msg of
        MSeqID m \<Rightarrow> Inr ([], handleSeqIDinfos m p)
      | MInject m \<Rightarrow> Inr ([], handleInjectTx clk m p)
      | _ \<Rightarrow> Inr ([], p))"

end
