(* ===== verification/Clpa.thy ===== *)
theory Clpa
  imports PbftMods
begin

text \<open>
  The modules of a shard that takes part in re-sharding
  (\<^verbatim>\<open>src/consensus_shard/pbft_all/pbftInside_moduleCLPA.go\<close>, \<^verbatim>\<open>pbftOutside_moduleCLPA.go\<close>,
  \<^verbatim>\<open>accountTransfer_module.go\<close>) and their variants for brokers (\<^verbatim>\<open>pbftInside_modCLPABroker.go\<close>,
  \<^verbatim>\<open>pbftOutside_modCLPABroker.go\<close>, \<^verbatim>\<open>accountTransfermod_Broker.go\<close>).

  When the supervisor has sent a new partition (\<^verbatim>\<open>PartitionOn\<close>), the leaders of all shards stop making
  blocks, tell each other that they are ready, exchange the accounts and queued transactions that
  change their shard, and then agree in their shards on a request that adds the received accounts.

  Go leaves the order of a range over a map open; where the code ranges over a map it has built
  itself, the order is an argument (\<open>clpa_ord\<close>).
\<close>

record clpa_ord =
  CO_AccountStateTx :: "(u64, AccountStateAndTx) gomap \<Rightarrow> (u64, AccountStateAndTx) gomap"
  CO_AccountState :: "(string, AccountState) gomap \<Rightarrow> (string, AccountState) gomap"

definition shard_in :: "(string, u64) gomap \<Rightarrow> string \<Rightarrow> u64" where
  "shard_in m addr = (case gget m addr of None \<Rightarrow> 0 | Some s \<Rightarrow> s)"

abbreviation upd_cdm :: "(Data_supportCLPA \<Rightarrow> Data_supportCLPA) \<Rightarrow> ('d, 'b) pnode \<Rightarrow> ('d, 'b) pnode" where
  "upd_cdm f p \<equiv> p\<lparr>PN_cdm := f (PN_cdm p)\<rparr>"

section \<open>Exchanging accounts\<close>

definition ready_dests :: "('d, 'b) pnode \<Rightarrow> u64 list" where
  "ready_dests p =
     filter (\<lambda>sid. sid \<noteq> PN_ShardID p)
       (map of_nat [0..<nat (sint (CC_ShardNums (PN_pbftChainConfig p)))])"

definition sendPartitionReady :: "('d, 'b) pnode \<Rightarrow> sends \<times> ('d, 'b) pnode" where
  "sendPartitionReady p =
     (let pr = \<lparr>PRD_FromShard = PN_ShardID p, PRD_NowSeqID = PN_sequenceID p\<rparr>
      in (map (\<lambda>sid. (ip_of (PN_ip_nodeTable p) sid 0, MPartitionReady pr)) (ready_dests p),
          upd_cdm (\<lambda>cd. cd\<lparr>CD_PartitionReady := gput (PN_ShardID p) True (CD_PartitionReady cd)\<rparr>) p))"

definition getPartitionReady :: "('d, 'b) pnode \<Rightarrow> bool" where
  "getPartitionReady p =
     (let cd = PN_cdm p;
          flag = list_all (\<lambda>(sid, val). case CD_ReadySeq cd sid of
                   None \<Rightarrow> False | Some rval \<Rightarrow> rval - 1 = val) (PN_seqIDMap p)
      in int (length (CD_PartitionReady cd)) = sint (CC_ShardNums (PN_pbftChainConfig p)) \<and> flag)"

text \<open>\<^verbatim>\<open>accountToFetch\<close>: the accounts that leave this shard, in the order of the range over the map.\<close>

definition fetch_key ::
    "('t, 'd, 'b) env \<Rightarrow> ('d, 'b) pnode \<Rightarrow> string \<times> u64 \<Rightarrow> string list \<Rightarrow> string list res" where
  "fetch_key E p kv acc =
     (if snd kv \<noteq> PN_ShardID p
      then rbind (Get_PartitionMap E (PN_CurChain p) (fst kv)) (\<lambda>s.
             Inr (if s = PN_ShardID p then acc @ [fst kv] else acc))
      else Inr acc)"

definition last_map :: "('d, 'b) pnode \<Rightarrow> (string, u64) gomap res" where
  "last_map p =
     (if CD_ModifiedMap (PN_cdm p) = [] then Inl (Panic ''index out of range'')
      else Inr (last (CD_ModifiedMap (PN_cdm p))))"

text \<open>The pass of \<^verbatim>\<open>secondPtr\<close> over the queue: what is sent, and what is written back at \<^verbatim>\<open>firstPtr\<close>.\<close>

definition tx_moves :: "string list \<Rightarrow> Transaction \<Rightarrow> bool" where
  "tx_moves addrSet ptx =
     ((Tx_Sender ptx \<in> set addrSet \<and> \<not> Tx_Relayed ptx) \<or>
      (Tx_Recipient ptx \<in> set addrSet \<and> Tx_Relayed ptx))"

fun split_queue ::
    "string list \<Rightarrow> Transaction list \<Rightarrow> Transaction list \<times> Transaction list
      \<Rightarrow> Transaction list \<times> Transaction list" where
  "split_queue addrSet [] acc = acc"
| "split_queue addrSet (ptx # txs) (txSend, kept) =
     split_queue addrSet txs
       (if tx_moves addrSet ptx then (txSend @ [ptx], kept) else (txSend, kept @ [ptx]))"

text \<open>One pass of the loop over the shards. \<open>fetched\<close> pairs \<^verbatim>\<open>accountToFetch\<close> with \<^verbatim>\<open>asFetched\<close>, which
  have the same length.\<close>

definition send_shard ::
    "('d, 'b) pnode \<Rightarrow> (string, u64) gomap \<Rightarrow> (string \<times> AccountState) list \<Rightarrow> u64
      \<Rightarrow> sends \<times> Transaction list \<Rightarrow> sends \<times> Transaction list" where
  "send_shard p m fetched i st =
     (let (out, queue) = st;
          moved = filter (\<lambda>(addr, _). shard_in m addr = i) fetched;
          (txSend, queue') = split_queue (map fst moved) queue ([], []);
          ast = \<lparr>AST_Addrs = map fst moved, AST_AccountState = map snd moved,
                 AST_Txs = txSend, AST_FromShard = PN_ShardID p\<rparr>
      in (out @ [(ip_of (PN_ip_nodeTable p) i 0, MAccountStateAndTx ast)], queue'))"

definition put_queue :: "Transaction list \<Rightarrow> ('d, 'b) pnode \<Rightarrow> ('d, 'b) pnode" where
  "put_queue q p =
     put_chain ((PN_CurChain p)\<lparr>Txpool := (Txpool (PN_CurChain p))\<lparr>TxQueue := q\<rparr>\<rparr>) p"

definition sendAccounts_and_Txs ::
    "('t, 'd, 'b) env \<Rightarrow> ('d, 'b) pnode \<Rightarrow> (sends \<times> ('d, 'b) pnode) res" where
  "sendAccounts_and_Txs E p =
     rbind (last_map p) (\<lambda>m.
     rbind (rfold (fetch_key E p) m []) (\<lambda>accountToFetch.
     rbind (FetchAccounts E accountToFetch (PN_CurChain p)) (\<lambda>asFetched.
     let (out, q) = fold (send_shard p m (zip accountToFetch asFetched))
                      (filter (\<lambda>i. i \<noteq> PN_ShardID p) (shard_ids p))
                      ([], TxQueue (Txpool (PN_CurChain p)))
     in Inr (out, put_queue q p))))"

definition getCollectOver :: "('d, 'b) pnode \<Rightarrow> bool" where
  "getCollectOver p = CD_CollectOver (PN_cdm p)"

text \<open>\<^verbatim>\<open>proposePartition\<close>: merge what was received, check and queue the transactions, build the
  request.\<close>

definition merge_received :: "u64 \<times> AccountStateAndTx \<Rightarrow> Data_supportCLPA \<Rightarrow> Data_supportCLPA res" where
  "merge_received sat cd =
     (let at = snd sat in
      rbind (rfold (\<lambda>(i, addr) m. rbind (index_at (AST_AccountState at) i) (\<lambda>a. Inr (gput addr a m)))
               (enumerate 0 (AST_Addrs at)) (CD_ReceivedNewAccountState cd)) (\<lambda>m.
      Inr (cd\<lparr>CD_ReceivedNewAccountState := m, CD_ReceivedNewTx := CD_ReceivedNewTx cd @ AST_Txs at\<rparr>)))"

definition round_map :: "Data_supportCLPA \<Rightarrow> (string, u64) gomap res" where
  "round_map cd = index_at (CD_ModifiedMap cd) (unat (CD_AccountTransferRound cd))"

definition check_received :: "u64 \<Rightarrow> Data_supportCLPA \<Rightarrow> Transaction \<Rightarrow> unit \<Rightarrow> unit res" where
  "check_received shard cd tx _ =
     rbind (round_map cd) (\<lambda>m.
     if shard_in m (if Tx_Relayed tx then Tx_Recipient tx else Tx_Sender tx) \<noteq> shard
     then Inl (Panic ''error tx'') else Inr ())"

definition partition_request ::
    "(nat \<Rightarrow> go_time) \<Rightarrow> clpa_ord \<Rightarrow> Data_supportCLPA \<Rightarrow> Request res" where
  "partition_request now ord cd =
     rbind (round_map cd) (\<lambda>m.
     let asl = CO_AccountState ord (CD_ReceivedNewAccountState cd)
     in Inr \<lparr>R_RequestType = PartitionReq,
             R_Content = GobATM \<lparr>ATM_ModifiedMap = m, ATM_Addrs = map fst asl,
                                 ATM_AccountState = map snd asl,
                                 ATM_ATid = of_nat (length (CD_ModifiedMap cd))\<rparr>,
             R_ReqTime = now 0\<rparr>)"

definition proposePartition ::
    "(nat \<Rightarrow> go_time) \<Rightarrow> (nat \<Rightarrow> go_time) \<Rightarrow> clpa_ord \<Rightarrow> ('d, 'b) pnode
      \<Rightarrow> (Request \<times> ('d, 'b) pnode) res" where
  "proposePartition now clk ord p =
     rbind (rfold merge_received (CO_AccountStateTx ord (CD_AccountStateTx (PN_cdm p))) (PN_cdm p)) (\<lambda>cd.
     rbind (rfold (check_received (PN_ShardID p) cd) (CD_ReceivedNewTx cd) ()) (\<lambda>_.
     let p = add_to_pool clk (CD_ReceivedNewTx cd) (p\<lparr>PN_cdm := cd\<rparr>)
     in rbind (partition_request now ord cd) (\<lambda>r. Inr (r, p))))"

definition accountTransfer_do ::
    "('t, 'd, 'b) env \<Rightarrow> AccountTransferMsg \<Rightarrow> ('d, 'b) pnode \<Rightarrow> ('d, 'b) pnode res" where
  "accountTransfer_do E atm p =
     (let bc = fold (\<lambda>(key, val). Update_PartitionMap key val) (ATM_ModifiedMap atm) (PN_CurChain p) in
      rbind (AddAccounts E (ATM_Addrs atm) (ATM_AccountState atm) bc) (\<lambda>bc.
      Inr (upd_cdm (\<lambda>cd. cd\<lparr>CD_ModifiedMap := CD_ModifiedMap cd @
                               (if of_nat (length (CD_ModifiedMap cd)) \<noteq> ATM_ATid atm
                                then [ATM_ModifiedMap atm] else []),
                             CD_AccountTransferRound := ATM_ATid atm, CD_AccountStateTx := [],
                             CD_ReceivedNewAccountState := [], CD_ReceivedNewTx := [],
                             CD_PartitionOn := False, CD_CollectOver := False,
                             CD_PartitionReady := []\<rparr>) (put_chain bc p))))"

section \<open>The inside module\<close>

definition CLPA_HandleinPropose ::
    "('t, 'd, 'b) env \<Rightarrow> (nat \<Rightarrow> go_time) \<Rightarrow> (nat \<Rightarrow> go_time) \<Rightarrow> clpa_ord \<Rightarrow> ('d, 'b) pnode
      \<Rightarrow> (sends \<times> Request option \<times> ('d, 'b) pnode) res" where
  "CLPA_HandleinPropose E now clk ord p =
     (case PN_propose_pc p of
        PC_start \<Rightarrow>
          if CD_PartitionOn (PN_cdm p)
          then (let (out, p) = sendPartitionReady p in Inr (out, None, p\<lparr>PN_propose_pc := PC_ready\<rparr>))
          else propose_block E now p
      | PC_ready \<Rightarrow>
          if getPartitionReady p
          then rbind (sendAccounts_and_Txs E p) (\<lambda>(out, p). Inr (out, None, p\<lparr>PN_propose_pc := PC_collect\<rparr>))
          else Inr ([], None, p)
      | PC_collect \<Rightarrow>
          if getCollectOver p
          then rbind (proposePartition now clk ord p) (\<lambda>(r, p). Inr ([], Some r, p\<lparr>PN_propose_pc := PC_start\<rparr>))
          else Inr ([], None, p))"

definition CLPA_HandleinPrePrepare ::
    "('t, 'd, 'b) env \<Rightarrow> PrePrepare \<Rightarrow> ('d, 'b) pnode \<Rightarrow> (bool \<times> ('d, 'b) pnode) res" where
  "CLPA_HandleinPrePrepare E ppmsg p =
     (if R_RequestType (PP_RequestMsg ppmsg) = PartitionReq
      then Inr (True, p\<lparr>PN_requestPool := (PN_requestPool p)(PP_Digest ppmsg \<mapsto> PP_RequestMsg ppmsg)\<rparr>)
      else preprepare_block (IsValidBlock E) ppmsg p)"

text \<open>The loop over the body of a committed block; a transaction of another shard is a panic.\<close>

definition clpa_classify_tx ::
    "('t, 'd, 'b) env \<Rightarrow> ('d, 'b) BlockChain \<Rightarrow> u64 \<Rightarrow> Transaction
      \<Rightarrow> TxPool \<times> Transaction list \<times> Transaction list \<times> Transaction list
      \<Rightarrow> (TxPool \<times> Transaction list \<times> Transaction list \<times> Transaction list) res" where
  "clpa_classify_tx E bc shard tx acc =
     (let (pool, txExcuted, relay1Txs, body) = acc in
      rbind (Get_PartitionMap E bc (Tx_Sender tx)) (\<lambda>ssid.
      rbind (Get_PartitionMap E bc (Tx_Recipient tx)) (\<lambda>rsid.
      if \<not> Tx_Relayed tx \<and> ssid \<noteq> shard then Inl (Panic ''incorrect tx'')
      else if Tx_Relayed tx \<and> rsid \<noteq> shard then Inl (Panic ''incorrect tx'')
      else if \<not> Tx_Relayed tx \<and> rsid \<noteq> shard then
        (let ntx = tx\<lparr>Tx_Relayed := True\<rparr> in
         rbind (AddRelayTx ntx rsid pool) (\<lambda>pool.
         Inr (pool, txExcuted, relay1Txs @ [ntx], body @ [ntx])))
      else Inr (pool, txExcuted @ [tx], relay1Txs, body @ [tx]))))"

definition clpa_relay_msgs :: "TxPool \<Rightarrow> ('d, 'b) pnode \<Rightarrow> sends" where
  "clpa_relay_msgs pool p =
     map (\<lambda>sid. (ip_of (PN_ip_nodeTable p) sid 0,
                  MRelay \<lparr>RL_Txs = relay_of pool sid, RL_SenderShardID = PN_ShardID p,
                          RL_SenderSeq = PN_sequenceID p\<rparr>))
       (filter (\<lambda>sid. sid \<noteq> PN_ShardID p) (shard_ids p))"

definition clpa_block_info ::
    "(nat \<Rightarrow> go_time) \<Rightarrow> nat \<Rightarrow> Transaction list \<Rightarrow> Transaction list \<Rightarrow> Transaction list \<Rightarrow> Transaction list
      \<Rightarrow> Request \<Rightarrow> ('d, 'b) pnode \<Rightarrow> string \<times> net_msg" where
  "clpa_block_info now len excuted relay1 broker1 broker2 r p =
     (ip_of (PN_ip_nodeTable p) DeciderShard 0,
      MBlockInfo \<lparr>BI_BlockBodyLength = int len, BI_ExcutedTxs = excuted,
        BI_Epoch = sint (CD_AccountTransferRound (PN_cdm p)),
        BI_ProposeTime = R_ReqTime r, BI_CommitTime = now 0, BI_SenderShardID = PN_ShardID p,
        BI_Relay1TxNum = of_nat (length relay1), BI_Relay1Txs = relay1,
        BI_Broker1TxNum = of_nat (length broker1), BI_Broker1Txs = broker1,
        BI_Broker2TxNum = of_nat (length broker2), BI_Broker2Txs = broker2\<rparr>)"

definition CLPA_HandleinCommit ::
    "('t, 'd, 'b) env \<Rightarrow> (nat \<Rightarrow> go_time) \<Rightarrow> Commit \<Rightarrow> ('d, 'b) pnode
      \<Rightarrow> (sends \<times> ('d, 'b) pnode) res" where
  "CLPA_HandleinCommit E now cmsg p =
     rbind (opt_or (Panic ''nil pointer dereference'') (PN_requestPool p (C_Digest cmsg))) (\<lambda>r.
     if R_RequestType r = PartitionReq then
       rbind (DecodeAccountTransferMsg (R_Content r)) (\<lambda>atm.
       rbind (accountTransfer_do E atm p) (\<lambda>p. Inr ([], p)))
     else
       rbind (DecodeB (R_Content r)) (\<lambda>block.
       rbind (AddBlock E block (PN_CurChain p)) (\<lambda>bc.
       if PN_NodeID p = PN_view p then
         rbind (rfold (clpa_classify_tx E bc (PN_ShardID p)) (B_Body block)
                  ((Txpool bc)\<lparr>RelayPool := Some []\<rparr>, [], [], []))
           (\<lambda>(pool, txExcuted, relay1Txs, body).
            Inr (clpa_relay_msgs pool p
                   @ [clpa_block_info now (length (B_Body block)) txExcuted relay1Txs [] [] r p],
                 put_chain (mark_current (accepted block (PN_CurChain p)) (block\<lparr>B_Body := body\<rparr>)
                              (bc\<lparr>Txpool := ClearRelayPool pool\<rparr>)) p))
       else Inr ([], put_chain bc p))))"

fun clpa_old_requests ::
    "('t, 'd, 'b) env \<Rightarrow> nat \<Rightarrow> nat \<Rightarrow> Request list \<Rightarrow> ('d, 'b) pnode \<Rightarrow> ('d, 'b) pnode res" where
  "clpa_old_requests E 0 i rs p = Inr p"
| "clpa_old_requests E (Suc n) i rs p =
     rbind (index_at rs i) (\<lambda>r.
     rbind (if R_RequestType r = BlockRequest
            then rbind (DecodeB (R_Content r)) (\<lambda>b.
                 rbind (AddBlock E b (PN_CurChain p)) (\<lambda>bc. Inr (put_chain bc p)))
            else rbind (DecodeAccountTransferMsg (R_Content r)) (\<lambda>atm. accountTransfer_do E atm p))
       (clpa_old_requests E n (Suc i) rs))"

definition CLPA_HandleforSequentialRequest ::
    "('t, 'd, 'b) env \<Rightarrow> SendOldMessage \<Rightarrow> ('d, 'b) pnode \<Rightarrow> ('d, 'b) pnode res" where
  "CLPA_HandleforSequentialRequest E som p =
     (if sint (SOM_SeqEndHeight som - SOM_SeqStartHeight som + 1) \<noteq> int (length (SOM_OldRequest som))
      then Inr p
      else
        rbind (clpa_old_requests E (height_count (SOM_SeqStartHeight som) (SOM_SeqEndHeight som)) 0
                 (SOM_OldRequest som) p) (\<lambda>p.
        Inr (p\<lparr>PN_sequenceID := SOM_SeqEndHeight som + 1\<rparr>)))"

definition clpa_mod ::
    "('t, 'd, 'b) env \<Rightarrow> (nat \<Rightarrow> go_time) \<Rightarrow> (nat \<Rightarrow> go_time) \<Rightarrow> clpa_ord \<Rightarrow> ('d, 'b) ihm" where
  "clpa_mod E now clk ord =
     \<lparr>HandleinPropose = CLPA_HandleinPropose E now clk ord,
      HandleinPrePrepare = CLPA_HandleinPrePrepare E,
      HandleinPrepare = (\<lambda>_ p. Inr p),
      HandleinCommit = CLPA_HandleinCommit E now,
      HandleReqestforOldSeq = (\<lambda>_ p. Inr p),
      HandleforSequentialRequest = CLPA_HandleforSequentialRequest E\<rparr>"

section \<open>The outside module\<close>

definition handlePartitionMsg :: "(string, u64) gomap \<Rightarrow> ('d, 'b) pnode \<Rightarrow> ('d, 'b) pnode" where
  "handlePartitionMsg pm p =
     upd_cdm (\<lambda>cd. cd\<lparr>CD_ModifiedMap := CD_ModifiedMap cd @ [pm], CD_PartitionOn := True\<rparr>) p"

definition handlePartitionReady :: "PartitionReady \<Rightarrow> ('d, 'b) pnode \<Rightarrow> ('d, 'b) pnode" where
  "handlePartitionReady pr p =
     upd_cdm (\<lambda>cd. cd\<lparr>CD_PartitionReady := gput (PRD_FromShard pr) True (CD_PartitionReady cd),
                      CD_ReadySeq := (CD_ReadySeq cd)(PRD_FromShard pr \<mapsto> PRD_NowSeqID pr)\<rparr>) p"

definition handleAccountStateAndTxMsg :: "AccountStateAndTx \<Rightarrow> ('d, 'b) pnode \<Rightarrow> ('d, 'b) pnode" where
  "handleAccountStateAndTxMsg at p =
     upd_cdm (\<lambda>cd.
       let pool = gput (AST_FromShard at) at (CD_AccountStateTx cd)
       in cd\<lparr>CD_AccountStateTx := pool,
             CD_CollectOver := CD_CollectOver cd \<or>
               int (length pool) = sint (CC_ShardNums (PN_pbftChainConfig p)) - 1\<rparr>) p"

definition CLPA_HandleMessageOutsidePBFT ::
    "(nat \<Rightarrow> go_time) \<Rightarrow> net_msg \<Rightarrow> ('d, 'b) pnode \<Rightarrow> (sends \<times> ('d, 'b) pnode) res" where
  "CLPA_HandleMessageOutsidePBFT clk msg p =
     (case msg of
        MRelay m \<Rightarrow> Inr ([], Relay_handleRelay clk m p)
      | MInject m \<Rightarrow> Inr ([], handleInjectTx clk m p)
      | MPartition m \<Rightarrow> Inr ([], handlePartitionMsg m p)
      | MAccountStateAndTx m \<Rightarrow> Inr ([], handleAccountStateAndTxMsg m p)
      | MPartitionReady m \<Rightarrow> Inr ([], handlePartitionReady m p)
      | _ \<Rightarrow> Inr ([], p))"

section \<open>The variant for brokers: exchanging accounts\<close>

text \<open>The methods of the broker module repeat those above; where the body is the same, the definition
  says so.\<close>

definition B_sendPartitionReady :: "('d, 'b) pnode \<Rightarrow> sends \<times> ('d, 'b) pnode" where
  "B_sendPartitionReady p = sendPartitionReady p"

definition B_getPartitionReady :: "('d, 'b) pnode \<Rightarrow> bool" where
  "B_getPartitionReady p = getPartitionReady p"

definition B_getCollectOver :: "('d, 'b) pnode \<Rightarrow> bool" where
  "B_getCollectOver p = getCollectOver p"

text \<open>What happens to a queued transaction when the accounts \<open>addrSet\<close> move to another shard: it stays
  (\<open>Stay\<close>), it is sent along and removed (\<^verbatim>\<open>beSend\<close> and \<^verbatim>\<open>beRemoved\<close>), or it is removed and handed to
  the supervisor because it becomes a cross-shard transaction.\<close>

datatype tx_fate = Stay | SendAlong | BeCross

definition broker_fate :: "string list \<Rightarrow> Transaction \<Rightarrow> tx_fate" where
  "broker_fate addrSet ptx =
     (let ok1 = (Tx_Sender ptx \<in> set addrSet); ok2 = (Tx_Recipient ptx \<in> set addrSet);
          send_if = (\<lambda>b. if b then SendAlong else Stay)
      in if Tx_RawTxHash ptx = None then
           (if Tx_HasBroker ptx then (if Tx_SenderIsBroker ptx then send_if ok2 else send_if ok1)
            else if ok1 \<or> ok2 then BeCross else Stay)
         else if Tx_FinalRecipient ptx = Tx_Recipient ptx then send_if ok2
         else if Tx_OriginalSender ptx = Tx_Sender ptx then send_if ok1
         else Stay)"

fun B_split_queue ::
    "string list \<Rightarrow> Transaction list \<Rightarrow> Transaction list \<times> Transaction list \<times> Transaction list
      \<Rightarrow> Transaction list \<times> Transaction list \<times> Transaction list" where
  "B_split_queue addrSet [] acc = acc"
| "B_split_queue addrSet (ptx # txs) (txsBeCross, txSend, kept) =
     B_split_queue addrSet txs
       (case broker_fate addrSet ptx of
          Stay \<Rightarrow> (txsBeCross, txSend, kept @ [ptx])
        | SendAlong \<Rightarrow> (txsBeCross, txSend @ [ptx], kept)
        | BeCross \<Rightarrow> (txsBeCross @ [ptx], txSend, kept))"

definition B_send_shard ::
    "('d, 'b) pnode \<Rightarrow> (string, u64) gomap \<Rightarrow> (string \<times> AccountState) list \<Rightarrow> u64
      \<Rightarrow> sends \<times> Transaction list \<times> Transaction list \<Rightarrow> sends \<times> Transaction list \<times> Transaction list" where
  "B_send_shard p m fetched i st =
     (let (out, txsBeCross, queue) = st;
          moved = filter (\<lambda>(addr, _). shard_in m addr = i) fetched;
          (txsBeCross, txSend, queue') = B_split_queue (map fst moved) queue (txsBeCross, [], []);
          ast = \<lparr>AST_Addrs = map fst moved, AST_AccountState = map snd moved,
                 AST_Txs = txSend, AST_FromShard = PN_ShardID p\<rparr>
      in (out @ [(ip_of (PN_ip_nodeTable p) i 0, MAccountTransferBroker ast)], txsBeCross, queue'))"

definition B_sendAccounts_and_Txs ::
    "('t, 'd, 'b) env \<Rightarrow> ('d, 'b) pnode \<Rightarrow> (sends \<times> ('d, 'b) pnode) res" where
  "B_sendAccounts_and_Txs E p =
     rbind (last_map p) (\<lambda>m.
     rbind (rfold (fetch_key E p) m []) (\<lambda>accountToFetch.
     rbind (FetchAccounts E accountToFetch (PN_CurChain p)) (\<lambda>asFetched.
     let (out, txsBeCross, q) = fold (B_send_shard p m (zip accountToFetch asFetched))
                      (filter (\<lambda>i. i \<noteq> PN_ShardID p) (shard_ids p))
                      ([], [], TxQueue (Txpool (PN_CurChain p)))
     in Inr (out @ [(ip_of (PN_ip_nodeTable p) DeciderShard 0, MInner2CrossTx \<lparr>I2C_Txs = txsBeCross\<rparr>)],
             put_queue q p))))"

text \<open>Here the received transactions are not checked.\<close>

definition B_proposePartition ::
    "(nat \<Rightarrow> go_time) \<Rightarrow> (nat \<Rightarrow> go_time) \<Rightarrow> clpa_ord \<Rightarrow> ('d, 'b) pnode
      \<Rightarrow> (Request \<times> ('d, 'b) pnode) res" where
  "B_proposePartition now clk ord p =
     rbind (rfold merge_received (CO_AccountStateTx ord (CD_AccountStateTx (PN_cdm p))) (PN_cdm p)) (\<lambda>cd.
     let p = add_to_pool clk (CD_ReceivedNewTx cd) (p\<lparr>PN_cdm := cd\<rparr>)
     in rbind (partition_request now ord cd) (\<lambda>r. Inr (r, p)))"

definition B_accountTransfer_do ::
    "('t, 'd, 'b) env \<Rightarrow> AccountTransferMsg \<Rightarrow> ('d, 'b) pnode \<Rightarrow> ('d, 'b) pnode res" where
  "B_accountTransfer_do E atm p = accountTransfer_do E atm p"

section \<open>The variant for brokers: the modules\<close>

definition CLPAB_HandleinPropose ::
    "('t, 'd, 'b) env \<Rightarrow> (nat \<Rightarrow> go_time) \<Rightarrow> (nat \<Rightarrow> go_time) \<Rightarrow> clpa_ord \<Rightarrow> ('d, 'b) pnode
      \<Rightarrow> (sends \<times> Request option \<times> ('d, 'b) pnode) res" where
  "CLPAB_HandleinPropose E now clk ord p =
     (case PN_propose_pc p of
        PC_start \<Rightarrow>
          if CD_PartitionOn (PN_cdm p)
          then (let (out, p) = B_sendPartitionReady p in Inr (out, None, p\<lparr>PN_propose_pc := PC_ready\<rparr>))
          else propose_block E now p
      | PC_ready \<Rightarrow>
          if B_getPartitionReady p
          then rbind (B_sendAccounts_and_Txs E p) (\<lambda>(out, p). Inr (out, None, p\<lparr>PN_propose_pc := PC_collect\<rparr>))
          else Inr ([], None, p)
      | PC_collect \<Rightarrow>
          if B_getCollectOver p
          then rbind (B_proposePartition now clk ord p) (\<lambda>(r, p). Inr ([], Some r, p\<lparr>PN_propose_pc := PC_start\<rparr>))
          else Inr ([], None, p))"

definition CLPAB_HandleinPrePrepare ::
    "('t, 'd, 'b) env \<Rightarrow> PrePrepare \<Rightarrow> ('d, 'b) pnode \<Rightarrow> (bool \<times> ('d, 'b) pnode) res" where
  "CLPAB_HandleinPrePrepare E ppmsg p = CLPA_HandleinPrePrepare E ppmsg p"

text \<open>The checks on a committed transaction, in their order, and its class.\<close>

definition clpab_check ::
    "('t, 'd, 'b) env \<Rightarrow> ('d, 'b) BlockChain \<Rightarrow> u64 \<Rightarrow> Transaction \<Rightarrow> nat res" where
  "clpab_check E bc shard tx =
     (let isBroker1Tx = (Tx_Sender tx = Tx_OriginalSender tx);
          isBroker2Tx = (Tx_Recipient tx = Tx_FinalRecipient tx) in
      rbind (Get_PartitionMap E bc (Tx_Sender tx)) (\<lambda>s.
      rbind (Get_PartitionMap E bc (Tx_Recipient tx)) (\<lambda>r.
      let senderIsInshard = (s = shard); recipientIsInshard = (r = shard) in
      if isBroker1Tx \<and> \<not> senderIsInshard then Inl (Panic ''Err tx1'')
      else if isBroker2Tx \<and> \<not> recipientIsInshard then Inl (Panic ''Err tx2'')
      else if Tx_RawTxHash tx = None \<and> Tx_HasBroker tx \<and> Tx_SenderIsBroker tx \<and> \<not> recipientIsInshard
      then Inl (Panic ''err tx 1 - recipient'')
      else if Tx_RawTxHash tx = None \<and> Tx_HasBroker tx \<and> \<not> Tx_SenderIsBroker tx \<and> \<not> senderIsInshard
      then Inl (Panic ''err tx 1 - sender'')
      else if Tx_RawTxHash tx = None \<and> \<not> Tx_HasBroker tx \<and> (\<not> senderIsInshard \<or> \<not> recipientIsInshard)
      then Inl (Panic ''err tx - without broker'')
      else Inr (if isBroker2Tx then 2 else if isBroker1Tx then 1 else 0))))"

definition clpab_classify_tx ::
    "('t, 'd, 'b) env \<Rightarrow> ('d, 'b) BlockChain \<Rightarrow> u64 \<Rightarrow> Transaction
      \<Rightarrow> Transaction list \<times> Transaction list \<times> Transaction list
      \<Rightarrow> (Transaction list \<times> Transaction list \<times> Transaction list) res" where
  "clpab_classify_tx E bc shard tx acc =
     (let (txExcuted, broker1Txs, broker2Txs) = acc in
      rbind (clpab_check E bc shard tx) (\<lambda>c.
      Inr (if c = 2 then (txExcuted, broker1Txs, broker2Txs @ [tx])
           else if c = 1 then (txExcuted, broker1Txs @ [tx], broker2Txs)
           else (txExcuted @ [tx], broker1Txs, broker2Txs))))"

definition CLPAB_HandleinCommit ::
    "('t, 'd, 'b) env \<Rightarrow> (nat \<Rightarrow> go_time) \<Rightarrow> Commit \<Rightarrow> ('d, 'b) pnode
      \<Rightarrow> (sends \<times> ('d, 'b) pnode) res" where
  "CLPAB_HandleinCommit E now cmsg p =
     rbind (opt_or (Panic ''nil pointer dereference'') (PN_requestPool p (C_Digest cmsg))) (\<lambda>r.
     if R_RequestType r = PartitionReq then
       rbind (DecodeAccountTransferMsg (R_Content r)) (\<lambda>atm.
       rbind (B_accountTransfer_do E atm p) (\<lambda>p. Inr ([], p)))
     else
       rbind (DecodeB (R_Content r)) (\<lambda>block.
       rbind (AddBlock E block (PN_CurChain p)) (\<lambda>bc.
       if PN_NodeID p = PN_view p then
         rbind (rfold (clpab_classify_tx E bc (PN_ShardID p)) (B_Body block) ([], [], []))
           (\<lambda>(txExcuted, broker1Txs, broker2Txs).
            Inr (seq_msgs p
                   @ [clpa_block_info now (length (B_Body block)) txExcuted [] broker1Txs broker2Txs r p],
                 put_chain bc p))
       else Inr ([], put_chain bc p))))"

definition CLPAB_HandleforSequentialRequest ::
    "('t, 'd, 'b) env \<Rightarrow> SendOldMessage \<Rightarrow> ('d, 'b) pnode \<Rightarrow> ('d, 'b) pnode res" where
  "CLPAB_HandleforSequentialRequest E som p = CLPA_HandleforSequentialRequest E som p"

definition clpab_mod ::
    "('t, 'd, 'b) env \<Rightarrow> (nat \<Rightarrow> go_time) \<Rightarrow> (nat \<Rightarrow> go_time) \<Rightarrow> clpa_ord \<Rightarrow> ('d, 'b) ihm" where
  "clpab_mod E now clk ord =
     \<lparr>HandleinPropose = CLPAB_HandleinPropose E now clk ord,
      HandleinPrePrepare = CLPAB_HandleinPrePrepare E,
      HandleinPrepare = (\<lambda>_ p. Inr p),
      HandleinCommit = CLPAB_HandleinCommit E now,
      HandleReqestforOldSeq = (\<lambda>_ p. Inr p),
      HandleforSequentialRequest = CLPAB_HandleforSequentialRequest E\<rparr>"

definition B_handlePartitionMsg :: "(string, u64) gomap \<Rightarrow> ('d, 'b) pnode \<Rightarrow> ('d, 'b) pnode" where
  "B_handlePartitionMsg pm p = handlePartitionMsg pm p"

definition B_handlePartitionReady :: "PartitionReady \<Rightarrow> ('d, 'b) pnode \<Rightarrow> ('d, 'b) pnode" where
  "B_handlePartitionReady pr p = handlePartitionReady pr p"

definition B_handleAccountStateAndTxMsg :: "AccountStateAndTx \<Rightarrow> ('d, 'b) pnode \<Rightarrow> ('d, 'b) pnode" where
  "B_handleAccountStateAndTxMsg at p = handleAccountStateAndTxMsg at p"

definition CLPAB_HandleMessageOutsidePBFT ::
    "(nat \<Rightarrow> go_time) \<Rightarrow> net_msg \<Rightarrow> ('d, 'b) pnode \<Rightarrow> (sends \<times> ('d, 'b) pnode) res" where
  "CLPAB_HandleMessageOutsidePBFT clk msg p =
     (case msg of
        MSeqID m \<Rightarrow> Inr ([], handleSeqIDinfos m p)
      | MInject m \<Rightarrow> Inr ([], handleInjectTx clk m p)
      | MPartition m \<Rightarrow> Inr ([], B_handlePartitionMsg m p)
      | MAccountTransferBroker m \<Rightarrow> Inr ([], B_handleAccountStateAndTxMsg m p)
      | MPartitionReady m \<Rightarrow> Inr ([], B_handlePartitionReady m p)
      | _ \<Rightarrow> Inr ([], p))"

lemmas broker_variants = B_sendPartitionReady_def B_getPartitionReady_def B_getCollectOver_def
  B_accountTransfer_do_def CLPAB_HandleinPrePrepare_def CLPAB_HandleforSequentialRequest_def
  B_handlePartitionMsg_def B_handlePartitionReady_def B_handleAccountStateAndTxMsg_def

section \<open>The modules of a node\<close>

text \<open>The choice \<^verbatim>\<open>NewPbftNode\<close> makes from \<^verbatim>\<open>messageHandleType\<close>.\<close>

definition node_modules ::
    "('t, 'd, 'b) env \<Rightarrow> (nat \<Rightarrow> go_time) \<Rightarrow> (nat \<Rightarrow> go_time) \<Rightarrow> (nat \<Rightarrow> 64 word) \<Rightarrow> clpa_ord \<Rightarrow> string
      \<Rightarrow> ('d, 'b) ihm \<times> (net_msg \<Rightarrow> ('d, 'b) pnode \<Rightarrow> (sends \<times> ('d, 'b) pnode) res)" where
  "node_modules E now clk nonce ord messageHandleType =
     (case handle_type (P_UTXO E) messageHandleType of
        Mod_CLPA_Broker \<Rightarrow> (clpab_mod E now clk ord, CLPAB_HandleMessageOutsidePBFT clk)
      | Mod_CLPA \<Rightarrow> (clpa_mod E now clk ord, CLPA_HandleMessageOutsidePBFT clk)
      | Mod_Broker \<Rightarrow> (broker_mod E now, Broker_HandleMessageOutsidePBFT clk)
      | Mod_UTXO \<Rightarrow> (utxo_mod E now, UTXO_HandleMessageOutsidePBFT E nonce clk)
      | Mod_Relay \<Rightarrow> (relay_mod E now, Relay_HandleMessageOutsidePBFT clk))"

end
