(* ===== verification/PbftProps.thy ===== *)
theory PbftProps
  imports Clpa
begin

text \<open>
  Runs of a PBFT node and what holds of them for every inside module that keeps to the contract
  \<open>inside_mod\<close>: a digest is executed at most once and only after enough commit messages, and the
  sequence number counts the executions. The contract is interpreted for the five modules.
\<close>

section \<open>Runs\<close>

type_synonym ('d, 'b) ohm = "net_msg \<Rightarrow> ('d, 'b) pnode \<Rightarrow> (sends \<times> ('d, 'b) pnode) res"

datatype event = EvPropose | EvMsg net_msg

type_synonym ('d, 'b) step = "('d, 'b) ihm \<times> ('d, 'b) ohm \<times> event"

definition pbft_event ::
    "('t, 'd, 'b) env \<Rightarrow> ('d, 'b) step \<Rightarrow> ('d, 'b) pnode \<Rightarrow> (sends \<times> ('d, 'b) pnode) res" where
  "pbft_event E st p =
     (case st of (M, oh, ev) \<Rightarrow>
        (case ev of EvPropose \<Rightarrow> Propose E M p | EvMsg msg \<Rightarrow> handleMessage E M oh msg p))"

fun prun :: "('t, 'd, 'b) env \<Rightarrow> ('d, 'b) step list \<Rightarrow> ('d, 'b) pnode \<Rightarrow> (sends \<times> ('d, 'b) pnode) res" where
  "prun E [] p = Inr ([], p)"
| "prun E (st # sts) p =
     rbind (pbft_event E st p) (\<lambda>(out, p1).
     rbind (prun E sts p1) (\<lambda>(outs, p2). Inr (out @ outs, p2)))"

text \<open>The node as \<^verbatim>\<open>handleCommit\<close> sees it when it has recorded the message.\<close>

definition recorded :: "Commit \<Rightarrow> ('d, 'b) pnode \<Rightarrow> ('d, 'b) pnode" where
  "recorded cmsg p = set2DMap False (C_Digest cmsg) (fst (alloc p)) (snd (alloc p))"

definition fires :: "Commit \<Rightarrow> ('d, 'b) pnode \<Rightarrow> bool" where
  "fires cmsg p \<longleftrightarrow>
     int (votes (PN_cntCommitConfirm (recorded cmsg p)) (C_Digest cmsg)) \<ge> required_cnt p \<and>
     \<not> PN_isReply p (C_Digest cmsg)"

text \<open>The digest a step executes (\<^verbatim>\<open>HandleinCommit\<close> is called for it), and those of a run.\<close>

definition executes :: "('d, 'b) step \<Rightarrow> ('d, 'b) pnode \<Rightarrow> string list" where
  "executes st p =
     (case snd (snd st) of
        EvMsg (MCommit c) \<Rightarrow>
          if fires c p \<and> PN_requestPool p (C_Digest c) \<noteq> None then [C_Digest c] else []
      | _ \<Rightarrow> [])"

fun exec_log :: "('t, 'd, 'b) env \<Rightarrow> ('d, 'b) step list \<Rightarrow> ('d, 'b) pnode \<Rightarrow> string list" where
  "exec_log E [] p = []"
| "exec_log E (st # sts) p =
     executes st p @ (case pbft_event E st p of Inl _ \<Rightarrow> [] | Inr (_, p') \<Rightarrow> exec_log E sts p')"

definition commits_for :: "string \<Rightarrow> ('d, 'b) step list \<Rightarrow> nat" where
  "commits_for d sts =
     length (filter (\<lambda>st. case snd (snd st) of EvMsg (MCommit c) \<Rightarrow> C_Digest c = d | _ \<Rightarrow> False) sts)"

text \<open>The steps of a run use the given modules.\<close>

definition steps_of :: "('d, 'b) ihm set \<Rightarrow> ('d, 'b) ohm set \<Rightarrow> ('d, 'b) step list \<Rightarrow> bool" where
  "steps_of mods ohms sts \<longleftrightarrow> (\<forall>(M, oh, ev) \<in> set sts. M \<in> mods \<and> oh \<in> ohms)"

text \<open>Vote pointers are addresses allocated before.\<close>

definition votes_ok :: "('d, 'b) pnode \<Rightarrow> bool" where
  "votes_ok p \<longleftrightarrow>
     (\<forall>d m k. PN_cntCommitConfirm p d = Some m \<longrightarrow> k \<in> fst ` set m \<longrightarrow> k < PN_heap p)"

lemma recorded_simps [simp]:
  "PN_isReply (recorded c p) = PN_isReply p" "PN_requestPool (recorded c p) = PN_requestPool p"
  "PN_sequenceID (recorded c p) = PN_sequenceID p" "PN_CurChain (recorded c p) = PN_CurChain p"
  "PN_NodeID (recorded c p) = PN_NodeID p" "PN_view (recorded c p) = PN_view p"
  "PN_ShardID (recorded c p) = PN_ShardID p" "PN_heap (recorded c p) = Suc (PN_heap p)"
  "PN_malicious_nums (recorded c p) = PN_malicious_nums p"
  "PN_sequenceLock (recorded c p) = PN_sequenceLock p" "PN_askForLock (recorded c p) = PN_askForLock p"
  "PN_isCommitBordcast (recorded c p) = PN_isCommitBordcast p"
  by (simp_all add: recorded_def alloc_def set2DMap_def Let_def)

lemma required_recorded [simp]: "required_cnt (recorded c p) = required_cnt p"
  by (simp add: required_cnt_def)

lemma length_gput_fresh: "k \<notin> fst ` set m \<Longrightarrow> length (gput k v m) = Suc (length m)"
  by (induction m) auto

lemma votes_recorded:
  assumes "votes_ok p"
  shows "votes (PN_cntCommitConfirm (recorded c p)) d =
           votes (PN_cntCommitConfirm p) d + (if C_Digest c = d then 1 else 0)"
proof (cases "C_Digest c = d")
  case True
  show ?thesis
  proof (cases "PN_cntCommitConfirm p d")
    case None
    with True show ?thesis by (simp add: recorded_def alloc_def set2DMap_def votes_def)
  next
    case (Some m)
    then have "PN_heap p \<notin> fst ` set m" using assms by (auto simp: votes_ok_def)
    with True Some show ?thesis
      by (simp add: recorded_def alloc_def set2DMap_def votes_def length_gput_fresh)
  qed
qed (simp add: recorded_def alloc_def set2DMap_def votes_def Let_def)

lemma votes_ok_recorded: "votes_ok p \<Longrightarrow> votes_ok (recorded c p)"
proof -
  assume ok: "votes_ok p"
  define m where "m = (case PN_cntCommitConfirm p (C_Digest c) of None \<Rightarrow> [] | Some m \<Rightarrow> m)"
  have cnt: "PN_cntCommitConfirm (recorded c p) =
      (PN_cntCommitConfirm p)(C_Digest c \<mapsto> gput (PN_heap p) True m)"
    by (simp add: recorded_def alloc_def set2DMap_def Let_def m_def)
  have old: "k < PN_heap p" if "k \<in> fst ` set m" for k
    using ok that unfolding votes_ok_def m_def by (cases "PN_cntCommitConfirm p (C_Digest c)") auto
  have "k < Suc (PN_heap p)" if "k \<in> fst ` set (gput (PN_heap p) True m)" for k
  proof -
    have "k = PN_heap p \<or> k \<in> fst ` set m" using that by (simp add: dom_update)
    then show ?thesis using old by (elim disjE) (simp, simp add: less_SucI)
  qed
  then show ?thesis using ok unfolding votes_ok_def cnt recorded_simps
    by (metis fun_upd_apply less_Suc_eq option.inject)
qed

text \<open>\<^verbatim>\<open>handleCommit\<close> by cases.\<close>

lemma handleCommit_idle: "\<not> fires c p \<Longrightarrow> handleCommit E M c p = Inr ([], recorded c p)"
proof -
  assume "\<not> fires c p"
  then have "\<not> (required_cnt p \<le> int (votes (PN_cntCommitConfirm (recorded c p)) (C_Digest c)) \<and>
      \<not> PN_isReply p (C_Digest c))" by (simp add: fires_def)
  then show ?thesis
    unfolding handleCommit_def Let_def split_beta recorded_def [symmetric] recorded_simps required_recorded
    by (simp only: if_False)
qed

lemma handleCommit_fires:
  "fires c p \<Longrightarrow> handleCommit E M c p =
     rbind (if PN_requestPool p (C_Digest c) = None then
              (let p = (recorded c p)\<lparr>PN_isReply := (PN_isReply p)(C_Digest c := True)\<rparr> in
               if PN_askForLock p then Inl (Blocked ''askForLock'')
               else Inr ([ask_old c p], p\<lparr>PN_askForLock := True\<rparr>))
            else
              rbind (HandleinCommit M c (recorded c p)) (\<lambda>(out, p).
              Inr (out, p\<lparr>PN_isReply := (PN_isReply p)(C_Digest c := True),
                          PN_sequenceID := PN_sequenceID p + 1\<rparr>)))
       (\<lambda>(out, p). rbind (unlock_sequence p) (\<lambda>p. Inr (out, p)))"
  using recorded_simps(1,2) [of c p]
  by (simp add: handleCommit_def fires_def recorded_def [symmetric] Let_def split_beta)

lemma unlock_frame: "unlock_sequence p = Inr p' \<Longrightarrow> \<exists>b. p' = p\<lparr>PN_sequenceLock := b\<rparr>"
proof -
  assume a: "unlock_sequence p = Inr p'"
  then have "p' = p\<lparr>PN_sequenceLock := PN_sequenceLock p\<rparr> \<or> p' = p\<lparr>PN_sequenceLock := False\<rparr>"
    by (auto simp: unlock_sequence_def split: if_splits)
  then show ?thesis by blast
qed

section \<open>The contract of the modules\<close>

locale inside_mod =
  fixes mods :: "('d, 'b) ihm set"
    and ohms :: "('d, 'b) ohm set"
  assumes propose_frame: "M \<in> mods \<Longrightarrow> HandleinPropose M p = Inr (out, req, p') \<Longrightarrow>
      \<exists>bc cd pc. p' = p\<lparr>PN_CurChain := bc, PN_cdm := cd, PN_propose_pc := pc\<rparr>"
    and preprepare_frame: "M \<in> mods \<Longrightarrow> HandleinPrePrepare M m p = Inr (ok, p') \<Longrightarrow>
      \<exists>rp. p' = p\<lparr>PN_requestPool := rp\<rparr>"
    and prepare_frame: "M \<in> mods \<Longrightarrow> HandleinPrepare M pm p = Inr p' \<Longrightarrow> p' = p"
    and commit_frame: "M \<in> mods \<Longrightarrow> HandleinCommit M c p = Inr (out, p') \<Longrightarrow>
      \<exists>bc cd. p' = p\<lparr>PN_CurChain := bc, PN_cdm := cd\<rparr>"
    and oldseq_frame: "M \<in> mods \<Longrightarrow> HandleReqestforOldSeq M rom p = Inr p' \<Longrightarrow> p' = p"
    and seqreq_frame: "M \<in> mods \<Longrightarrow> HandleforSequentialRequest M som p = Inr p' \<Longrightarrow>
      \<exists>bc s cd. p' = p\<lparr>PN_CurChain := bc, PN_sequenceID := s, PN_cdm := cd\<rparr>"
    and outside_frame: "oh \<in> ohms \<Longrightarrow> oh msg p = Inr (out, p') \<Longrightarrow>
      \<exists>bc sm cd. p' = p\<lparr>PN_CurChain := bc, PN_seqIDMap := sm, PN_cdm := cd\<rparr>"
begin

lemma commit_effect:
  assumes "M \<in> mods" and "handleCommit E M c p = Inr (out, p')"
  shows "PN_cntCommitConfirm p' = PN_cntCommitConfirm (recorded c p)"
    and "PN_heap p' = Suc (PN_heap p)" and "PN_malicious_nums p' = PN_malicious_nums p"
    and "PN_isReply p' = (if fires c p then (PN_isReply p)(C_Digest c := True) else PN_isReply p)"
    and "PN_sequenceID p' =
           PN_sequenceID p + (if fires c p \<and> PN_requestPool p (C_Digest c) \<noteq> None then 1 else 0)"
proof -
  consider (idle) "\<not> fires c p" "p' = recorded c p"
    | (ask) b where "fires c p" "PN_requestPool p (C_Digest c) = None"
        "p' = (recorded c p)\<lparr>PN_isReply := (PN_isReply p)(C_Digest c := True), PN_askForLock := True,
                             PN_sequenceLock := b\<rparr>"
    | (exec) bc cd b where "fires c p" "PN_requestPool p (C_Digest c) \<noteq> None"
        "p' = (recorded c p)\<lparr>PN_CurChain := bc, PN_cdm := cd,
                             PN_isReply := (PN_isReply p)(C_Digest c := True),
                             PN_sequenceID := PN_sequenceID p + 1, PN_sequenceLock := b\<rparr>"
  proof (cases "fires c p")
    case False
    with assms(2) idle show ?thesis by (simp add: handleCommit_idle)
  next
    case fire: True
    show ?thesis
    proof (cases "PN_requestPool p (C_Digest c)")
      case None
      let ?q = "(recorded c p)\<lparr>PN_isReply := (PN_isReply p)(C_Digest c := True), PN_askForLock := True\<rparr>"
      have "unlock_sequence ?q = Inr p'"
        using assms(2) fire None by (auto simp: handleCommit_fires res_simps Let_def split: if_splits)
      from unlock_frame [OF this] fire None ask show ?thesis by auto
    next
      case (Some r)
      then obtain out1 q where q: "HandleinCommit M c (recorded c p) = Inr (out1, q)"
        and u: "unlock_sequence (q\<lparr>PN_isReply := (PN_isReply q)(C_Digest c := True),
                                    PN_sequenceID := PN_sequenceID q + 1\<rparr>) = Inr p'"
        using assms(2) fire by (auto simp: handleCommit_fires res_simps)
      from commit_frame [OF assms(1) q] unlock_frame [OF u] fire Some exec show ?thesis by auto
    qed
  qed
  note cases = this
  show "PN_cntCommitConfirm p' = PN_cntCommitConfirm (recorded c p)" by (cases rule: cases) simp_all
  show "PN_heap p' = Suc (PN_heap p)" by (cases rule: cases) simp_all
  show "PN_malicious_nums p' = PN_malicious_nums p" by (cases rule: cases) simp_all
  show "PN_isReply p' = (if fires c p then (PN_isReply p)(C_Digest c := True) else PN_isReply p)"
    by (cases rule: cases) simp_all
  show "PN_sequenceID p' =
      PN_sequenceID p + (if fires c p \<and> PN_requestPool p (C_Digest c) \<noteq> None then 1 else 0)"
    by (cases rule: cases) simp_all
qed

text \<open>What an event other than a commit message leaves alone.\<close>

lemma other_event:
  assumes "M \<in> mods" and "oh \<in> ohms" and "pbft_event E (M, oh, ev) p = Inr (out, p')"
    and "\<forall>c. ev \<noteq> EvMsg (MCommit c)"
  shows "PN_cntCommitConfirm p' = PN_cntCommitConfirm p" and "PN_heap p \<le> PN_heap p'"
    and "PN_malicious_nums p' = PN_malicious_nums p" and "PN_isReply p d \<Longrightarrow> PN_isReply p' d"
    and "\<forall>som. ev \<noteq> EvMsg (MSendOld som) \<Longrightarrow> PN_sequenceID p' = PN_sequenceID p"
proof -
  have "PN_cntCommitConfirm p' = PN_cntCommitConfirm p \<and> PN_heap p \<le> PN_heap p' \<and>
      PN_malicious_nums p' = PN_malicious_nums p \<and> (PN_isReply p d \<longrightarrow> PN_isReply p' d) \<and>
      ((\<forall>som. ev \<noteq> EvMsg (MSendOld som)) \<longrightarrow> PN_sequenceID p' = PN_sequenceID p)"
  proof (cases ev)
    case EvPropose
    with assms(3) show ?thesis
      by (auto simp: pbft_event_def Propose_def announce_def res_simps Let_def split: if_splits option.splits
          dest!: propose_frame [OF assms(1)])
  next
    case (EvMsg m)
    note ev = assms(3) [unfolded pbft_event_def EvMsg handleMessage_def, simplified]
    show ?thesis
    proof (cases m)
      case (MPrePrepare pp)
      with ev EvMsg show ?thesis
        by (auto simp: handlePrePrepare_def res_simps Let_def split: if_splits
            dest!: preprepare_frame [OF assms(1)])
    next
      case (MPrepare pm)
      with ev EvMsg show ?thesis
        by (auto simp: handlePrepare_def alloc_def set2DMap_def res_simps Let_def split: if_splits
            dest!: prepare_frame [OF assms(1)])
    next
      case (MCommit c)
      with assms(4) EvMsg show ?thesis by simp
    next
      case (MRequestOld rom)
      with ev EvMsg show ?thesis
        by (auto simp: handleRequestOldSeq_def res_simps Let_def split: if_splits
            dest!: oldseq_frame [OF assms(1)])
    next
      case (MSendOld som)
      have store: "PN_cntCommitConfirm (fold (store_old E b) xs q) = PN_cntCommitConfirm q \<and>
          PN_heap (fold (store_old E b) xs q) = PN_heap q \<and>
          PN_malicious_nums (fold (store_old E b) xs q) = PN_malicious_nums q \<and>
          (PN_isReply q d \<longrightarrow> PN_isReply (fold (store_old E b) xs q) d)" for b xs q
        by (induction xs arbitrary: q) (simp_all add: store_old_def split_beta Let_def)
      from MSendOld ev EvMsg show ?thesis
        by (auto simp: handleSendOldSeq_def res_simps Let_def store split: if_splits option.splits
            dest!: seqreq_frame [OF assms(1)] preprepare_frame [OF assms(1)])
    next
      case MStop
      with ev EvMsg show ?thesis by (auto simp: WaitToStop_def)
    qed (use ev EvMsg in \<open>auto dest!: outside_frame [OF assms(2)]\<close>)
  qed
  then show "PN_cntCommitConfirm p' = PN_cntCommitConfirm p" "PN_heap p \<le> PN_heap p'"
    "PN_malicious_nums p' = PN_malicious_nums p" "PN_isReply p d \<Longrightarrow> PN_isReply p' d"
    "\<forall>som. ev \<noteq> EvMsg (MSendOld som) \<Longrightarrow> PN_sequenceID p' = PN_sequenceID p" by auto
qed

abbreviation lawful :: "('d, 'b) step list \<Rightarrow> bool" where
  "lawful \<equiv> steps_of mods ohms"

lemma lawful_Cons: "lawful ((M, oh, ev) # sts) \<longleftrightarrow> M \<in> mods \<and> oh \<in> ohms \<and> lawful sts"
  by (auto simp: steps_of_def)

lemma step_effect:
  assumes "M \<in> mods" and "oh \<in> ohms" and "pbft_event E (M, oh, ev) p = Inr (out, p')"
  shows "PN_malicious_nums p' = PN_malicious_nums p"
    and "PN_isReply p d \<Longrightarrow> PN_isReply p' d"
    and "d \<in> set (executes (M, oh, ev) p) \<Longrightarrow> \<not> PN_isReply p d \<and> PN_isReply p' d"
    and "\<forall>som. ev \<noteq> EvMsg (MSendOld som) \<Longrightarrow>
      PN_sequenceID p' = PN_sequenceID p + of_nat (length (executes (M, oh, ev) p))"
    and "votes_ok p \<Longrightarrow> votes_ok p' \<and>
      votes (PN_cntCommitConfirm p') d =
        votes (PN_cntCommitConfirm p) d + commits_for d [(M, oh, ev)]"
proof -
  have "PN_malicious_nums p' = PN_malicious_nums p \<and> (PN_isReply p d \<longrightarrow> PN_isReply p' d) \<and>
      (d \<in> set (executes (M, oh, ev) p) \<longrightarrow> \<not> PN_isReply p d \<and> PN_isReply p' d) \<and>
      ((\<forall>som. ev \<noteq> EvMsg (MSendOld som)) \<longrightarrow>
         PN_sequenceID p' = PN_sequenceID p + of_nat (length (executes (M, oh, ev) p))) \<and>
      (votes_ok p \<longrightarrow> votes_ok p' \<and> votes (PN_cntCommitConfirm p') d =
        votes (PN_cntCommitConfirm p) d + commits_for d [(M, oh, ev)])"
  proof (cases "\<exists>c. ev = EvMsg (MCommit c)")
    case True
    then obtain c where c: "ev = EvMsg (MCommit c)" by blast
    then have h: "handleCommit E M c p = Inr (out, p')"
      using assms(3) by (simp add: pbft_event_def handleMessage_def)
    note eff = commit_effect [OF assms(1) h]
    have ok: "votes_ok p'" if "votes_ok p"
      using votes_ok_recorded [OF that, of c] eff(1,2) by (simp add: votes_ok_def)
    show ?thesis
      using eff c ok votes_recorded [of p c d]
      by (auto simp: executes_def commits_for_def fires_def)
  next
    case False
    then have nc: "\<forall>c. ev \<noteq> EvMsg (MCommit c)" by blast
    note eff = other_event [OF assms nc]
    have ex: "executes (M, oh, ev) p = []"
      using nc by (auto simp: executes_def split: event.splits net_msg.splits)
    have cf: "commits_for d [(M, oh, ev)] = 0"
      using nc by (auto simp: commits_for_def split: event.splits net_msg.splits)
    have ok: "votes_ok p'" if "votes_ok p"
      unfolding votes_ok_def eff(1)
    proof (intro allI impI)
      fix x m k assume "PN_cntCommitConfirm p x = Some m" "k \<in> fst ` set m"
      then have "k < PN_heap p" using that unfolding votes_ok_def by blast
      then show "k < PN_heap p'" using eff(2) by simp
    qed
    show ?thesis using eff(1,3,4,5) ok by (simp add: ex cf)
  qed
  then show "PN_malicious_nums p' = PN_malicious_nums p" "PN_isReply p d \<Longrightarrow> PN_isReply p' d"
    "d \<in> set (executes (M, oh, ev) p) \<Longrightarrow> \<not> PN_isReply p d \<and> PN_isReply p' d"
    "\<forall>som. ev \<noteq> EvMsg (MSendOld som) \<Longrightarrow>
      PN_sequenceID p' = PN_sequenceID p + of_nat (length (executes (M, oh, ev) p))"
    "votes_ok p \<Longrightarrow> votes_ok p' \<and> votes (PN_cntCommitConfirm p') d =
        votes (PN_cntCommitConfirm p) d + commits_for d [(M, oh, ev)]" by blast+
qed

lemma prun_cons:
  assumes "prun E (st # sts) p = Inr (outs, p2)"
  obtains out p1 outs' where "pbft_event E st p = Inr (out, p1)" and "prun E sts p1 = Inr (outs', p2)"
    and "exec_log E (st # sts) p = executes st p @ exec_log E sts p1"
  using assms by (auto simp: res_simps)

lemma executes_D:
  "d \<in> set (executes (M, oh, ev) p) \<Longrightarrow> \<exists>c. ev = EvMsg (MCommit c) \<and> fires c p \<and> C_Digest c = d"
proof (cases ev)
  case (EvMsg m)
  then show "d \<in> set (executes (M, oh, ev) p) \<Longrightarrow> ?thesis"
    by (cases m) (simp_all add: executes_def split: if_splits)
qed (simp add: executes_def)

lemma executes_distinct: "distinct (executes st p)"
  by (simp add: executes_def split: event.split net_msg.split)

lemma run_executes_once:
  assumes "lawful sts" and "prun E sts p = Inr (outs, p')"
  shows "distinct (exec_log E sts p) \<and>
         (\<forall>d \<in> set (exec_log E sts p). \<not> PN_isReply p d \<and> PN_isReply p' d) \<and>
         (\<forall>d. PN_isReply p d \<longrightarrow> PN_isReply p' d)"
  using assms
proof (induction sts arbitrary: p outs)
  case Nil
  then show ?case by simp
next
  case (Cons st sts)
  obtain M oh ev where st: "st = (M, oh, ev)" by (cases st)
  from Cons.prems(2) obtain out p1 outs' where e: "pbft_event E (M, oh, ev) p = Inr (out, p1)"
    and r: "prun E sts p1 = Inr (outs', p')"
    and l: "exec_log E (st # sts) p = executes st p @ exec_log E sts p1"
    unfolding st by (rule prun_cons)
  have law: "M \<in> mods" "oh \<in> ohms" "lawful sts" using Cons.prems(1) st by (simp_all add: lawful_Cons)
  note eff = step_effect [OF law(1,2) e] and ih = Cons.IH [OF law(3) r]
  show ?case unfolding l using eff(2,3) ih executes_distinct [of st p] st by auto
qed

lemma run_sequence:
  assumes "lawful sts" and "prun E sts p = Inr (outs, p')"
    and "\<forall>st \<in> set sts. \<forall>som. snd (snd st) \<noteq> EvMsg (MSendOld som)"
  shows "PN_sequenceID p' = PN_sequenceID p + of_nat (length (exec_log E sts p))"
  using assms
proof (induction sts arbitrary: p outs)
  case Nil
  then show ?case by simp
next
  case (Cons st sts)
  obtain M oh ev where st: "st = (M, oh, ev)" by (cases st)
  from Cons.prems(2) obtain out p1 outs' where e: "pbft_event E (M, oh, ev) p = Inr (out, p1)"
    and r: "prun E sts p1 = Inr (outs', p')"
    and l: "exec_log E (st # sts) p = executes st p @ exec_log E sts p1"
    unfolding st by (rule prun_cons)
  have law: "M \<in> mods" "oh \<in> ohms" "lawful sts" using Cons.prems(1) st by (simp_all add: lawful_Cons)
  have "\<forall>som. ev \<noteq> EvMsg (MSendOld som)" using Cons.prems(3) st by simp
  from step_effect(4) [OF law(1,2) e this] Cons.IH [OF law(3) r] Cons.prems(3) st
  show ?case unfolding l by (simp add: algebra_simps)
qed

lemma run_votes:
  assumes "lawful sts" and "prun E sts p = Inr (outs, p')" and "votes_ok p"
  shows "votes_ok p' \<and> PN_malicious_nums p' = PN_malicious_nums p \<and>
         votes (PN_cntCommitConfirm p') d = votes (PN_cntCommitConfirm p) d + commits_for d sts \<and>
         (d \<in> set (exec_log E sts p) \<longrightarrow>
            required_cnt p \<le> int (votes (PN_cntCommitConfirm p) d + commits_for d sts))"
  using assms
proof (induction sts arbitrary: p outs)
  case Nil
  then show ?case by (simp add: commits_for_def)
next
  case (Cons st sts)
  obtain M oh ev where st: "st = (M, oh, ev)" by (cases st)
  from Cons.prems(2) obtain out p1 outs' where e: "pbft_event E (M, oh, ev) p = Inr (out, p1)"
    and r: "prun E sts p1 = Inr (outs', p')"
    and l: "exec_log E (st # sts) p = executes st p @ exec_log E sts p1"
    unfolding st by (rule prun_cons)
  have law: "M \<in> mods" "oh \<in> ohms" "lawful sts" using Cons.prems(1) st by (simp_all add: lawful_Cons)
  note eff = step_effect(1) [OF law(1,2) e] step_effect(5) [OF law(1,2) e Cons.prems(3), of d]
  note ih = Cons.IH [OF law(3) r] 
  have cf: "commits_for d (st # sts) = commits_for d [(M, oh, ev)] + commits_for d sts"
    using st by (simp add: commits_for_def)
  have req: "required_cnt p1 = required_cnt p" using eff(1) by (simp add: required_cnt_def)
  have now: "required_cnt p \<le> int (votes (PN_cntCommitConfirm p) d + commits_for d (st # sts))"
    if "d \<in> set (executes st p)"
  proof -
    from that st obtain c where c: "ev = EvMsg (MCommit c)" "fires c p" "C_Digest c = d"
      by (auto dest: executes_D)
    have "commits_for d [(M, oh, ev)] = 1" using c by (simp add: commits_for_def)
    then show ?thesis using c votes_recorded [OF Cons.prems(3), of c d] by (simp add: fires_def cf)
  qed
  show ?case unfolding l using ih [OF conjunct1 [OF eff(2)]] eff req now cf by auto
qed

end

section \<open>The modules keep the contract\<close>

definition pbft_mods :: "('t, 'd, 'b) env \<Rightarrow> ('d, 'b) ihm set" where
  "pbft_mods E = range (relay_mod E) \<union> range (utxo_mod E) \<union> range (broker_mod E)
     \<union> (\<Union>now clk. range (clpa_mod E now clk)) \<union> (\<Union>now clk. range (clpab_mod E now clk))"

definition pbft_ohms :: "('t, 'd, 'b) env \<Rightarrow> ('d, 'b) ohm set" where
  "pbft_ohms E = range Relay_HandleMessageOutsidePBFT
     \<union> {UTXO_HandleMessageOutsidePBFT E nonce clk | nonce clk. True}
     \<union> range Broker_HandleMessageOutsidePBFT
     \<union> range CLPA_HandleMessageOutsidePBFT \<union> range CLPAB_HandleMessageOutsidePBFT"

lemma node_modules_lawful:
  "node_modules E now clk nonce ord t = (M, oh) \<Longrightarrow> M \<in> pbft_mods E \<and> oh \<in> pbft_ohms E"
  unfolding node_modules_def pbft_mods_def pbft_ohms_def
  by (cases "handle_type (P_UTXO E) t") (simp_all, blast+)

text \<open>Which fields may differ: the chain, the data of the re-sharding modules and one more.\<close>

lemma chain_frame:
  fixes p p' :: "('d, 'b) pnode"
  assumes "p' = p\<lparr>PN_CurChain := PN_CurChain p', PN_cdm := PN_cdm p'\<rparr>"
  shows "\<exists>bc cd. p' = p\<lparr>PN_CurChain := bc, PN_cdm := cd\<rparr>"
    and "\<exists>bc s cd. p' = p\<lparr>PN_CurChain := bc, PN_sequenceID := s, PN_cdm := cd\<rparr>"
    and "\<exists>bc sm cd. p' = p\<lparr>PN_CurChain := bc, PN_seqIDMap := sm, PN_cdm := cd\<rparr>"
    and "\<exists>bc cd pc. p' = p\<lparr>PN_CurChain := bc, PN_cdm := cd, PN_propose_pc := pc\<rparr>"
proof -
  show "\<exists>bc cd. p' = p\<lparr>PN_CurChain := bc, PN_cdm := cd\<rparr>" using assms by blast
  show "\<exists>bc s cd. p' = p\<lparr>PN_CurChain := bc, PN_sequenceID := s, PN_cdm := cd\<rparr>"
    by (rule exI [of _ "PN_CurChain p'"], rule exI [of _ "PN_sequenceID p"], rule exI [of _ "PN_cdm p'"])
       (subst assms, simp)
  show "\<exists>bc sm cd. p' = p\<lparr>PN_CurChain := bc, PN_seqIDMap := sm, PN_cdm := cd\<rparr>"
    by (rule exI [of _ "PN_CurChain p'"], rule exI [of _ "PN_seqIDMap p"], rule exI [of _ "PN_cdm p'"])
       (subst assms, simp)
  show "\<exists>bc cd pc. p' = p\<lparr>PN_CurChain := bc, PN_cdm := cd, PN_propose_pc := pc\<rparr>"
    by (rule exI [of _ "PN_CurChain p'"], rule exI [of _ "PN_cdm p'"], rule exI [of _ "PN_propose_pc p"])
       (subst assms, simp)
qed

lemma transfer_frame:
  "accountTransfer_do E atm p = Inr p' \<Longrightarrow> p' = p\<lparr>PN_CurChain := PN_CurChain p', PN_cdm := PN_cdm p'\<rparr>"
  by (auto simp: accountTransfer_do_def put_chain_def res_simps Let_def)

lemma clpa_old_frame:
  "clpa_old_requests E n i rs p = Inr p' \<Longrightarrow> p' = p\<lparr>PN_CurChain := PN_CurChain p', PN_cdm := PN_cdm p'\<rparr>"
proof (induction n arbitrary: i p)
  case 0
  then show ?case by simp
next
  case (Suc n)
  from Suc.prems obtain q where rest: "clpa_old_requests E n (Suc i) rs q = Inr p'"
    and "(\<exists>bc. q = p\<lparr>PN_CurChain := bc\<rparr>) \<or> (\<exists>atm. accountTransfer_do E atm p = Inr q)"
    by (auto simp: res_simps put_chain_def split: if_splits)
  then have q: "q = p\<lparr>PN_CurChain := PN_CurChain q, PN_cdm := PN_cdm q\<rparr>"
    by (elim disjE exE) (simp, rule transfer_frame)
  show ?case by (subst Suc.IH [OF rest], subst q) simp
qed

lemma propose_block_frame:
  "propose_block E now p = Inr (out, req, p') \<Longrightarrow>
     p' = p\<lparr>PN_CurChain := PN_CurChain p', PN_cdm := PN_cdm p'\<rparr>"
  by (auto simp: propose_block_def put_chain_def res_simps)

lemma clpa_propose_frame:
  "CLPA_HandleinPropose E now clk ord p = Inr (out, req, p') \<Longrightarrow>
     \<exists>bc cd pc. p' = p\<lparr>PN_CurChain := bc, PN_cdm := cd, PN_propose_pc := pc\<rparr>"
  "CLPAB_HandleinPropose E now clk ord p = Inr (out, req, p') \<Longrightarrow>
     \<exists>bc cd pc. p' = p\<lparr>PN_CurChain := bc, PN_cdm := cd, PN_propose_pc := pc\<rparr>"
proof -
  note defs = sendPartitionReady_def sendAccounts_and_Txs_def proposePartition_def broker_variants
    B_sendAccounts_and_Txs_def B_proposePartition_def put_queue_def put_chain_def add_to_pool_def
  have eq: "p' = p\<lparr>PN_CurChain := PN_CurChain p', PN_cdm := PN_cdm p', PN_propose_pc := PN_propose_pc p'\<rparr>"
    if "CLPA_HandleinPropose E now clk ord p = Inr (out, req, p')"
    using that by (auto simp: CLPA_HandleinPropose_def defs res_simps Let_def split_beta
        split: propose_pc.splits if_splits dest!: propose_block_frame)
  have eqB: "p' = p\<lparr>PN_CurChain := PN_CurChain p', PN_cdm := PN_cdm p', PN_propose_pc := PN_propose_pc p'\<rparr>"
    if "CLPAB_HandleinPropose E now clk ord p = Inr (out, req, p')"
    using that by (auto simp: CLPAB_HandleinPropose_def defs res_simps Let_def split_beta
        split: propose_pc.splits if_splits dest!: propose_block_frame)
  show "CLPA_HandleinPropose E now clk ord p = Inr (out, req, p') \<Longrightarrow>
     \<exists>bc cd pc. p' = p\<lparr>PN_CurChain := bc, PN_cdm := cd, PN_propose_pc := pc\<rparr>" using eq by blast
  show "CLPAB_HandleinPropose E now clk ord p = Inr (out, req, p') \<Longrightarrow>
     \<exists>bc cd pc. p' = p\<lparr>PN_CurChain := bc, PN_cdm := cd, PN_propose_pc := pc\<rparr>" using eqB by blast
qed

lemma same_pool: "\<exists>rp. p = p\<lparr>PN_requestPool := rp\<rparr>"
  by (rule exI [of _ "PN_requestPool p"]) simp

lemma preprepare_frames:
  "preprepare_block v m p = Inr (ok, p') \<Longrightarrow> \<exists>rp. p' = p\<lparr>PN_requestPool := rp\<rparr>"
  "CLPA_HandleinPrePrepare E m p = Inr (ok, p') \<Longrightarrow> \<exists>rp. p' = p\<lparr>PN_requestPool := rp\<rparr>"
  by (auto simp: preprepare_block_def CLPA_HandleinPrePrepare_def res_simps same_pool split: if_splits)

lemma commit_frames:
  "Relay_HandleinCommit E now c p = Inr (out, p') \<Longrightarrow> p' = p\<lparr>PN_CurChain := PN_CurChain p', PN_cdm := PN_cdm p'\<rparr>"
  "UTXO_HandleinCommit E now c p = Inr (out, p') \<Longrightarrow> p' = p\<lparr>PN_CurChain := PN_CurChain p', PN_cdm := PN_cdm p'\<rparr>"
  "Broker_HandleinCommit E now c p = Inr (out, p') \<Longrightarrow> p' = p\<lparr>PN_CurChain := PN_CurChain p', PN_cdm := PN_cdm p'\<rparr>"
  "CLPA_HandleinCommit E now c p = Inr (out, p') \<Longrightarrow> p' = p\<lparr>PN_CurChain := PN_CurChain p', PN_cdm := PN_cdm p'\<rparr>"
  "CLPAB_HandleinCommit E now c p = Inr (out, p') \<Longrightarrow> p' = p\<lparr>PN_CurChain := PN_CurChain p', PN_cdm := PN_cdm p'\<rparr>"
  by (auto simp: Relay_HandleinCommit_def UTXO_HandleinCommit_def Broker_HandleinCommit_def
      CLPA_HandleinCommit_def CLPAB_HandleinCommit_def broker_variants put_chain_def res_simps Let_def
      split: if_splits dest!: transfer_frame)

lemma seqreq_frames:
  "Relay_HandleforSequentialRequest E som p = Inr p' \<Longrightarrow>
     p' = p\<lparr>PN_CurChain := PN_CurChain p', PN_sequenceID := PN_sequenceID p', PN_cdm := PN_cdm p'\<rparr>"
  "Broker_HandleforSequentialRequest E som p = Inr p' \<Longrightarrow>
     p' = p\<lparr>PN_CurChain := PN_CurChain p', PN_sequenceID := PN_sequenceID p', PN_cdm := PN_cdm p'\<rparr>"
  "CLPA_HandleforSequentialRequest E som p = Inr p' \<Longrightarrow>
     p' = p\<lparr>PN_CurChain := PN_CurChain p', PN_sequenceID := PN_sequenceID p', PN_cdm := PN_cdm p'\<rparr>"
  by (auto simp: Relay_HandleforSequentialRequest_def Broker_HandleforSequentialRequest_def
      CLPA_HandleforSequentialRequest_def put_chain_def res_simps split: if_splits)
     (subst clpa_old_frame, assumption, simp)

lemma outside_frames:
  "Relay_HandleMessageOutsidePBFT clk msg p = Inr (out, p') \<Longrightarrow>
     p' = p\<lparr>PN_CurChain := PN_CurChain p', PN_seqIDMap := PN_seqIDMap p', PN_cdm := PN_cdm p'\<rparr>"
  "UTXO_HandleMessageOutsidePBFT E nonce clk msg p = Inr (out, p') \<Longrightarrow>
     p' = p\<lparr>PN_CurChain := PN_CurChain p', PN_seqIDMap := PN_seqIDMap p', PN_cdm := PN_cdm p'\<rparr>"
  "Broker_HandleMessageOutsidePBFT clk msg p = Inr (out, p') \<Longrightarrow>
     p' = p\<lparr>PN_CurChain := PN_CurChain p', PN_seqIDMap := PN_seqIDMap p', PN_cdm := PN_cdm p'\<rparr>"
  "CLPA_HandleMessageOutsidePBFT clk msg p = Inr (out, p') \<Longrightarrow>
     p' = p\<lparr>PN_CurChain := PN_CurChain p', PN_seqIDMap := PN_seqIDMap p', PN_cdm := PN_cdm p'\<rparr>"
  "CLPAB_HandleMessageOutsidePBFT clk msg p = Inr (out, p') \<Longrightarrow>
     p' = p\<lparr>PN_CurChain := PN_CurChain p', PN_seqIDMap := PN_seqIDMap p', PN_cdm := PN_cdm p'\<rparr>"
  by (auto simp: Relay_HandleMessageOutsidePBFT_def UTXO_HandleMessageOutsidePBFT_def
      Broker_HandleMessageOutsidePBFT_def CLPA_HandleMessageOutsidePBFT_def
      CLPAB_HandleMessageOutsidePBFT_def Relay_handleRelay_def UTXO_handleRelay_def
      handleInjectTx_def handleSeqIDinfos_def add_to_pool_def put_chain_def Let_def
      handlePartitionMsg_def handlePartitionReady_def handleAccountStateAndTxMsg_def broker_variants
      split: net_msg.splits)

lemmas module_defs = pbft_mods_def pbft_ohms_def relay_mod_def utxo_mod_def broker_mod_def
  clpa_mod_def clpab_mod_def

interpretation pbft: inside_mod "pbft_mods E" "pbft_ohms E" for E :: "('t, 'd, 'b) env"
proof
  fix M :: "('d, 'b) ihm" and p p' :: "('d, 'b) pnode" and req m ok pm c out rom som
  assume M: "M \<in> pbft_mods E"
  show "\<exists>bc cd pc. p' = p\<lparr>PN_CurChain := bc, PN_cdm := cd, PN_propose_pc := pc\<rparr>"
    if "HandleinPropose M p = Inr (out, req, p')"
    using M that chain_frame(4) [OF propose_block_frame] clpa_propose_frame by (auto simp: module_defs)
  show "\<exists>rp. p' = p\<lparr>PN_requestPool := rp\<rparr>" if "HandleinPrePrepare M m p = Inr (ok, p')"
    using M that preprepare_frames by (auto simp: module_defs broker_variants)
  show "p' = p" if "HandleinPrepare M pm p = Inr p'" using M that by (auto simp: module_defs)
  show "\<exists>bc cd. p' = p\<lparr>PN_CurChain := bc, PN_cdm := cd\<rparr>" if "HandleinCommit M c p = Inr (out, p')"
    using M that commit_frames by (intro chain_frame(1)) (auto simp: module_defs)
  show "p' = p" if "HandleReqestforOldSeq M rom p = Inr p'" using M that by (auto simp: module_defs)
  show "\<exists>bc s cd. p' = p\<lparr>PN_CurChain := bc, PN_sequenceID := s, PN_cdm := cd\<rparr>"
    if h: "HandleforSequentialRequest M som p = Inr p'"
  proof -
    have "p' = p\<lparr>PN_CurChain := PN_CurChain p', PN_sequenceID := PN_sequenceID p', PN_cdm := PN_cdm p'\<rparr>"
      using M h by (auto simp: module_defs broker_variants intro: seqreq_frames)
    then show ?thesis by blast
  qed
next
  fix oh :: "('d, 'b) ohm" and p p' :: "('d, 'b) pnode" and msg out
  assume "oh \<in> pbft_ohms E" and "oh msg p = Inr (out, p')"
  then have "p' = p\<lparr>PN_CurChain := PN_CurChain p', PN_seqIDMap := PN_seqIDMap p', PN_cdm := PN_cdm p'\<rparr>"
    by (auto simp: pbft_ohms_def intro: outside_frames)
  then show "\<exists>bc sm cd. p' = p\<lparr>PN_CurChain := bc, PN_seqIDMap := sm, PN_cdm := cd\<rparr>" by blast
qed

end
