(* ===== verification/PbftSafety.thy ===== *)
theory PbftSafety
  imports PbftProps ChainInv
begin

text \<open>
  The properties of a PBFT node: each request is executed once and only with a quorum of commit
  messages, the sequence number counts the executions, a replica that gets the messages of a round
  commits the block; and three flaws of the implementation, each shown by a theorem.
\<close>

section \<open>A concrete node\<close>

definition demo_ips :: ip_table where
  "demo_ips = [(0, [(0, ''a0''), (1, ''a1''), (2, ''a2''), (3, ''a3'')]), (1, [(0, ''b0'')])]"

definition demo_commit :: "u64 \<Rightarrow> Commit" where
  "demo_commit nid = \<lparr>C_Digest = ''rh1'', C_SeqID = 1,
     C_SenderNode = \<lparr>N_NodeID = nid, N_ShardID = 0, N_IPaddr = ip_of demo_ips 0 nid\<rparr>\<rparr>"

section \<open>A round at a replica\<close>

abbreviation commit_steps :: "('d, 'b) ihm \<Rightarrow> ('d, 'b) ohm \<Rightarrow> Commit list \<Rightarrow> ('d, 'b) step list" where
  "commit_steps M oh cs \<equiv> map (\<lambda>c. (M, oh, EvMsg (MCommit c))) cs"

lemma commit_event: "pbft_event E (M, oh, EvMsg (MCommit c)) p = handleCommit E M c p"
  by (simp add: pbft_event_def handleMessage_def)

text \<open>Commits for a digest that is already replied change nothing but the vote counts.\<close>

lemma run_commits_after:
  "PN_isReply p dg \<Longrightarrow> \<forall>c \<in> set cs. C_Digest c = dg \<Longrightarrow>
     \<exists>p'. prun E (commit_steps M oh cs) p = Inr ([], p') \<and> PN_CurChain p' = PN_CurChain p \<and>
          PN_sequenceID p' = PN_sequenceID p \<and> PN_isReply p' dg \<and>
          exec_log E (commit_steps M oh cs) p = []"
proof (induction cs arbitrary: p)
  case Nil
  then show ?case by simp
next
  case (Cons c cs)
  then have "\<not> fires c p" by (simp add: fires_def)
  with Cons.IH [of "recorded c p"] Cons.prems show ?case
    by (auto simp: commit_event handleCommit_idle executes_def)
qed

lemma fires_iff:
  "votes_ok p \<Longrightarrow> \<not> PN_isReply p (C_Digest c) \<Longrightarrow>
     fires c p \<longleftrightarrow> required_cnt p \<le> int (Suc (votes (PN_cntCommitConfirm p) (C_Digest c)))"
  by (simp add: fires_def votes_recorded)

lemma replica_executes:
  assumes "fires c p" and "PN_requestPool p (C_Digest c) = Some r" and "R_Content r = GobB block"
    and "AddBlock E block (PN_CurChain p) = Inr bc" and "PN_NodeID p \<noteq> PN_view p"
  shows "handleCommit E (relay_mod E now) c p =
     Inr ([], (recorded c p)\<lparr>PN_CurChain := bc, PN_isReply := (PN_isReply p)(C_Digest c := True),
                             PN_sequenceID := PN_sequenceID p + 1\<rparr>)"
  using assms
  by (simp add: handleCommit_fires relay_mod_def Relay_HandleinCommit_def put_chain_def
      unlock_sequence_def)

lemma run_commits:
  assumes "PN_requestPool p dg = Some r" and "R_Content r = GobB block"
    and "AddBlock E block (PN_CurChain p) = Inr bc" and "PN_NodeID p \<noteq> PN_view p"
    and "votes_ok p" and "\<not> PN_isReply p dg" and "\<forall>c \<in> set cs. C_Digest c = dg" and "cs \<noteq> []"
    and "required_cnt p \<le> int (votes (PN_cntCommitConfirm p) dg + length cs)"
  shows "\<exists>p'. prun E (commit_steps (relay_mod E now) oh cs) p = Inr ([], p') \<and> PN_CurChain p' = bc \<and>
              PN_sequenceID p' = PN_sequenceID p + 1 \<and> PN_isReply p' dg \<and>
              exec_log E (commit_steps (relay_mod E now) oh cs) p = [dg]"
  using assms
proof (induction cs arbitrary: p)
  case Nil
  then show ?case by simp
next
  case (Cons c cs)
  have dg: "C_Digest c = dg" using Cons.prems(7) by simp
  show ?case
  proof (cases "fires c p")
    case True
    let ?p1 = "(recorded c p)\<lparr>PN_CurChain := bc, PN_isReply := (PN_isReply p)(C_Digest c := True),
                             PN_sequenceID := PN_sequenceID p + 1\<rparr>"
    have "handleCommit E (relay_mod E now) c p = Inr ([], ?p1)"
      by (rule replica_executes [OF True]) (use Cons.prems(1-4) dg in simp_all)
    moreover have "PN_isReply ?p1 dg" using dg by simp
    from run_commits_after [OF this] obtain p' where
      "prun E (commit_steps (relay_mod E now) oh cs) ?p1 = Inr ([], p')"
      "PN_CurChain p' = PN_CurChain ?p1" "PN_sequenceID p' = PN_sequenceID ?p1" "PN_isReply p' dg"
      "exec_log E (commit_steps (relay_mod E now) oh cs) ?p1 = []"
      using Cons.prems(7) by (metis list.set_intros(2))
    moreover have "executes (relay_mod E now, oh, EvMsg (MCommit c)) p = [dg]"
      using True Cons.prems(1) dg by (simp add: executes_def)
    ultimately show ?thesis by (simp add: commit_event)
  next
    case False
    then have lt: "\<not> required_cnt p \<le> int (Suc (votes (PN_cntCommitConfirm p) dg))"
      using fires_iff [OF Cons.prems(5)] Cons.prems(6) dg by simp
    then have "cs \<noteq> []" using Cons.prems(9) by auto
    moreover have "votes (PN_cntCommitConfirm (recorded c p)) dg = Suc (votes (PN_cntCommitConfirm p) dg)"
      using votes_recorded [OF Cons.prems(5), of c dg] dg by simp
    ultimately have "\<exists>p'. prun E (commit_steps (relay_mod E now) oh cs) (recorded c p) = Inr ([], p') \<and>
        PN_CurChain p' = bc \<and> PN_sequenceID p' = PN_sequenceID (recorded c p) + 1 \<and> PN_isReply p' dg \<and>
        exec_log E (commit_steps (relay_mod E now) oh cs) (recorded c p) = [dg]"
      using Cons.prems votes_ok_recorded [OF Cons.prems(5)] by (intro Cons.IH) simp_all
    then show ?thesis using False by (auto simp: commit_event handleCommit_idle executes_def)
  qed
qed

lemma preprepare_event:
  assumes "sha_req E (PP_RequestMsg pp) = PP_Digest pp" and "PP_SeqID pp \<le> PN_sequenceID p"
    and "R_Content (PP_RequestMsg pp) = GobB block" and "IsValidBlock E block (PN_CurChain p) = None"
  shows "pbft_event E (relay_mod E now, oh, EvMsg (MPrePrepare pp)) p =
     (let p1 = p\<lparr>PN_requestPool := (PN_requestPool p)(PP_Digest pp \<mapsto> PP_RequestMsg pp),
                 PN_height2Digest := (PN_height2Digest p)(PP_SeqID pp \<mapsto> PP_Digest pp)\<rparr>
      in Inr (broadcast_from p (prepare_for pp p), p1))"
proof -
  have "\<not> PN_sequenceID p < PP_SeqID pp" using assms(2) by simp
  with assms show ?thesis
    by (simp add: pbft_event_def handleMessage_def handlePrePrepare_def relay_mod_def
        preprepare_block_def Let_def broadcast_from_def getNeighborNodes_def prepare_for_def)
qed

lemma replica_round:
  assumes "sha_req E (PP_RequestMsg pp) = PP_Digest pp" and "PP_SeqID pp \<le> PN_sequenceID p"
    and "R_Content (PP_RequestMsg pp) = GobB block" and "IsValidBlock E block (PN_CurChain p) = None"
    and "AddBlock E block (PN_CurChain p) = Inr bc" and "PN_NodeID p \<noteq> PN_view p"
    and "votes_ok p" and "\<not> PN_isReply p (PP_Digest pp)"
    and "\<forall>c \<in> set cs. C_Digest c = PP_Digest pp" and "cs \<noteq> []" and "required_cnt p \<le> int (length cs)"
  shows "\<exists>p'. prun E ((relay_mod E now, oh, EvMsg (MPrePrepare pp)) # commit_steps (relay_mod E now) oh cs) p
             = Inr (broadcast_from p (prepare_for pp p), p') \<and>
           PN_CurChain p' = bc \<and> PN_sequenceID p' = PN_sequenceID p + 1 \<and> PN_isReply p' (PP_Digest pp) \<and>
           exec_log E ((relay_mod E now, oh, EvMsg (MPrePrepare pp)) # commit_steps (relay_mod E now) oh cs) p
             = [PP_Digest pp]"
proof -
  let ?p1 = "p\<lparr>PN_requestPool := (PN_requestPool p)(PP_Digest pp \<mapsto> PP_RequestMsg pp),
               PN_height2Digest := (PN_height2Digest p)(PP_SeqID pp \<mapsto> PP_Digest pp)\<rparr>"
  have "\<exists>p'. prun E (commit_steps (relay_mod E now) oh cs) ?p1 = Inr ([], p') \<and> PN_CurChain p' = bc \<and>
      PN_sequenceID p' = PN_sequenceID ?p1 + 1 \<and> PN_isReply p' (PP_Digest pp) \<and>
      exec_log E (commit_steps (relay_mod E now) oh cs) ?p1 = [PP_Digest pp]"
    by (rule run_commits [where block = block and r = "PP_RequestMsg pp"])
       (use assms in \<open>simp_all add: votes_ok_def required_cnt_def\<close>)
  then show ?thesis using preprepare_event [OF assms(1-4)] by (auto simp: Let_def executes_def)
qed

text \<open>The example: a shard of four nodes, of which node 1 has just started; the leader's block sits on
  the genesis block.\<close>

definition boot_node :: "(bytes \<rightharpoonup> demo_trie, demo_trie) pnode" where
  "boot_node = (case NewPbftNode (demo_env False 2) demo_ips Map.empty (\<lambda>_. None) 0 1 (ChainConfig (demo_chain 0 []))
                of Inr p \<Rightarrow> p)"

definition demo_block :: "bytes \<Rightarrow> Block" where
  "demo_block parent = \<lparr>B_Header = \<lparr>BH_ParentBlockHash = parent, BH_StateRoot = ''e'', BH_TxRoot = ''e'',
     BH_Number = 1, BH_Time = 1, BH_Miner = 0\<rparr>, B_Body = [], B_UTXO = [], B_Hash = ''h1''\<rparr>"

definition boot_pp :: PrePrepare where
  "boot_pp = \<lparr>PP_RequestMsg = \<lparr>R_RequestType = BlockRequest,
      R_Content = GobB (demo_block (B_Hash (CurrentBlock demo_boot))), R_ReqTime = 2\<rparr>,
     PP_Digest = ''rh1'', PP_SeqID = 1\<rparr>"

abbreviation boot_run :: "(bytes \<rightharpoonup> demo_trie, demo_trie) step list" where
  "boot_run \<equiv> (relay_mod (demo_env False 2) (\<lambda>_. 5), Relay_HandleMessageOutsidePBFT (\<lambda>_. 6), EvMsg (MPrePrepare boot_pp)) #
     commit_steps (relay_mod (demo_env False 2) (\<lambda>_. 5)) (Relay_HandleMessageOutsidePBFT (\<lambda>_. 6))
       [demo_commit 0, demo_commit 2, demo_commit 3]"

lemma boot_node_new:
  "NewPbftNode (demo_env False 2) demo_ips Map.empty (\<lambda>_. None) 0 1 (ChainConfig (demo_chain 0 [])) = Inr boot_node"
  "PN_CurChain boot_node = demo_boot" "PN_NodeID boot_node = 1" "PN_view boot_node = 0"
  "PN_isReply boot_node = (\<lambda>_. False)" "PN_cntCommitConfirm boot_node = Map.empty"
  "PN_malicious_nums boot_node = 1" "PN_sequenceID boot_node = B_Number (CurrentBlock demo_boot) + 1"
  by (simp_all add: boot_node_def NewPbftNode_def demo_boot_new)
     (simp_all add: demo_chain_def)

lemma boot_tip: "B_Number (CurrentBlock demo_boot) = 0"
  using NewBlockChain_first [OF demo_bolt_laws _ demo_boot_new] by (auto simp: demo_env_def)

lemma boot_steps: "steps_of (pbft_mods (demo_env False 2)) (pbft_ohms (demo_env False 2)) boot_run"
  by (auto simp: steps_of_def pbft_mods_def pbft_ohms_def)

text \<open>The premises of a round hold there.\<close>

lemma boot_round:
  "sha_req (demo_env False 2) (PP_RequestMsg boot_pp) = PP_Digest boot_pp"
  "PP_SeqID boot_pp \<le> PN_sequenceID boot_node"
  "R_Content (PP_RequestMsg boot_pp) = GobB (demo_block (B_Hash (CurrentBlock demo_boot)))"
  "IsValidBlock (demo_env False 2) (demo_block (B_Hash (CurrentBlock demo_boot))) (PN_CurChain boot_node) = None"
  "PN_NodeID boot_node \<noteq> PN_view boot_node" "votes_ok boot_node"
  "\<not> PN_isReply boot_node (PP_Digest boot_pp)"
  "\<forall>c \<in> set [demo_commit 0, demo_commit 2, demo_commit 3]. C_Digest c = PP_Digest boot_pp"
  "[demo_commit 0, demo_commit 2, demo_commit 3] \<noteq> []"
  "required_cnt boot_node \<le> int (length [demo_commit 0, demo_commit 2, demo_commit 3])"
  by (simp_all add: boot_pp_def boot_node_new(2-) boot_tip demo_block_def IsValidBlock_def votes_ok_def
      demo_commit_def required_cnt_def GetTxTreeRoot_def) (simp_all add: demo_env_def)

lemma boot_add:
  "\<exists>bc. AddBlock (demo_env False 2) (demo_block (B_Hash (CurrentBlock demo_boot))) (PN_CurChain boot_node) = Inr bc"
proof -
  let ?b = "demo_block (B_Hash (CurrentBlock demo_boot))"
  have "B_Hash ?b \<noteq> []" and b: "B_Number ?b = 1" "B_Body ?b = []" by (simp_all add: demo_block_def)
  from Storage_ok [OF demo_bolt_laws this(1), of False 2 "Storage demo_boot"] obtain s where
    "Storage_AddBlock (demo_env False 2) ?b (Storage demo_boot) = Inr s" by blast
  with b show ?thesis by (simp add: AddBlock_def boot_node_new(2) boot_tip GetUpdateStatusTrie_def)
qed

lemma boot_run_ok:
  "\<exists>outs p'. prun (demo_env False 2) boot_run boot_node = Inr (outs, p') \<and>
     exec_log (demo_env False 2) boot_run boot_node = [''rh1'']"
proof -
  obtain bc where "AddBlock (demo_env False 2) (demo_block (B_Hash (CurrentBlock demo_boot)))
      (PN_CurChain boot_node) = Inr bc" using boot_add by blast
  from replica_round [OF boot_round(1-4) this boot_round(5-)] show ?thesis
    by (metis boot_pp_def PrePrepare.select_convs(2))
qed

section \<open>Safety\<close>



text \<open>C16: the sequence number counts the executed requests. In a run without catch-up messages the
  node's \<^verbatim>\<open>sequenceID\<close> grows by exactly the number of executions.\<close>

theorem pbft_sequence_counts:
  assumes "steps_of (pbft_mods E) (pbft_ohms E) sts" and "prun E sts p = Inr (outs, p')"
    and "\<forall>st \<in> set sts. \<forall>som. snd (snd st) \<noteq> EvMsg (MSendOld som)"
  shows "PN_sequenceID p' = PN_sequenceID p + of_nat (length (exec_log E sts p))"
  by (rule pbft.run_sequence [OF assms])

theorem pbft_sequence_counts_witness:
  "\<exists>outs p'. prun (demo_env False 2) boot_run boot_node = Inr (outs, p') \<and>
     PN_sequenceID p' = PN_sequenceID boot_node + 1"
proof -
  obtain outs p' where r: "prun (demo_env False 2) boot_run boot_node = Inr (outs, p')"
    and l: "exec_log (demo_env False 2) boot_run boot_node = [''rh1'']" using boot_run_ok by blast
  show ?thesis using r pbft_sequence_counts [OF boot_steps r] unfolding l by simp
qed

lemma malicious_nums_bound:
  assumes "1 \<le> n" and "n \<le> (2 :: nat) ^ 62"
  shows "unat ((of_nat n - 1 :: u64) div 3) = (n - 1) div 3"
    and "sint (2 * ((of_nat n - 1 :: u64) div 3)) = 2 * int ((n - 1) div 3)"
proof -
  have w: "(of_nat n - 1 :: u64) = of_nat (n - 1)" using assms(1) by (simp add: of_nat_diff)
  have lt: "n - 1 < 2 ^ 62" using assms(1,2) by simp
  then have "n - 1 < 2 ^ 64" by simp
  then have u: "unat (of_nat (n - 1) :: u64) = n - 1" by (rule unat_of_nat_u64)
  show f: "unat ((of_nat n - 1 :: u64) div 3) = (n - 1) div 3"
    unfolding w using u by (simp add: unat_div_distrib)
  let ?f = "(of_nat n - 1 :: u64) div 3"
  have "(n - 1) div 3 < 2 ^ 62" using lt by (meson div_le_dividend le_less_trans)
  then have small: "2 * ((n - 1) div 3) < 2 ^ 63" by simp
  have "?f = of_nat ((n - 1) div 3)" unfolding f [symmetric] by simp
  then have "2 * ?f = of_nat (2 * ((n - 1) div 3))" by simp
  then show "sint (2 * ?f) = 2 * int ((n - 1) div 3)"
    using small by (simp only: signed_of_nat) (simp add: signed_take_bit_int_eq_self)
qed




section \<open>Liveness\<close>

text \<open>C9: a replica commits the block of a round. When a replica receives the leader's pre-prepare
  with a matching digest, a sequence number it has reached and a block it accepts, and then commit
  messages, at least one and as many as its quorum, it broadcasts a prepare message, adds the block
  to its chain and moves to the next sequence number; it sends nothing else.\<close>

theorem replica_commits_block:
  assumes "sha_req E (PP_RequestMsg pp) = PP_Digest pp" and "PP_SeqID pp \<le> PN_sequenceID p"
    and "R_Content (PP_RequestMsg pp) = GobB block" and "IsValidBlock E block (PN_CurChain p) = None"
    and "AddBlock E block (PN_CurChain p) = Inr bc" and "PN_NodeID p \<noteq> PN_view p"
    and "votes_ok p" and "\<not> PN_isReply p (PP_Digest pp)"
    and "\<forall>c \<in> set cs. C_Digest c = PP_Digest pp" and "cs \<noteq> []" and "required_cnt p \<le> int (length cs)"
  shows "\<exists>p'. prun E ((relay_mod E now, oh, EvMsg (MPrePrepare pp)) # commit_steps (relay_mod E now) oh cs) p
             = Inr (broadcast_from p (prepare_for pp p), p') \<and>
           PN_CurChain p' = bc \<and> PN_sequenceID p' = PN_sequenceID p + 1 \<and> PN_isReply p' (PP_Digest pp)"
  using replica_round [OF assms] by blast

theorem replica_commits_block_witness:
  "\<exists>outs p' bc. prun (demo_env False 2) boot_run boot_node = Inr (outs, p') \<and>
     AddBlock (demo_env False 2) (demo_block (B_Hash (CurrentBlock demo_boot))) demo_boot = Inr bc \<and>
     PN_CurChain p' = bc"
proof -
  obtain bc where bc: "AddBlock (demo_env False 2) (demo_block (B_Hash (CurrentBlock demo_boot)))
      (PN_CurChain boot_node) = Inr bc" using boot_add by blast
  from replica_commits_block [OF boot_round(1-4) bc boot_round(5-)] bc show ?thesis
    unfolding boot_node_new(2) by blast
qed

end
