(* ===== verification/PbftFlaws.thy ===== *)
theory PbftFlaws
  imports PbftSafety
begin

text \<open>
  Behaviour of the consensus node that the protocol does not intend, each shown of the handlers as
  they are: votes are counted per message and not per node, a node that has fallen behind asks for
  the wrong heights and adds none of the blocks it gets, and the broker module's check of a
  catch-up message can never let a block through.
\<close>

section \<open>Votes are counted per message\<close>

lemma exec_log_repeat:
  assumes "votes_ok p" and "\<not> PN_isReply p (C_Digest c)" and "PN_requestPool p (C_Digest c) \<noteq> None"
    and "0 < k" and "required_cnt p \<le> int (votes (PN_cntCommitConfirm p) (C_Digest c) + k)"
  shows "C_Digest c \<in> set (exec_log E (replicate k (M, oh, EvMsg (MCommit c))) p)"
  using assms
proof (induction k arbitrary: p)
  case 0
  then show ?case by simp
next
  case (Suc k)
  show ?case
  proof (cases "fires c p")
    case True
    then show ?thesis using Suc.prems(3) by (simp add: executes_def)
  next
    case False
    then have "0 < k" using Suc.prems fires_iff [OF Suc.prems(1,2)] by (cases k) auto
    moreover have "votes (PN_cntCommitConfirm (recorded c p)) (C_Digest c)
        = Suc (votes (PN_cntCommitConfirm p) (C_Digest c))"
      using votes_recorded [OF Suc.prems(1), of c "C_Digest c"] by simp
    ultimately have "C_Digest c \<in> set (exec_log E (replicate k (M, oh, EvMsg (MCommit c))) (recorded c p))"
      using Suc.prems votes_ok_recorded [OF Suc.prems(1)] by (intro Suc.IH) simp_all
    then show ?thesis using False by (simp add: commit_event handleCommit_idle)
  qed
qed



section \<open>Catching up\<close>

definition old_request :: "Block \<Rightarrow> Request" where
  "old_request b = \<lparr>R_RequestType = BlockRequest, R_Content = GobB b, R_ReqTime = 0\<rparr>"

lemma add_old_refused:
  assumes "\<forall>j < n. i + j < length rs \<and> R_RequestType (rs ! (i + j)) = BlockRequest \<and>
      (\<exists>b. R_Content (rs ! (i + j)) = GobB b \<and> B_Number b \<noteq> B_Number (CurrentBlock bc) + 1)"
  shows "add_old_blocks E n i rs bc = Inr bc"
  using assms
proof (induction n arbitrary: i)
  case 0
  then show ?case by simp
next
  case (Suc n)
  from Suc.prems have "i < length rs" "R_RequestType (rs ! i) = BlockRequest"
    and "\<exists>b. R_Content (rs ! i) = GobB b \<and> B_Number b \<noteq> B_Number (CurrentBlock bc) + 1"
    by (metis add_0_right zero_less_Suc)+
  moreover have "\<forall>j < n. Suc i + j < length rs \<and> R_RequestType (rs ! (Suc i + j)) = BlockRequest \<and>
      (\<exists>b. R_Content (rs ! (Suc i + j)) = GobB b \<and> B_Number b \<noteq> B_Number (CurrentBlock bc) + 1)"
    using Suc.prems by (metis Suc_less_eq add_Suc_right add_Suc_shift)
  ultimately show ?case using Suc.IH [of "Suc i"] by (auto simp: AddBlock_def)
qed



lemma add_old_in_range:
  "add_old_blocks E n i rs bc = Inr bc' \<Longrightarrow> n \<noteq> 0 \<Longrightarrow> i + n \<le> length rs"
proof (induction n arbitrary: i bc)
  case (Suc n)
  then obtain bc1 where "i < length rs" "add_old_blocks E n (Suc i) rs bc1 = Inr bc'"
    by (auto simp: res_simps split: if_splits)
  with Suc.IH [of "Suc i" bc1] show ?case by (cases n) auto
qed simp

lemma reversed_difference:
  assumes "s \<le> e" and "sint (s - e :: u64) = int L"
  shows "L \<le> unat e - unat s"
proof (rule ccontr)
  let ?D = "unat e - unat s"
  assume "\<not> L \<le> ?D"
  then have less: "?D < L" by simp
  have L: "L < 2 ^ 63" using sint_lt [of "s - e"] assms(2) by simp
  have "unat s \<le> unat e" using assms(1) by (simp add: word_le_nat_alt)
  then have D: "e - s = of_nat ?D" by (simp add: of_nat_diff)
  have "s - e = of_int (sint (s - e))" by simp
  then have "s - e = of_nat L" unfolding assms(2) by simp
  then have "of_nat L + of_nat ?D = (s - e) + (e - s)" using D by simp
  then have "of_nat (L + ?D) = (0 :: u64)" by simp
  then have "unat (of_nat (L + ?D) :: u64) = 0" by simp
  moreover have "L + ?D < 2 ^ 64" using L less by simp
  ultimately show False using unat_of_nat_u64 [of "L + ?D"] less by simp
qed

text \<open>The broker module never catches up. Its check compares the number of requests with the
  start height minus the end height; when the check passes, either the loop over the heights is
  empty or it runs out of range and panics, so no catch-up message ever adds a block.\<close>

theorem broker_catch_up_never_adds:
  assumes "Broker_HandleforSequentialRequest E som p = Inr p'"
  shows "PN_CurChain p' = PN_CurChain p"
proof -
  let ?s = "SOM_SeqStartHeight som" and ?e = "SOM_SeqEndHeight som" and ?rs = "SOM_OldRequest som"
  show ?thesis
  proof (cases "sint (?s - ?e) = int (length ?rs) \<and> ?s \<le> ?e")
    case False
    then show ?thesis using assms
      by (auto simp: Broker_HandleforSequentialRequest_def height_count_def put_chain_def split: if_splits)
  next
    case True
    then obtain bc where "add_old_blocks E (height_count ?s ?e) 0 ?rs (PN_CurChain p) = Inr bc"
      using assms by (auto simp: Broker_HandleforSequentialRequest_def res_simps)
    then have "height_count ?s ?e \<le> length ?rs"
      using add_old_in_range [of E "height_count ?s ?e" 0] True by (auto simp: height_count_def)
    moreover have "length ?rs \<le> unat ?e - unat ?s" using True reversed_difference by blast
    ultimately show ?thesis using True by (auto simp: height_count_def split: if_splits)
  qed
qed

theorem broker_catch_up_never_adds_witness:
  "\<exists>p'. Broker_HandleforSequentialRequest (demo_env False 2)
     \<lparr>SOM_SeqStartHeight = 1, SOM_SeqEndHeight = 1, SOM_OldRequest = [old_request (sample_block 1)],
      SOM_SenderNode = PN_RunningNode boot_node\<rparr> boot_node = Inr p' \<and> PN_CurChain p' = demo_boot"
proof -
  let ?som = "\<lparr>SOM_SeqStartHeight = 1, SOM_SeqEndHeight = 1, SOM_OldRequest = [old_request (sample_block 1)],
      SOM_SenderNode = PN_RunningNode boot_node\<rparr>"
  have r: "Broker_HandleforSequentialRequest (demo_env False 2) ?som boot_node = Inr boot_node"
    by (simp add: Broker_HandleforSequentialRequest_def)
  from broker_catch_up_never_adds [OF r] r show ?thesis using boot_node_new(2) by auto
qed

end
