(* ===== verification/ClpaProps.thy ===== *)
theory ClpaProps
  imports PbftSafety
begin

text \<open>
  What re-sharding does with accounts and queued transactions: what a leader sends to the other
  leaders, what the receiver proposes, and what the shard holds after it has committed the proposal.
\<close>

section \<open>Fetching and installing accounts\<close>

lemma rfold_collect:
  "rfold (\<lambda>x r. rbind (f x) (\<lambda>a. Inr (r @ [a]))) xs r = Inr r' \<longleftrightarrow>
     (\<exists>ys. r' = r @ ys \<and> list_all2 (\<lambda>x y. f x = Inr y) xs ys)"
proof (induction xs arbitrary: r)
  case Nil
  then show ?case by auto
next
  case (Cons x xs)
  show ?case
  proof (cases "f x")
    case (Inl e)
    then show ?thesis by (auto simp: list_all2_Cons1)
  next
    case (Inr y)
    then show ?thesis by (simp add: Cons.IH) (auto simp: list_all2_Cons1)
  qed
qed

lemma FetchAccounts_iff:
  "FetchAccounts E addrs bc = Inr as \<longleftrightarrow>
     (\<exists>st. opens E bc (B_StateRoot (CurrentBlock bc)) st \<and>
           list_all2 (\<lambda>a x. load_account E st 0 a = Inr x) addrs as)"
proof -
  let ?r = "B_StateRoot (CurrentBlock bc)"
  have "FetchAccounts E addrs bc = Inr as \<longleftrightarrow>
      (\<exists>st d. open_trie E ?r bc = Inr (st, d) \<and> list_all2 (\<lambda>a x. load_account E st 0 a = Inr x) addrs as)"
    by (auto simp: FetchAccounts_def res_simps rfold_collect)
  moreover have "(\<exists>d. open_trie E ?r bc = Inr (st, d)) \<longleftrightarrow> opens E bc ?r st" for st
    using open_trie_D [of E ?r bc st] open_trie_ok [of E bc ?r st] by blast
  ultimately show ?thesis by blast
qed

lemma opens_unique: "opens E bc r st \<Longrightarrow> opens E bc r st' \<Longrightarrow> st = st'"
  by (auto simp: opens_def)

lemma FetchAccounts_one:
  "opens E bc (B_StateRoot (CurrentBlock bc)) st \<Longrightarrow>
     FetchAccounts E [a] bc = rbind (load_account E st 0 a) (\<lambda>x. Inr [x])"
  using open_trie_ok [of E bc "B_StateRoot (CurrentBlock bc)" st]
  by (auto simp: FetchAccounts_def rbind_assoc)

lemma FetchAccounts_nth:
  assumes "FetchAccounts E addrs bc = Inr as" and "(a, x) \<in> set (zip addrs as)"
  shows "FetchAccounts E [a] bc = Inr [x]"
proof -
  obtain st where st: "opens E bc (B_StateRoot (CurrentBlock bc)) st"
    and l: "list_all2 (\<lambda>a x. load_account E st 0 a = Inr x) addrs as"
    using assms(1) by (auto simp: FetchAccounts_iff)
  have "load_account E st 0 a = Inr x" using l assms(2) by (auto simp: list_all2_iff)
  with FetchAccounts_one [OF st] show ?thesis by simp
qed

section \<open>What a leader sends\<close>

text \<open>The account a queued transaction waits for, the accounts of the partition \<open>m\<close> that leave a shard,
  and the message for shard \<open>i\<close>.\<close>

definition active :: "Transaction \<Rightarrow> string" where
  "active tx = (if Tx_Relayed tx then Tx_Recipient tx else Tx_Sender tx)"

definition leaving :: "('t, 'd, 'b) env \<Rightarrow> ('d, 'b) pnode \<Rightarrow> (string, u64) gomap \<Rightarrow> string list" where
  "leaving E p m =
     map fst (filter (\<lambda>(k, v). v \<noteq> PN_ShardID p \<and>
                                Get_PartitionMap E (PN_CurChain p) k = Inr (PN_ShardID p)) m)"

definition others :: "('d, 'b) pnode \<Rightarrow> u64 list" where
  "others p = filter (\<lambda>i. i \<noteq> PN_ShardID p) (shard_ids p)"

abbreviation queue :: "('d, 'b) pnode \<Rightarrow> Transaction list" where
  "queue p \<equiv> TxQueue (Txpool (PN_CurChain p))"

definition parcel ::
    "('d, 'b) pnode \<Rightarrow> (string, u64) gomap \<Rightarrow> (string \<times> AccountState) list \<Rightarrow> Transaction list \<Rightarrow> u64
      \<Rightarrow> AccountStateAndTx" where
  "parcel p m fetched txs i =
     (let moved = filter (\<lambda>(a, _). shard_in m a = i) fetched
      in \<lparr>AST_Addrs = map fst moved, AST_AccountState = map snd moved,
          AST_Txs = filter (\<lambda>tx. active tx \<in> set (map fst moved)) txs, AST_FromShard = PN_ShardID p\<rparr>)"

lemma tx_moves_active: "tx_moves A tx \<longleftrightarrow> active tx \<in> set A"
  by (auto simp: tx_moves_def active_def)

lemma split_queue_eq:
  "split_queue A txs (s, k) =
     (s @ filter (\<lambda>tx. active tx \<in> set A) txs, k @ filter (\<lambda>tx. active tx \<notin> set A) txs)"
  by (induction txs arbitrary: s k) (auto simp: tx_moves_active)

lemma send_shard_eq:
  "send_shard p m fetched i (out, q) =
     (out @ [(ip_of (PN_ip_nodeTable p) i 0, MAccountStateAndTx (parcel p m fetched q i))],
      filter (\<lambda>tx. active tx \<notin> set (AST_Addrs (parcel p m fetched q i))) q)"
  by (simp add: send_shard_def parcel_def split_queue_eq Let_def)

lemma in_parcel:
  "a \<in> set (AST_Addrs (parcel p m fetched q i)) \<longleftrightarrow> a \<in> fst ` set fetched \<and> shard_in m a = i"
  by (force simp: parcel_def Let_def)

lemma parcel_filter:
  "i \<noteq> j \<Longrightarrow> parcel p m f (filter (\<lambda>tx. active tx \<notin> set (AST_Addrs (parcel p m f q j))) q) i
     = parcel p m f q i"
proof -
  assume ne: "i \<noteq> j"
  have "filter (\<lambda>tx. active tx \<in> set (AST_Addrs (parcel p m f q i)))
          (filter (\<lambda>tx. active tx \<notin> set (AST_Addrs (parcel p m f q j))) q)
        = filter (\<lambda>tx. active tx \<in> set (AST_Addrs (parcel p m f q i))) q"
    using ne by (auto simp: in_parcel intro: filter_cong)
  then show ?thesis by (simp add: parcel_def Let_def)
qed

lemma send_shards:
  "distinct is \<Longrightarrow> fold (send_shard p m f) is (out, q) =
     (out @ map (\<lambda>i. (ip_of (PN_ip_nodeTable p) i 0, MAccountStateAndTx (parcel p m f q i))) is,
      filter (\<lambda>tx. \<not> (active tx \<in> fst ` set f \<and> shard_in m (active tx) \<in> set is)) q)"
proof (induction "is" arbitrary: out q)
  case Nil
  then show ?case by simp
next
  case (Cons i js)
  let ?q = "filter (\<lambda>tx. active tx \<notin> set (AST_Addrs (parcel p m f q i))) q"
  have "map (\<lambda>k. (ip_of (PN_ip_nodeTable p) k 0, MAccountStateAndTx (parcel p m f ?q k))) js
      = map (\<lambda>k. (ip_of (PN_ip_nodeTable p) k 0, MAccountStateAndTx (parcel p m f q k))) js"
    using Cons.prems by (intro map_cong refl) (metis distinct.simps(2) parcel_filter)
  moreover have "filter (\<lambda>tx. \<not> (active tx \<in> fst ` set f \<and> shard_in m (active tx) \<in> set js)) ?q
      = filter (\<lambda>tx. \<not> (active tx \<in> fst ` set f \<and> shard_in m (active tx) \<in> set (i # js))) q"
    by (auto simp: in_parcel intro: filter_cong)
  ultimately show ?case using Cons by (simp add: send_shard_eq)
qed

lemma fetch_keys:
  "rfold (fetch_key E p) m acc = Inr r \<Longrightarrow> r = acc @ leaving E p m"
proof (induction m arbitrary: acc)
  case Nil
  then show ?case by (simp add: leaving_def)
next
  case (Cons kv m)
  then obtain acc' where "fetch_key E p kv acc = Inr acc'" and r: "r = acc' @ leaving E p m"
    by (auto simp: res_simps)
  then have "acc' = acc @ leaving E p [kv]"
    by (auto simp: fetch_key_def leaving_def res_simps split: if_splits)
  with r show ?case by (simp add: leaving_def)
qed

lemma distinct_shard_ids: "distinct (shard_ids p)"
proof -
  have "inj_on (of_nat :: nat \<Rightarrow> u64) {0..<unat (CC_ShardNums (PN_pbftChainConfig p))}"
  proof (rule inj_onI)
    fix i j assume "i \<in> {0..<unat (CC_ShardNums (PN_pbftChainConfig p))}"
      "j \<in> {0..<unat (CC_ShardNums (PN_pbftChainConfig p))}" and e: "(of_nat i :: u64) = of_nat j"
    moreover have "unat (CC_ShardNums (PN_pbftChainConfig p)) < 2 ^ 64"
      using unsigned_less [of "CC_ShardNums (PN_pbftChainConfig p)"] by simp
    ultimately have "i < 2 ^ 64" "j < 2 ^ 64" by auto
    with e show "i = j" using unat_of_nat_u64 by metis
  qed
  then show ?thesis by (simp add: shard_ids_def distinct_map)
qed

text \<open>The messages a leader sends, and the queue it keeps.\<close>

lemma sendAccounts_exact:
  assumes "sendAccounts_and_Txs E p = Inr (out, p')"
  obtains m as where "last_map p = Inr m" and "FetchAccounts E (leaving E p m) (PN_CurChain p) = Inr as"
    and "out = map (\<lambda>i. (ip_of (PN_ip_nodeTable p) i 0,
                         MAccountStateAndTx (parcel p m (zip (leaving E p m) as) (queue p) i))) (others p)"
    and "p' = put_queue (filter (\<lambda>tx. \<not> (active tx \<in> set (leaving E p m) \<and>
                                      shard_in m (active tx) \<in> set (others p))) (queue p)) p"
proof -
  from assms obtain m l as q where m: "last_map p = Inr m" and l: "rfold (fetch_key E p) m [] = Inr l"
    and as: "FetchAccounts E l (PN_CurChain p) = Inr as"
    and res: "fold (send_shard p m (zip l as)) (others p) ([], queue p) = (out, q)" "p' = put_queue q p"
    by (auto simp: sendAccounts_and_Txs_def others_def [symmetric] res_simps split_beta prod_eq_iff)
  have l': "l = leaving E p m" using fetch_keys [OF l] by simp
  have "fst ` set (zip l as) = set l"
    using FetchAccounts_length [OF as] by (metis list.set_map map_fst_zip)
  with res that [OF m] as distinct_shard_ids [of p] show thesis
    by (simp add: send_shards l' others_def)
qed

lemma parcels_mset:
  assumes "distinct is"
  shows "mset q = mset (filter (\<lambda>tx. \<not> (active tx \<in> fst ` set f \<and> shard_in m (active tx) \<in> set is)) q)
           + sum_list (map (\<lambda>i. mset (AST_Txs (parcel p m f q i))) is)"
  using assms
proof (induction "is")
  case Nil
  then show ?case by simp
next
  case (Cons i js)
  let ?P = "\<lambda>S tx. active tx \<in> fst ` set f \<and> shard_in m (active tx) \<in> S"
  have par: "mset (AST_Txs (parcel p m f q i)) = filter_mset (?P {i}) (mset q)"
  proof -
    have "AST_Txs (parcel p m f q i) = filter (\<lambda>tx. active tx \<in> set (AST_Addrs (parcel p m f q i))) q"
      by (simp add: parcel_def Let_def)
    then show ?thesis by (simp add: in_parcel conj_commute)
  qed
  have split: "filter_mset (\<lambda>tx. \<not> ?P (set js) tx) (mset q) =
      filter_mset (\<lambda>tx. \<not> ?P (set (i # js)) tx) (mset q) + filter_mset (?P {i}) (mset q)"
    using Cons.prems by (intro multiset_eqI) auto
  have "mset q = filter_mset (\<lambda>tx. \<not> ?P (set js) tx) (mset q)
      + sum_list (map (\<lambda>i. mset (AST_Txs (parcel p m f q i))) js)"
    using Cons by (simp only: mset_filter distinct.simps)
  then show ?case
    unfolding split list.map sum_list.Cons mset_filter par by (simp only: add.assoc)
qed

section \<open>What the receiver proposes\<close>

lemma fold_gput_fresh:
  "distinct (map fst (acc @ kvs)) \<Longrightarrow> fold (\<lambda>(a, x). gput a x) kvs acc = acc @ kvs"
proof (induction kvs arbitrary: acc)
  case Nil
  then show ?case by simp
next
  case (Cons kv kvs)
  obtain a x where kv: "kv = (a, x)" by fastforce
  have "gput a x acc = acc @ [(a, x)]" using Cons.prems kv by (induction acc) auto
  with Cons kv show ?case by simp
qed

abbreviation pairs :: "AccountStateAndTx \<Rightarrow> (string \<times> AccountState) list" where
  "pairs at \<equiv> zip (AST_Addrs at) (AST_AccountState at)"

lemma merge_states:
  assumes "k + length addrs \<le> length as"
  shows "rfold (\<lambda>(i, addr) m. rbind (index_at as i) (\<lambda>a. Inr (gput addr a m))) (enumerate k addrs) r
           = Inr (fold (\<lambda>(a, x). gput a x) (zip addrs (drop k as)) r)"
  using assms
proof (induction addrs arbitrary: k r)
  case Nil
  then show ?case by simp
next
  case (Cons a addrs)
  then have "drop k as = as ! k # drop (Suc k) as" by (simp add: Cons_nth_drop_Suc)
  with Cons show ?case by (simp add: index_at_def)
qed

lemma merge_received_ok:
  assumes "length (AST_AccountState at) = length (AST_Addrs at)"
  shows "merge_received (s, at) cd =
           Inr (cd\<lparr>CD_ReceivedNewAccountState := fold (\<lambda>(a, x). gput a x) (pairs at) (CD_ReceivedNewAccountState cd),
                   CD_ReceivedNewTx := CD_ReceivedNewTx cd @ AST_Txs at\<rparr>)"
  using merge_states [of 0 "AST_Addrs at" "AST_AccountState at"] assms
  by (simp add: merge_received_def Let_def)

lemma merge_all:
  assumes "\<forall>(s, at) \<in> set xs. length (AST_AccountState at) = length (AST_Addrs at)"
  shows "rfold merge_received xs cd =
           Inr (cd\<lparr>CD_ReceivedNewAccountState :=
                     fold (\<lambda>(a, x). gput a x) (concat (map (pairs \<circ> snd) xs)) (CD_ReceivedNewAccountState cd),
                   CD_ReceivedNewTx := CD_ReceivedNewTx cd @ concat (map (AST_Txs \<circ> snd) xs)\<rparr>)"
  using assms
proof (induction xs arbitrary: cd)
  case Nil
  then show ?case by simp
next
  case (Cons x xs)
  then show ?case by (cases x) (auto simp: merge_received_ok)
qed

text \<open>A round is \<open>honest\<close> for the receiver when every message it has came from the leader of the
  sending shard, was the one for the receiver's shard, and all leaders work with the same new
  partition \<open>m\<close> and the same old one.\<close>

definition honest_round ::
    "('t, 'd, 'b) env \<Rightarrow> (u64 \<Rightarrow> ('d, 'b) pnode) \<Rightarrow> (string, u64) gomap \<Rightarrow> ('d, 'b) pnode \<Rightarrow> bool" where
  "honest_round E lead m p \<longleftrightarrow>
     wf_map m \<and> wf_map (CD_AccountStateTx (PN_cdm p)) \<and> round_map (PN_cdm p) = Inr m \<and>
     CD_ReceivedNewAccountState (PN_cdm p) = [] \<and> CD_ReceivedNewTx (PN_cdm p) = [] \<and>
     (\<forall>(s, at) \<in> set (CD_AccountStateTx (PN_cdm p)).
        PN_ShardID (lead s) = s \<and> s \<noteq> PN_ShardID p \<and> last_map (lead s) = Inr m \<and>
        PartitionMap (PN_CurChain (lead s)) = PartitionMap (PN_CurChain p) \<and>
        (\<exists>out q' ip. sendAccounts_and_Txs E (lead s) = Inr (out, q') \<and>
           (PN_ShardID p, ip, MAccountStateAndTx at) \<in> set (zip (others (lead s)) out)))"

lemma Get_PartitionMap_cong:
  "PartitionMap bc = PartitionMap bc' \<Longrightarrow> Get_PartitionMap E bc a = Get_PartitionMap E bc' a"
  by (simp add: Get_PartitionMap_def)

lemma honest_parcel:
  assumes "honest_round E lead m p" and "(s, at) \<in> set (CD_AccountStateTx (PN_cdm p))"
  obtains as where "FetchAccounts E (leaving E (lead s) m) (PN_CurChain (lead s)) = Inr as"
    and "at = parcel (lead s) m (zip (leaving E (lead s) m) as) (queue (lead s)) (PN_ShardID p)"
proof -
  have lm: "last_map (lead s) = Inr m" using assms by (auto simp: honest_round_def)
  obtain out q' ip where send: "sendAccounts_and_Txs E (lead s) = Inr (out, q')"
    and at: "(PN_ShardID p, ip, MAccountStateAndTx at) \<in> set (zip (others (lead s)) out)"
    using assms unfolding honest_round_def by blast
  obtain m' as where m': "last_map (lead s) = Inr m'"
    and as: "FetchAccounts E (leaving E (lead s) m') (PN_CurChain (lead s)) = Inr as"
    and out: "out = map (\<lambda>i. (ip_of (PN_ip_nodeTable (lead s)) i 0,
        MAccountStateAndTx (parcel (lead s) m' (zip (leaving E (lead s) m') as) (queue (lead s)) i)))
        (others (lead s))"
    by (rule sendAccounts_exact [OF send]) (rule that)
  have mm: "m' = m" using lm m' by simp
  have "at = parcel (lead s) m (zip (leaving E (lead s) m) as) (queue (lead s)) (PN_ShardID p)"
    using at unfolding out mm by (auto simp: zip_map2 in_set_zip)
  with as mm that show thesis by simp
qed

lemma parcel_pairs: "pairs (parcel p m f q i) = filter (\<lambda>(a, _). shard_in m a = i) f"
  by (simp add: parcel_def Let_def zip_map_fst_snd)

lemma leaving_iff:
  assumes "wf_map m"
  shows "a \<in> set (leaving E p m) \<longleftrightarrow>
           (\<exists>v. gget m a = Some v \<and> v \<noteq> PN_ShardID p \<and> Get_PartitionMap E (PN_CurChain p) a = Inr (PN_ShardID p))"
  using gget_set [OF assms, of a] by (force simp: leaving_def)

lemma distinct_leaving: "wf_map m \<Longrightarrow> distinct (leaving E p m)"
  unfolding leaving_def wf_map_def by (rule distinct_map_filter)

lemma honest_message:
  assumes hr: "honest_round E lead m p" and at: "(s, at) \<in> set (CD_AccountStateTx (PN_cdm p))"
  shows "length (AST_AccountState at) = length (AST_Addrs at)"
    and "distinct (AST_Addrs at)"
    and "a \<in> set (AST_Addrs at) \<longleftrightarrow>
           gget m a = Some (PN_ShardID p) \<and> Get_PartitionMap E (PN_CurChain p) a = Inr s"
    and "(a, x) \<in> set (pairs at) \<Longrightarrow> FetchAccounts E [a] (PN_CurChain (lead s)) = Inr [x]"
    and "tx \<in> set (AST_Txs at) \<Longrightarrow> shard_in m (active tx) = PN_ShardID p"
proof -
  let ?L = "leaving E (lead s) m" and ?d = "PN_ShardID p"
  have wf: "wf_map m" and sh: "PN_ShardID (lead s) = s" "s \<noteq> ?d"
    and pm: "PartitionMap (PN_CurChain (lead s)) = PartitionMap (PN_CurChain p)"
    using hr at by (auto simp: honest_round_def)
  obtain as where as: "FetchAccounts E ?L (PN_CurChain (lead s)) = Inr as"
    and eq: "at = parcel (lead s) m (zip ?L as) (queue (lead s)) ?d"
    by (rule honest_parcel [OF hr at]) (rule that)
  have keys: "fst ` set (zip ?L as) = set ?L"
    using FetchAccounts_length [OF as] by (metis list.set_map map_fst_zip)
  show len: "length (AST_AccountState at) = length (AST_Addrs at)" by (simp add: eq parcel_def Let_def)
  have "distinct (map fst (zip ?L as))"
    using distinct_leaving [OF wf] FetchAccounts_length [OF as] by simp
  then have "distinct (map fst (pairs at))" unfolding eq parcel_pairs by (rule distinct_map_filter)
  then show "distinct (AST_Addrs at)" using len by simp
  show mem: "a \<in> set (AST_Addrs at) \<longleftrightarrow> gget m a = Some ?d \<and> Get_PartitionMap E (PN_CurChain p) a = Inr s" for a
    unfolding eq in_parcel keys leaving_iff [OF wf] Get_PartitionMap_cong [OF pm] sh(1)
    using sh(2) by (auto simp: shard_in_def)
  show "FetchAccounts E [a] (PN_CurChain (lead s)) = Inr [x]" if "(a, x) \<in> set (pairs at)"
    using that FetchAccounts_nth [OF as] unfolding eq parcel_pairs by auto
  show "shard_in m (active tx) = ?d" if "tx \<in> set (AST_Txs at)"
  proof -
    have "active tx \<in> set (AST_Addrs at)" using that by (auto simp: eq parcel_def Let_def)
    then show ?thesis unfolding eq in_parcel by simp
  qed
qed

lemma received_distinct:
  assumes hr: "honest_round E lead m p"
    and perm: "mset xs = mset (CD_AccountStateTx (PN_cdm p))"
  shows "distinct (map fst (concat (map (pairs \<circ> snd) xs)))"
proof -
  have sub: "set xs = set (CD_AccountStateTx (PN_cdm p))" using perm by (rule mset_eq_setD)
  have "mset (map fst xs) = mset (map fst (CD_AccountStateTx (PN_cdm p)))" using perm by simp
  moreover have "distinct (map fst (CD_AccountStateTx (PN_cdm p)))"
    using hr by (simp add: honest_round_def wf_map_def)
  ultimately have "distinct (map fst xs)" using mset_eq_imp_distinct_iff by blast
  then show ?thesis using sub [THEN equalityD1]
  proof (induction xs)
    case Nil
    then show ?case by simp
  next
    case (Cons y ys)
    obtain s at where y: "y = (s, at)" by fastforce
    with Cons.prems have at: "(s, at) \<in> set (CD_AccountStateTx (PN_cdm p))" by simp
    have one: "map fst (pairs at) = AST_Addrs at" using honest_message(1) [OF hr at] by simp
    have False if a: "a \<in> set (AST_Addrs at)" and b: "(s', at') \<in> set ys" "a \<in> set (map fst (pairs at'))"
      for a s' at'
    proof -
      have at': "(s', at') \<in> set (CD_AccountStateTx (PN_cdm p))" using b Cons.prems by auto
      have "a \<in> set (AST_Addrs at')" using b(2) honest_message(1) [OF hr at'] by simp
      then have "s = s'"
        using a honest_message(3) [OF hr at, of a] honest_message(3) [OF hr at', of a] by simp
      then show False using Cons.prems(1) y b(1) by force
    qed
    then have "set (AST_Addrs at) \<inter> set (map fst (concat (map (pairs \<circ> snd) ys))) = {}"
      by (auto simp: set_zip_leftD) force
    with Cons one honest_message(2) [OF hr at] y show ?case by simp
  qed
qed

lemma check_received_ok:
  assumes "round_map cd = Inr m" and "\<forall>tx \<in> set txs. shard_in m (active tx) = d"
  shows "rfold (check_received d cd) txs u = Inr ()"
  using assms(2) by (induction txs arbitrary: u) (simp_all add: check_received_def assms(1) active_def)

lemma round_map_cong [simp]:
  "round_map (cd\<lparr>CD_ReceivedNewAccountState := r, CD_ReceivedNewTx := t\<rparr>) = round_map cd"
  by (simp add: round_map_def)

lemma honest_propose:
  fixes p :: "('d, 'b) pnode"
  assumes hr: "honest_round E lead m p" and perm: "mset xs = mset (CD_AccountStateTx (PN_cdm p))"
    and xs: "xs = CO_AccountStateTx ord (CD_AccountStateTx (PN_cdm p))"
  defines "asl \<equiv> CO_AccountState ord (concat (map (pairs \<circ> snd) xs))"
  shows "\<exists>p1. proposePartition now clk ord p =
      Inr (\<lparr>R_RequestType = PartitionReq,
            R_Content = GobATM \<lparr>ATM_ModifiedMap = m, ATM_Addrs = map fst asl, ATM_AccountState = map snd asl,
                                ATM_ATid = of_nat (length (CD_ModifiedMap (PN_cdm p)))\<rparr>,
            R_ReqTime = now 0\<rparr>, p1) \<and>
      Txpool (PN_CurChain p1) = AddTxs2Pool clk (concat (map (AST_Txs \<circ> snd) xs)) (Txpool (PN_CurChain p))"
proof -
  have mem: "at \<in> set (CD_AccountStateTx (PN_cdm p))" if "at \<in> set xs" for at
    using that mset_eq_setD [OF perm] by simp
  have len: "\<forall>(s, at) \<in> set xs. length (AST_AccountState at) = length (AST_Addrs at)"
    using honest_message(1) [OF hr] mem by blast
  have rm: "round_map (PN_cdm p) = Inr m" "CD_ReceivedNewAccountState (PN_cdm p) = []"
    "CD_ReceivedNewTx (PN_cdm p) = []"
    using hr by (auto simp: honest_round_def)
  have chk: "\<forall>tx \<in> set (concat (map (AST_Txs \<circ> snd) xs)). shard_in m (active tx) = PN_ShardID p"
    using honest_message(5) [OF hr] mem by force
  have kvs: "fold (\<lambda>(a, x). gput a x) (concat (map (pairs \<circ> snd) xs)) [] = concat (map (pairs \<circ> snd) xs)"
    using fold_gput_fresh [of "[]"] received_distinct [OF hr perm] by simp
  show ?thesis
    using rm check_received_ok [OF _ chk]
    by (simp add: proposePartition_def xs [symmetric] merge_all [OF len] kvs partition_request_def asl_def
        add_to_pool_def put_chain_def SendTx2Pool_def Let_def)
qed

section \<open>What the shard holds afterwards\<close>

lemma update_all:
  "wf_map m \<Longrightarrow> fold (\<lambda>(key, val). Update_PartitionMap key val) m bc =
     bc\<lparr>PartitionMap := PartitionMap bc ++ map_of m\<rparr>"
proof (induction m arbitrary: bc)
  case Nil
  then show ?case by simp
next
  case (Cons kv m)
  obtain k v where kv: "kv = (k, v)" by fastforce
  with Cons.prems have "k \<notin> dom (map_of m)" by (simp add: dom_map_of_conv_image_fst)
  then have e: "(PartitionMap bc)(k \<mapsto> v) ++ map_of m = PartitionMap bc ++ map_of (kv # m)"
    unfolding kv by (auto simp: map_add_def fun_eq_iff split: option.splits)
  have "fold (\<lambda>(key, val). Update_PartitionMap key val) (kv # m) bc =
      (Update_PartitionMap k v bc)\<lparr>PartitionMap := PartitionMap (Update_PartitionMap k v bc) ++ map_of m\<rparr>"
    using Cons kv by simp
  also have "\<dots> = bc\<lparr>PartitionMap := (PartitionMap bc)(k \<mapsto> v) ++ map_of m\<rparr>"
    unfolding Update_PartitionMap_def by (cases bc) (simp only: BlockChain.simps)
  finally show ?case unfolding e .
qed

lemma accountTransfer_installs:
  assumes laws: "trie_laws E" "bolt_laws E" and hash: "\<And>h. sha_bh E h \<noteq> []" and wf: "wf_map m"
    and dist: "distinct (map fst asl)"
    and homes: "\<forall>a \<in> fst ` set asl. gget m a = Some (bc_ShardID (PN_CurChain n))"
    and opn: "opens E (PN_CurChain n) (B_StateRoot (CurrentBlock (PN_CurChain n))) st"
  shows "\<exists>n' st'. accountTransfer_do E \<lparr>ATM_ModifiedMap = m, ATM_Addrs = map fst asl,
             ATM_AccountState = map snd asl, ATM_ATid = i\<rparr> n = Inr n' \<and>
           opens E (PN_CurChain n') (B_StateRoot (CurrentBlock (PN_CurChain n'))) st' \<and>
           (\<forall>(a, x) \<in> set asl. T_get E st' a = Some (GobAS (carried x))) \<and>
           (\<forall>a. a \<notin> fst ` set asl \<longrightarrow> T_get E st' a = T_get E st a) \<and>
           PartitionMap (PN_CurChain n') = PartitionMap (PN_CurChain n) ++ map_of m"
proof -
  let ?bc = "(PN_CurChain n)\<lparr>PartitionMap := PartitionMap (PN_CurChain n) ++ map_of m\<rparr>"
  have opn': "opens E ?bc (B_StateRoot (CurrentBlock ?bc)) st" using opn by (simp add: opens_def)
  have homes': "\<forall>a\<in>set (map fst asl). home E ?bc a"
  proof
    fix a assume "a \<in> set (map fst asl)"
    then have "(PartitionMap (PN_CurChain n) ++ map_of m) a = Some (bc_ShardID (PN_CurChain n))"
      using homes by (metis list.set_map map_add_find_right)
    then show "home E ?bc a" unfolding home_def Get_PartitionMap_def by simp
  qed
  obtain bc' st' where add: "AddAccounts E (map fst asl) (map snd asl) ?bc = Inr bc'"
    and st': "opens E bc' (B_StateRoot (CurrentBlock bc')) st'"
      "\<forall>i<length (map fst asl). T_get E st' (map fst asl ! i) = Some (GobAS (carried (map snd asl ! i)))"
      "\<forall>a. a \<notin> set (map fst asl) \<longrightarrow> T_get E st' a = T_get E st a"
    using AddAccounts_installs [OF laws hash _ dist opn' homes', of "map snd asl"] by auto
  have "PartitionMap bc' = PartitionMap ?bc" using AddAccounts_frame [OF add] by blast
  moreover have "T_get E st' a = Some (GobAS (carried x))" if "(a, x) \<in> set asl" for a x
    using that st'(2) by (force simp: in_set_conv_nth)
  ultimately show ?thesis
    using add st'(1,3) by (auto simp: accountTransfer_do_def update_all [OF wf] put_chain_def)
qed

lemma received_txs:
  fixes xs ys :: "('a \<times> AccountStateAndTx) list"
  assumes "mset xs = mset ys"
  shows "mset (concat (map (AST_Txs \<circ> snd) xs)) = sum_list (map (\<lambda>(s, at). mset (AST_Txs at)) ys)"
proof -
  have l: "mset (concat (map (AST_Txs \<circ> snd) zs)) = sum_mset (image_mset (\<lambda>(s, at). mset (AST_Txs at)) (mset zs))"
    for zs :: "('a \<times> AccountStateAndTx) list"
    by (induction zs) (simp_all add: split_beta)
  have "sum_list (map (\<lambda>(s, at). mset (AST_Txs at)) ys) = sum_mset (image_mset (\<lambda>(s, at). mset (AST_Txs at)) (mset ys))"
    by (induction ys) (simp_all add: split_beta)
  then show ?thesis using l [of xs] assms by simp
qed

text \<open>C14: re-sharding sends each account and each queued transaction to the shard it now belongs to.
  The messages of a leader go to the other shards in order; the one for shard \<open>i\<close> carries the state of
  exactly the accounts that leave for \<open>i\<close> and the queued transactions that wait for one of them; the
  transactions kept and sent together are the queue as a multiset, and none of the kept ones waits
  for an account that was sent.\<close>

theorem resharding_sends_exactly:
  assumes "sendAccounts_and_Txs E p = Inr (out, p')"
  shows "\<exists>m as. last_map p = Inr m \<and> FetchAccounts E (leaving E p m) (PN_CurChain p) = Inr as \<and>
           out = map (\<lambda>i. (ip_of (PN_ip_nodeTable p) i 0,
                           MAccountStateAndTx (parcel p m (zip (leaving E p m) as) (queue p) i))) (others p) \<and>
           mset (queue p) = mset (queue p') +
             sum_list (map (\<lambda>i. mset (AST_Txs (parcel p m (zip (leaving E p m) as) (queue p) i))) (others p)) \<and>
           (\<forall>tx \<in> set (queue p'). active tx \<in> set (leaving E p m) \<longrightarrow> shard_in m (active tx) \<notin> set (others p))"
proof -
  obtain m as where m: "last_map p = Inr m"
    and as: "FetchAccounts E (leaving E p m) (PN_CurChain p) = Inr as"
    and out: "out = map (\<lambda>i. (ip_of (PN_ip_nodeTable p) i 0,
        MAccountStateAndTx (parcel p m (zip (leaving E p m) as) (queue p) i))) (others p)"
    and p': "p' = put_queue (filter (\<lambda>tx. \<not> (active tx \<in> set (leaving E p m) \<and>
        shard_in m (active tx) \<in> set (others p))) (queue p)) p"
    by (rule sendAccounts_exact [OF assms]) (rule that)
  have q: "queue p' = filter (\<lambda>tx. \<not> (active tx \<in> set (leaving E p m) \<and>
      shard_in m (active tx) \<in> set (others p))) (queue p)"
    by (simp add: p' put_queue_def put_chain_def)
  have keys: "fst ` set (zip (leaving E p m) as) = set (leaving E p m)"
    using FetchAccounts_length [OF as] by (metis list.set_map map_fst_zip)
  have "distinct (others p)" using distinct_shard_ids [of p] by (simp add: others_def)
  from parcels_mset [OF this, of "queue p" "zip (leaving E p m) as" m p] m as out q keys
  show ?thesis by (intro exI [of _ m] exI [of _ as]) auto
qed

text \<open>What a leader has received in an honest round, in any order: every account once, each for this
  shard, with the state its old leader has for it.\<close>

lemma received_accounts:
  assumes hr: "honest_round E lead m p" and perm: "mset xs = mset (CD_AccountStateTx (PN_cdm p))"
    and asl: "mset asl = mset (concat (map (pairs \<circ> snd) xs))"
  shows "distinct (map fst asl)"
    and "a \<in> fst ` set asl \<longleftrightarrow> (\<exists>(s, at) \<in> set (CD_AccountStateTx (PN_cdm p)). a \<in> set (AST_Addrs at))"
    and "\<forall>a \<in> fst ` set asl. gget m a = Some (PN_ShardID p)"
proof -
  let ?ats = "CD_AccountStateTx (PN_cdm p)"
  have sxs: "set xs = set ?ats" using perm by (rule mset_eq_setD)
  have sasl: "set asl = set (concat (map (pairs \<circ> snd) xs))" using asl by (rule mset_eq_setD)
  have "mset (map fst asl) = mset (map fst (concat (map (pairs \<circ> snd) xs)))" using asl by simp
  then show "distinct (map fst asl)" using received_distinct [OF hr perm] mset_eq_imp_distinct_iff by blast
  show mem: "a \<in> fst ` set asl \<longleftrightarrow> (\<exists>(s, at) \<in> set ?ats. a \<in> set (AST_Addrs at))" for a
  proof -
    have "fst ` set asl = (\<Union>x \<in> set ?ats. fst ` set (pairs (snd x)))"
      unfolding sasl by (simp add: image_UN sxs)
    also have "\<dots> = (\<Union>x \<in> set ?ats. set (AST_Addrs (snd x)))"
    proof (rule SUP_cong [OF refl])
      fix x assume "x \<in> set ?ats"
      then have "length (AST_AccountState (snd x)) = length (AST_Addrs (snd x))"
        using honest_message(1) [OF hr, of "fst x" "snd x"] by simp
      then show "fst ` set (pairs (snd x)) = set (AST_Addrs (snd x))" by (metis list.set_map map_fst_zip)
    qed
    finally show ?thesis by (simp add: split_beta)
  qed
  show "\<forall>a \<in> fst ` set asl. gget m a = Some (PN_ShardID p)"
  proof
    fix a assume "a \<in> fst ` set asl"
    then obtain s at where "(s, at) \<in> set ?ats" and "a \<in> set (AST_Addrs at)" using mem by blast
    then show "gget m a = Some (PN_ShardID p)" using honest_message(3) [OF hr] by simp
  qed
qed

lemma received_state:
  assumes hr: "honest_round E lead m p" and perm: "mset xs = mset (CD_AccountStateTx (PN_cdm p))"
    and asl: "mset asl = mset (concat (map (pairs \<circ> snd) xs))"
    and at: "(s, at) \<in> set (CD_AccountStateTx (PN_cdm p))" and a: "gget m a = Some (PN_ShardID p)"
      "Get_PartitionMap E (PN_CurChain p) a = Inr s"
  shows "\<exists>x. (a, x) \<in> set asl \<and> FetchAccounts E [a] (PN_CurChain (lead s)) = Inr [x]"
proof -
  have "a \<in> set (AST_Addrs at)" using a honest_message(3) [OF hr at] by simp
  then obtain x where x: "(a, x) \<in> set (pairs at)"
    using in_set_impl_in_set_zip1 [OF honest_message(1) [OF hr at, symmetric]] by blast
  have "(a, x) \<in> set asl"
    using x at mset_eq_setD [OF perm] unfolding mset_eq_setD [OF asl] by force
  then show ?thesis using honest_message(4) [OF hr at x] by blast
qed

text \<open>C13: an account arrives in its new shard with the nonce and balance it left with. In an honest
  round the receiving leader's \<^verbatim>\<open>proposePartition\<close> does not panic, and when a node of the shard commits the
  request it proposed, the node holds every account that the new partition moves to the shard with
  the state its old leader sent, every other account unchanged, and the new partition; the leader
  has queued the transactions that came with the accounts.\<close>

theorem resharding_delivers_accounts:
  assumes "trie_laws E" "bolt_laws E" "\<And>h. sha_bh E h \<noteq> []" and hr: "honest_round E lead m p"
    and ord: "\<And>l. mset (CO_AccountStateTx ord l) = mset l" "\<And>l. mset (CO_AccountState ord l) = mset l"
    and n: "bc_ShardID (PN_CurChain n) = PN_ShardID p"
    and opn: "opens E (PN_CurChain n) (B_StateRoot (CurrentBlock (PN_CurChain n))) st"
  shows "\<exists>r p1 n' txs. proposePartition now clk ord p = Inr (r, p1) \<and>
           mset txs = sum_list (map (\<lambda>(s, at). mset (AST_Txs at)) (CD_AccountStateTx (PN_cdm p))) \<and>
           Txpool (PN_CurChain p1) = AddTxs2Pool clk txs (Txpool (PN_CurChain p)) \<and>
           (\<forall>c. PN_requestPool n (C_Digest c) = Some r \<longrightarrow> CLPA_HandleinCommit E now c n = Inr ([], n')) \<and>
           (\<forall>s at a. (s, at) \<in> set (CD_AccountStateTx (PN_cdm p)) \<longrightarrow> gget m a = Some (PN_ShardID p) \<longrightarrow>
              Get_PartitionMap E (PN_CurChain p) a = Inr s \<longrightarrow>
              (\<exists>x. FetchAccounts E [a] (PN_CurChain (lead s)) = Inr [x] \<and>
                   FetchAccounts E [a] (PN_CurChain n') = Inr [carried x])) \<and>
           (\<forall>a. (\<forall>(s, at) \<in> set (CD_AccountStateTx (PN_cdm p)). a \<notin> set (AST_Addrs at)) \<longrightarrow>
              FetchAccounts E [a] (PN_CurChain n') = FetchAccounts E [a] (PN_CurChain n)) \<and>
           PartitionMap (PN_CurChain n') = PartitionMap (PN_CurChain n) ++ map_of m"
proof -
  let ?ats = "CD_AccountStateTx (PN_cdm p)"
  define xs where "xs = CO_AccountStateTx ord ?ats"
  define kvs where "kvs = concat (map (pairs \<circ> snd) xs)"
  define asl where "asl = CO_AccountState ord kvs"
  have perm: "mset xs = mset ?ats" using ord(1) by (simp add: xs_def)
  define r where "r = \<lparr>R_RequestType = PartitionReq,
      R_Content = GobATM \<lparr>ATM_ModifiedMap = m, ATM_Addrs = map fst asl, ATM_AccountState = map snd asl,
                          ATM_ATid = of_nat (length (CD_ModifiedMap (PN_cdm p)))\<rparr>, R_ReqTime = now 0\<rparr>"
  obtain p1 where pp: "proposePartition now clk ord p = Inr (r, p1)"
    and pool: "Txpool (PN_CurChain p1) = AddTxs2Pool clk (concat (map (AST_Txs \<circ> snd) xs)) (Txpool (PN_CurChain p))"
    using honest_propose [OF hr perm xs_def, of now clk, folded kvs_def, folded asl_def, folded r_def]
    by (elim exE conjE) (rule that)
  have asl: "mset asl = mset (concat (map (pairs \<circ> snd) xs))" using ord(2) by (simp add: asl_def kvs_def)
  note acc = received_accounts [OF hr perm asl]
  have homes: "\<forall>a \<in> fst ` set asl. gget m a = Some (bc_ShardID (PN_CurChain n))" using acc(3) n by simp
  have wf: "wf_map m" using hr by (simp add: honest_round_def)
  obtain n' st' where tr: "accountTransfer_do E \<lparr>ATM_ModifiedMap = m, ATM_Addrs = map fst asl,
        ATM_AccountState = map snd asl, ATM_ATid = of_nat (length (CD_ModifiedMap (PN_cdm p)))\<rparr> n = Inr n'"
    and st': "opens E (PN_CurChain n') (B_StateRoot (CurrentBlock (PN_CurChain n'))) st'"
      "\<forall>(a, x) \<in> set asl. T_get E st' a = Some (GobAS (carried x))"
      "\<forall>a. a \<notin> fst ` set asl \<longrightarrow> T_get E st' a = T_get E st a"
    and pm: "PartitionMap (PN_CurChain n') = PartitionMap (PN_CurChain n) ++ map_of m"
    using accountTransfer_installs [OF assms(1-3) wf acc(1) homes opn] by blast
  have com: "\<forall>c. PN_requestPool n (C_Digest c) = Some r \<longrightarrow> CLPA_HandleinCommit E now c n = Inr ([], n')"
    using tr by (simp add: CLPA_HandleinCommit_def r_def)
  have moved: "\<exists>x. FetchAccounts E [a] (PN_CurChain (lead s)) = Inr [x] \<and>
        FetchAccounts E [a] (PN_CurChain n') = Inr [carried x]"
    if "(s, at) \<in> set ?ats" "gget m a = Some (PN_ShardID p)" "Get_PartitionMap E (PN_CurChain p) a = Inr s" for s at a
    using received_state [OF hr perm asl that] st'(2) FetchAccounts_one [OF st'(1), of a]
    by (force simp: load_account_def)
  have other: "FetchAccounts E [a] (PN_CurChain n') = FetchAccounts E [a] (PN_CurChain n)"
    if "\<forall>(s, at) \<in> set ?ats. a \<notin> set (AST_Addrs at)" for a
  proof -
    have "T_get E st' a = T_get E st a" using that st'(3) acc(2) by blast
    then show ?thesis using FetchAccounts_one [OF st'(1)] FetchAccounts_one [OF opn] by (simp add: load_account_def)
  qed
  note txs = received_txs [OF perm]
  show ?thesis
    by (intro exI [of _ r] exI [of _ p1] exI [of _ n'] exI [of _ "concat (map (AST_Txs \<circ> snd) xs)"] conjI
        pp txs pool com pm allI impI moved other)
qed

text \<open>A round of two shards in which one account, with a queued transaction, moves from shard 1 to
  shard 0.\<close>

definition demo_shard :: "u64 \<Rightarrow> Transaction list \<Rightarrow> (bytes \<rightharpoonup> demo_trie, demo_trie) pnode" where
  "demo_shard s txs =
     boot_node\<lparr>PN_ShardID := s, PN_NodeID := 0, PN_pbftChainConfig := ChainConfig (demo_chain 0 []),
       PN_ip_nodeTable := demo_ips,
       PN_CurChain := (demo_chain 0 txs)\<lparr>ChainConfig := (ChainConfig (demo_chain 0 txs))\<lparr>CC_ShardID := s\<rparr>\<rparr>,
       PN_cdm := NewCLPADataSupport\<lparr>CD_ModifiedMap := [[(''00000001'', 0)]], CD_PartitionOn := True\<rparr>\<rparr>"

definition demo_parcel :: AccountStateAndTx where
  "demo_parcel = \<lparr>AST_Addrs = [''00000001''], AST_AccountState = [new_AccountState 0 Init_Balance],
     AST_Txs = [demo_pay ''00000001'' ''00000000'' 5], AST_FromShard = 1\<rparr>"

lemma demo_shard_simps:
  "PN_ShardID (demo_shard s txs) = s" "shard_ids (demo_shard s txs) = [0, 1]"
  "last_map (demo_shard s txs) = Inr [(''00000001'', 0)]" "queue (demo_shard s txs) = txs"
  "PartitionMap (PN_CurChain (demo_shard s txs)) = Map.empty"
  "bc_ShardID (PN_CurChain (demo_shard s txs)) = s" "PN_ip_nodeTable (demo_shard s txs) = demo_ips"
  by (simp_all add: demo_shard_def demo_chain_def last_map_def NewCLPADataSupport_def shard_ids_def upt_rec)

lemma demo_shard_opens:
  "opens (demo_env False 2) (PN_CurChain (demo_shard s txs))
     (B_StateRoot (CurrentBlock (PN_CurChain (demo_shard s txs)))) []"
  by (simp add: opens_def demo_shard_def demo_chain_def demo_env_def demo_genesis_def)

lemma demo_shard_home:
  "Get_PartitionMap (demo_env False 2) (PN_CurChain (demo_shard s txs)) ''00000001'' = Inr 1"
  by (simp add: Get_PartitionMap_def demo_shard_simps Addr2Shard_eq valid_addr_def addr_num_def hexval_def
      demo_env_def)

lemma demo_pay_fields [simp]:
  "Tx_Sender (demo_pay s r v) = s" "Tx_Recipient (demo_pay s r v) = r" "\<not> Tx_Relayed (demo_pay s r v)"
  by (simp_all add: demo_pay_def NewTransaction_def)

lemma demo_send:
  "sendAccounts_and_Txs (demo_env False 2) (demo_shard 1 [demo_pay ''00000001'' ''00000000'' 5]) =
     Inr ([(''a0'', MAccountStateAndTx demo_parcel)], demo_shard 1 [])"
proof -
  let ?E = "demo_env False 2" and ?p = "demo_shard 1 [demo_pay ''00000001'' ''00000000'' 5]"
  have keys: "rfold (fetch_key ?E ?p) [(''00000001'', 0)] [] = Inr [''00000001'']"
    by (simp add: fetch_key_def demo_shard_simps demo_shard_home)
  have get: "FetchAccounts ?E [''00000001''] (PN_CurChain ?p) = Inr [new_AccountState 0 Init_Balance]"
    using FetchAccounts_one [OF demo_shard_opens] by (simp add: load_account_def demo_env_def)
  have q: "put_queue [] ?p = demo_shard 1 []"
    by (simp add: put_queue_def put_chain_def demo_shard_def demo_chain_def)
  have ip: "ip_of demo_ips 0 0 = ''a0''" by (simp add: ip_of_def demo_ips_def)
  show ?thesis
    unfolding sendAccounts_and_Txs_def demo_shard_simps rbind.simps keys get Let_def
    by (simp add: send_shard_def shard_in_def demo_parcel_def demo_shard_simps tx_moves_def q ip)
qed

theorem resharding_sends_exactly_witness:
  "\<exists>m as. sendAccounts_and_Txs (demo_env False 2) (demo_shard 1 [demo_pay ''00000001'' ''00000000'' 5]) =
       Inr ([(''a0'', MAccountStateAndTx demo_parcel)], demo_shard 1 []) \<and>
     last_map (demo_shard 1 [demo_pay ''00000001'' ''00000000'' 5]) = Inr m \<and>
     [(''a0'', MAccountStateAndTx demo_parcel)] =
       map (\<lambda>i. (ip_of (PN_ip_nodeTable (demo_shard 1 [demo_pay ''00000001'' ''00000000'' 5])) i 0,
         MAccountStateAndTx (parcel (demo_shard 1 [demo_pay ''00000001'' ''00000000'' 5]) m
           (zip (leaving (demo_env False 2) (demo_shard 1 [demo_pay ''00000001'' ''00000000'' 5]) m) as)
           (queue (demo_shard 1 [demo_pay ''00000001'' ''00000000'' 5])) i)))
         (others (demo_shard 1 [demo_pay ''00000001'' ''00000000'' 5]))"
  using demo_send resharding_sends_exactly [OF demo_send] by (elim exE conjE) (intro exI conjI)

definition demo_receiver :: "(bytes \<rightharpoonup> demo_trie, demo_trie) pnode" where
  "demo_receiver = (demo_shard 0 [])\<lparr>PN_cdm := (PN_cdm (demo_shard 0 []))\<lparr>CD_AccountStateTx := [(1, demo_parcel)],
     CD_CollectOver := True\<rparr>\<rparr>"

lemma demo_round:
  "honest_round (demo_env False 2) (\<lambda>_. demo_shard 1 [demo_pay ''00000001'' ''00000000'' 5])
     [(''00000001'', 0)] demo_receiver"
proof -
  have "(0, ''a0'', MAccountStateAndTx demo_parcel)
      \<in> set (zip (others (demo_shard 1 [demo_pay ''00000001'' ''00000000'' 5]))
                 [(''a0'', MAccountStateAndTx demo_parcel)])"
    by (simp add: others_def demo_shard_simps)
  then have "\<exists>out q' ip. sendAccounts_and_Txs (demo_env False 2)
        (demo_shard 1 [demo_pay ''00000001'' ''00000000'' 5]) = Inr (out, q') \<and>
      (0, ip, MAccountStateAndTx demo_parcel)
        \<in> set (zip (others (demo_shard 1 [demo_pay ''00000001'' ''00000000'' 5])) out)"
    using demo_send by blast
  then show ?thesis
    by (simp add: honest_round_def demo_receiver_def demo_shard_simps)
       (simp add: demo_shard_def NewCLPADataSupport_def round_map_def index_at_def demo_chain_def)
qed

theorem resharding_delivers_accounts_witness:
  "\<exists>r p1 (n' :: (bytes \<rightharpoonup> demo_trie, demo_trie) pnode).
     proposePartition (\<lambda>_. 1) (\<lambda>_. 1) \<lparr>CO_AccountStateTx = id, CO_AccountState = id\<rparr> demo_receiver
       = Inr (r, p1) \<and>
     FetchAccounts (demo_env False 2) [''00000001''] (PN_CurChain n') =
       Inr [carried (new_AccountState 0 Init_Balance)] \<and>
     PartitionMap (PN_CurChain n') = Map.empty ++ map_of [(''00000001'', 0)]"
proof -
  let ?E = "demo_env False 2" and ?o = "\<lparr>CO_AccountStateTx = id, CO_AccountState = id\<rparr>"
    and ?L = "demo_shard 1 [demo_pay ''00000001'' ''00000000'' 5]"
  have hash: "sha_bh ?E h \<noteq> []" for h by (simp add: demo_env_def)
  have rec: "PN_ShardID demo_receiver = 0" "CD_AccountStateTx (PN_cdm demo_receiver) = [(1, demo_parcel)]"
    "PN_CurChain demo_receiver = PN_CurChain (demo_shard 0 [])"
    by (simp_all add: demo_receiver_def demo_shard_simps)
  have src: "FetchAccounts ?E [''00000001''] (PN_CurChain ?L) = Inr [new_AccountState 0 Init_Balance]"
    using FetchAccounts_one [OF demo_shard_opens] by (simp add: load_account_def demo_env_def)
  have o1: "mset (CO_AccountStateTx ?o l) = mset l" and o2: "mset (CO_AccountState ?o k) = mset k" for l k
    by simp_all
  have sh: "bc_ShardID (PN_CurChain (demo_shard 0 [])) = PN_ShardID demo_receiver"
    by (simp add: rec demo_shard_simps)
  obtain r p1 and n' :: "(bytes \<rightharpoonup> demo_trie, demo_trie) pnode"
    where pp: "proposePartition (\<lambda>_. 1) (\<lambda>_. 1) ?o demo_receiver = Inr (r, p1)"
    and mv: "\<forall>s at a. (s, at) \<in> set [(1, demo_parcel)] \<longrightarrow> gget [(''00000001'', 0 :: u64)] a = Some 0 \<longrightarrow>
      Get_PartitionMap ?E (PN_CurChain (demo_shard 0 [])) a = Inr s \<longrightarrow>
      (\<exists>x. FetchAccounts ?E [a] (PN_CurChain ?L) = Inr [x] \<and> FetchAccounts ?E [a] (PN_CurChain n') = Inr [carried x])"
    and pm: "PartitionMap (PN_CurChain n') = PartitionMap (PN_CurChain (demo_shard 0 [])) ++ map_of [(''00000001'', 0)]"
    using resharding_delivers_accounts [OF demo_trie_laws demo_bolt_laws hash demo_round o1 o2
        sh demo_shard_opens, of "\<lambda>_. 1" "\<lambda>_. 1"]
    unfolding rec by (elim exE conjE) (rule that; assumption)
  have "FetchAccounts ?E [''00000001''] (PN_CurChain n') = Inr [carried (new_AccountState 0 Init_Balance)]"
    using mv [THEN spec, THEN spec, THEN spec, of 1 demo_parcel "''00000001''"] src demo_shard_home [of 0 "[]"]
    by simp
  with pp pm show ?thesis unfolding demo_shard_simps by blast
qed

end
