(* ===== verification/ClpaBroker.thy ===== *)
theory ClpaBroker
  imports ClpaProps
begin

text \<open>
  Re-sharding with brokers: how the queue of a leader is divided.
\<close>

definition addrs_to :: "(string, u64) gomap \<Rightarrow> (string \<times> AccountState) list \<Rightarrow> u64 \<Rightarrow> string list" where
  "addrs_to m fetched i = map fst (filter (\<lambda>(a, _). shard_in m a = i) fetched)"

lemma B_split_queue_eq:
  "B_split_queue A txs (c, s, k) =
     (c @ filter (\<lambda>tx. broker_fate A tx = BeCross) txs, s @ filter (\<lambda>tx. broker_fate A tx = SendAlong) txs,
      k @ filter (\<lambda>tx. broker_fate A tx = Stay) txs)"
  by (induction txs arbitrary: c s k) (auto split: tx_fate.split)

lemma fate_mset:
  "mset txs = mset (filter (\<lambda>tx. broker_fate A tx = Stay) txs) + mset (filter (\<lambda>tx. broker_fate A tx = BeCross) txs)
     + mset (filter (\<lambda>tx. broker_fate A tx = SendAlong) txs)"
proof (induction txs)
  case Nil
  then show ?case by simp
next
  case (Cons tx txs)
  then show ?case by (cases "broker_fate A tx") simp_all
qed

text \<open>The message for shard \<open>i\<close>, as far as the queue does not matter.\<close>

definition broker_parcel ::
    "(string, u64) gomap \<Rightarrow> (string \<times> AccountState) list \<Rightarrow> u64 \<Rightarrow> AccountStateAndTx \<Rightarrow> bool" where
  "broker_parcel m fetched i at \<longleftrightarrow>
     AST_Addrs at = addrs_to m fetched i \<and>
     AST_AccountState at = map snd (filter (\<lambda>(a, _). shard_in m a = i) fetched) \<and>
     (\<forall>tx \<in> set (AST_Txs at). broker_fate (addrs_to m fetched i) tx = SendAlong)"

lemma B_send_shard_eq:
  "B_send_shard p m f i (out, c, q) =
     (out @ [(ip_of (PN_ip_nodeTable p) i 0,
              MAccountTransferBroker
                \<lparr>AST_Addrs = addrs_to m f i, AST_AccountState = map snd (filter (\<lambda>(a, _). shard_in m a = i) f),
                 AST_Txs = filter (\<lambda>tx. broker_fate (addrs_to m f i) tx = SendAlong) q,
                 AST_FromShard = PN_ShardID p\<rparr>)],
      c @ filter (\<lambda>tx. broker_fate (addrs_to m f i) tx = BeCross) q,
      filter (\<lambda>tx. broker_fate (addrs_to m f i) tx = Stay) q)"
  by (simp add: B_send_shard_def B_split_queue_eq addrs_to_def Let_def)

lemma B_send_shards:
  assumes "fold (B_send_shard p m f) is (out, c, q) = (out', c', q')"
  shows "\<exists>asts. list_all2 (broker_parcel m f) is asts \<and>
           out' = out @ map2 (\<lambda>i at. (ip_of (PN_ip_nodeTable p) i 0, MAccountTransferBroker at)) is asts \<and>
           mset q + mset c = mset q' + mset c' + sum_list (map (\<lambda>at. mset (AST_Txs at)) asts) \<and>
           (\<forall>tx \<in> set q'. tx \<in> set q \<and> (\<forall>i \<in> set is. broker_fate (addrs_to m f i) tx = Stay)) \<and>
           (\<forall>tx \<in> set c'. tx \<in> set c \<or> (\<exists>i \<in> set is. broker_fate (addrs_to m f i) tx = BeCross))"
  using assms
proof (induction "is" arbitrary: out c q)
  case Nil
  then show ?case by auto
next
  case (Cons i js)
  let ?A = "addrs_to m f i"
  let ?at = "\<lparr>AST_Addrs = ?A, AST_AccountState = map snd (filter (\<lambda>(a, _). shard_in m a = i) f),
              AST_Txs = filter (\<lambda>tx. broker_fate ?A tx = SendAlong) q, AST_FromShard = PN_ShardID p\<rparr>"
  let ?c = "filter (\<lambda>tx. broker_fate ?A tx = BeCross) q" and ?q = "filter (\<lambda>tx. broker_fate ?A tx = Stay) q"
  from Cons.prems have "fold (B_send_shard p m f) js
      (out @ [(ip_of (PN_ip_nodeTable p) i 0, MAccountTransferBroker ?at)], c @ ?c, ?q) = (out', c', q')"
    by (simp add: B_send_shard_eq)
  from Cons.IH [OF this] obtain asts where
    ih: "list_all2 (broker_parcel m f) js asts"
      "out' = (out @ [(ip_of (PN_ip_nodeTable p) i 0, MAccountTransferBroker ?at)])
                @ map2 (\<lambda>i at. (ip_of (PN_ip_nodeTable p) i 0, MAccountTransferBroker at)) js asts"
      "mset ?q + mset (c @ ?c) = mset q' + mset c' + sum_list (map (\<lambda>at. mset (AST_Txs at)) asts)"
      "\<forall>tx \<in> set q'. tx \<in> set ?q \<and> (\<forall>i \<in> set js. broker_fate (addrs_to m f i) tx = Stay)"
      "\<forall>tx \<in> set c'. tx \<in> set (c @ ?c) \<or> (\<exists>i \<in> set js. broker_fate (addrs_to m f i) tx = BeCross)"
    by blast
  have par: "broker_parcel m f i ?at" by (simp add: broker_parcel_def)
  have "mset q + mset c = mset ?q + mset (c @ ?c) + mset (AST_Txs ?at)"
    using fate_mset [of q ?A] by (simp add: ac_simps)
  also have "\<dots> = mset q' + mset c' + sum_list (map (\<lambda>at. mset (AST_Txs at)) (?at # asts))"
    unfolding ih(3) by (simp add: ac_simps)
  finally have cons: "mset q + mset c = \<dots>" .
  show ?case
  proof (intro exI [of _ "?at # asts"] conjI)
    show "list_all2 (broker_parcel m f) (i # js) (?at # asts)" using ih(1) par by simp
    show "out' = out @ map2 (\<lambda>i at. (ip_of (PN_ip_nodeTable p) i 0, MAccountTransferBroker at)) (i # js) (?at # asts)"
      using ih(2) by simp
    show "mset q + mset c = mset q' + mset c' + sum_list (map (\<lambda>at. mset (AST_Txs at)) (?at # asts))" by (rule cons)
    show "\<forall>tx \<in> set q'. tx \<in> set q \<and> (\<forall>k \<in> set (i # js). broker_fate (addrs_to m f k) tx = Stay)"
      using ih(4) by auto
    show "\<forall>tx \<in> set c'. tx \<in> set c \<or> (\<exists>k \<in> set (i # js). broker_fate (addrs_to m f k) tx = BeCross)"
      using ih(5) by auto
  qed
qed


lemma demo_broker_send:
  "B_sendAccounts_and_Txs (demo_env False 2) (demo_shard 1 [demo_pay ''00000001'' ''00000000'' 5]) =
     Inr ([(''a0'', MAccountTransferBroker (demo_parcel\<lparr>AST_Txs := []\<rparr>)),
           (ip_of demo_ips DeciderShard 0, MInner2CrossTx \<lparr>I2C_Txs = [demo_pay ''00000001'' ''00000000'' 5]\<rparr>)],
          demo_shard 1 [])"
proof -
  let ?E = "demo_env False 2" and ?p = "demo_shard 1 [demo_pay ''00000001'' ''00000000'' 5]"
  have keys: "rfold (fetch_key ?E ?p) [(''00000001'', 0)] [] = Inr [''00000001'']"
    by (simp add: fetch_key_def demo_shard_simps demo_shard_home)
  have get: "FetchAccounts ?E [''00000001''] (PN_CurChain ?p) = Inr [new_AccountState 0 Init_Balance]"
    using FetchAccounts_one [OF demo_shard_opens] by (simp add: load_account_def demo_env_def)
  have q: "put_queue [] ?p = demo_shard 1 []"
    by (simp add: put_queue_def put_chain_def demo_shard_def demo_chain_def)
  have ip: "ip_of demo_ips 0 0 = ''a0''" by (simp add: ip_of_def demo_ips_def)
  have fate: "broker_fate [''00000001''] (demo_pay ''00000001'' ''00000000'' 5) = BeCross"
    by (simp add: broker_fate_def) (simp add: demo_pay_def NewTransaction_def)
  show ?thesis
    unfolding B_sendAccounts_and_Txs_def demo_shard_simps rbind.simps keys get Let_def
    by (simp add: B_send_shard_def shard_in_def demo_parcel_def demo_shard_simps q ip fate)
qed


end
