(* ===== verification/Hotstuff.thy ===== *)
theory Hotstuff
  imports PbftMods UTXOs
begin

text \<open>
  The Sync HotStuff consensus node (\<^verbatim>\<open>src/consensus_shard/synchotstuff_all\<close>: \<^verbatim>\<open>synchotstuff.go\<close>,
  \<^verbatim>\<open>messageHandle.go\<close>, \<^verbatim>\<open>synchotstuffMod_Relay_utxo.go\<close>, \<^verbatim>\<open>OutsideModRelay.go\<close>).

  A node that accepts a proposal broadcasts a vote and starts a goroutine \<^verbatim>\<open>WaitToCommit\<close>, which commits
  the proposal when a timer of twice the maximal latency has run out. Votes are not counted for the
  commit; a vote for another digest is meant to interrupt the goroutine through the channel \<^verbatim>\<open>pBreak\<close>.

  \<^item> The handlers are atomic steps, as in \<open>Pbft\<close>. \<open>HN_waiting\<close> are the proposals of the goroutines
    that wait for their timer; a timer running out is a step of its own.
  \<^item> \<^verbatim>\<open>NewSyncHotstuffNode\<close> does not make the channel \<^verbatim>\<open>pBreak\<close>: it stays nil. A send on a nil channel
    blocks for ever and a receive from it never happens, so the sending handler never returns; it holds
    \<^verbatim>\<open>tcpPoolLock\<close>, which every connection takes before it handles a message. \<open>HN_tcpPoolLock\<close> records
    that the lock is held by such a handler: no message is handled any more.
  \<^item> Only the UTXO module exists. Without \<^verbatim>\<open>params.UTXO\<close> the module pointers are nil, and their first
    use panics.
  \<^item> The vote counters are kept but never read; the field \<^verbatim>\<open>isVoteBordcast\<close> is never used. Logging,
    listening, closing and the channel \<^verbatim>\<open>pStop\<close> are not modelled.
\<close>

section \<open>The node\<close>

record ('d, 'b) SyncHotstuffConsensusNode =
  HN_RunningNode :: Node
  HN_ShardID :: u64
  HN_NodeID :: u64
  HN_CurChain :: "('d, 'b) BlockChain"
  HN_ChainConfig :: ChainConfig
  HN_ip_nodeTable :: ip_table
  HN_node_nums :: u64
  HN_malicious_nums :: u64
  HN_view :: u64
  HN_sequenceID :: u64
  HN_stop :: bool
  HN_requestPool :: "string \<rightharpoonup> Request"
  HN_cntVoteConfirm :: "string \<rightharpoonup> int"
  HN_isReply :: "string \<Rightarrow> bool"
  HN_height2Digest :: "u64 \<rightharpoonup> string"
  HN_sequenceLock :: bool
  HN_askForLock :: bool
  HN_seqIDMap :: "(u64, u64) gomap"
  HN_waiting :: "Propose_msg list"
  HN_tcpPoolLock :: bool

type_synonym ('d, 'b) hnode = "('d, 'b) SyncHotstuffConsensusNode"

definition NewSyncHotstuffNode ::
    "('t, 'd, 'b) env \<Rightarrow> ip_table \<Rightarrow> 'd \<Rightarrow> (string \<Rightarrow> 'b option) \<Rightarrow> u64 \<Rightarrow> u64 \<Rightarrow> ChainConfig
      \<Rightarrow> ('d, 'b) hnode res" where
  "NewSyncHotstuffNode E ips d disk shardID nodeID pcc =
     rbind (NewBlockChain E pcc d disk) (\<lambda>bc. Inr
       \<lparr>HN_RunningNode = \<lparr>N_NodeID = nodeID, N_ShardID = shardID, N_IPaddr = ip_of ips shardID nodeID\<rparr>,
        HN_ShardID = shardID, HN_NodeID = nodeID, HN_CurChain = bc, HN_ChainConfig = pcc,
        HN_ip_nodeTable = ips, HN_node_nums = CC_Nodes_perShard pcc,
        HN_malicious_nums = CC_Nodes_perShard pcc div 2, HN_view = 0,
        HN_sequenceID = B_Number (CurrentBlock bc) + 1, HN_stop = False,
        HN_requestPool = Map.empty, HN_cntVoteConfirm = Map.empty, HN_isReply = (\<lambda>_. False),
        HN_height2Digest = Map.empty, HN_sequenceLock = False, HN_askForLock = False,
        HN_seqIDMap = [], HN_waiting = [], HN_tcpPoolLock = False\<rparr>)"

definition SH_getNeighborNodes :: "('d, 'b) hnode \<Rightarrow> string list" where
  "SH_getNeighborNodes n =
     (case gget (HN_ip_nodeTable n) (HN_ShardID n) of None \<Rightarrow> [] | Some m \<Rightarrow> map snd m)"

definition SH_broadcast :: "('d, 'b) hnode \<Rightarrow> net_msg \<Rightarrow> sends" where
  "SH_broadcast n msg = Broadcast (N_IPaddr (HN_RunningNode n)) (SH_getNeighborNodes n) msg"

section \<open>The module for UTXO transactions\<close>

definition SH_HandleinPropose ::
    "('t, 'd, 'b) env \<Rightarrow> Propose_msg \<Rightarrow> ('d, 'b) hnode \<Rightarrow> (bool \<times> ('d, 'b) hnode) res" where
  "SH_HandleinPropose E pmsg n =
     (if \<not> P_UTXO E then Inl (Panic ''nil pointer dereference'')
      else
        rbind (DecodeB (R_Content (PR_RequestMsg pmsg))) (\<lambda>b.
        if IsValidUTXOBlock E b (HN_CurChain n) \<noteq> None then Inr (False, n)
        else Inr (True, n\<lparr>HN_requestPool := (HN_requestPool n)(PR_Digest pmsg \<mapsto> PR_RequestMsg pmsg)\<rparr>)))"

definition SH_shard_ids :: "('d, 'b) hnode \<Rightarrow> u64 list" where
  "SH_shard_ids n = map of_nat [0..<unat (CC_ShardNums (HN_ChainConfig n))]"

text \<open>As in the UTXO module of PBFT, the guard looks at the account pool's relay pool.\<close>

definition SH_relay_msgs :: "TxPool \<Rightarrow> UTXOTxPool \<Rightarrow> ('d, 'b) hnode \<Rightarrow> sends" where
  "SH_relay_msgs apool pool n =
     map (\<lambda>sid. (ip_of (HN_ip_nodeTable n) sid 0,
                  MRelayUTXO \<lparr>RU_Txs = U_relay_of pool sid, RU_SenderShardID = HN_ShardID n,
                              RU_SenderSeq = HN_sequenceID n\<rparr>))
       (filter (\<lambda>sid. \<not> (sid = HN_ShardID n \<or> length (relay_of apool sid) = 0)) (SH_shard_ids n))"

definition SH_block_info ::
    "(nat \<Rightarrow> go_time) \<Rightarrow> nat \<Rightarrow> Transaction list \<Rightarrow> Transaction list \<Rightarrow> Request \<Rightarrow> ('d, 'b) hnode
      \<Rightarrow> string \<times> net_msg" where
  "SH_block_info now len excuted relay1 r n =
     (ip_of (HN_ip_nodeTable n) DeciderShard 0,
      MBlockInfo \<lparr>BI_BlockBodyLength = int len, BI_ExcutedTxs = excuted, BI_Epoch = 0,
        BI_ProposeTime = R_ReqTime r, BI_CommitTime = now 0, BI_SenderShardID = HN_ShardID n,
        BI_Relay1TxNum = of_nat (length relay1), BI_Relay1Txs = relay1,
        BI_Broker1TxNum = 0, BI_Broker1Txs = [], BI_Broker2TxNum = 0, BI_Broker2Txs = []\<rparr>)"

definition SH_Commit ::
    "('t, 'd, 'b) env \<Rightarrow> (nat \<Rightarrow> go_time) \<Rightarrow> Propose_msg \<Rightarrow> ('d, 'b) hnode
      \<Rightarrow> (sends \<times> ('d, 'b) hnode) res" where
  "SH_Commit E now pmsg n =
     (if \<not> P_UTXO E then Inl (Panic ''nil pointer dereference'') else
     rbind (opt_or (Panic ''nil pointer dereference'') (HN_requestPool n (PR_Digest pmsg))) (\<lambda>r.
     rbind (DecodeB (R_Content r)) (\<lambda>block.
     rbind (AddBlock E block (HN_CurChain n)) (\<lambda>bc.
     if HN_NodeID n = HN_view n then
       rbind (rfold (U_classify_tx E bc (HN_ShardID n)) (B_UTXO block)
                ((UTXOTxpool bc)\<lparr>U_RelayPool := Some []\<rparr>, [], [], []))
         (\<lambda>(pool, txExcuted, relay1Txs, body).
          Inr (SH_relay_msgs (Txpool bc) pool n
                 @ [SH_block_info now (length (B_UTXO block)) (map makeup_tx txExcuted)
                      (map makeup_tx relay1Txs) r n],
               n\<lparr>HN_CurChain := mark_current (accepted block (HN_CurChain n)) (block\<lparr>B_UTXO := body\<rparr>)
                                  (bc\<lparr>UTXOTxpool := U_ClearRelayPool pool\<rparr>)\<rparr>))
     else Inr ([], n\<lparr>HN_CurChain := bc\<rparr>)))))"

definition SH_HandleforSequentialRequest ::
    "('t, 'd, 'b) env \<Rightarrow> SendOldMessage \<Rightarrow> ('d, 'b) hnode \<Rightarrow> ('d, 'b) hnode res" where
  "SH_HandleforSequentialRequest E som n =
     (if \<not> P_UTXO E then Inl (Panic ''nil pointer dereference'')
      else if sint (SOM_SeqEndHeight som - SOM_SeqStartHeight som + 1) \<noteq> int (length (SOM_OldRequest som))
      then Inr n
      else
        rbind (add_old_blocks E (height_count (SOM_SeqStartHeight som) (SOM_SeqEndHeight som)) 0
                 (SOM_OldRequest som) (HN_CurChain n)) (\<lambda>bc.
        Inr (n\<lparr>HN_CurChain := bc, HN_sequenceID := SOM_SeqEndHeight som + 1\<rparr>)))"

section \<open>Proposing and voting\<close>

text \<open>One pass of \<^verbatim>\<open>TxTransform\<close> and one of \<^verbatim>\<open>Propose\<close>; both loops return at once on a node that is not the
  leader.\<close>

definition SH_TxTransform ::
    "('t, 'd, 'b) env \<Rightarrow> (nat \<Rightarrow> utxo_choice) \<Rightarrow> (nat \<Rightarrow> go_time) \<Rightarrow> ('d, 'b) hnode
      \<Rightarrow> ('d, 'b) hnode res" where
  "SH_TxTransform E ch clk n =
     (if HN_view n \<noteq> HN_NodeID n then Inr n
      else rbind (TxTransform_pass E ch clk (HN_CurChain n)) (\<lambda>bc. Inr (n\<lparr>HN_CurChain := bc\<rparr>)))"

definition SH_Propose ::
    "('t, 'd, 'b) env \<Rightarrow> (nat \<Rightarrow> go_time) \<Rightarrow> ('d, 'b) hnode \<Rightarrow> (sends \<times> ('d, 'b) hnode) res" where
  "SH_Propose E now n =
     (if HN_view n \<noteq> HN_NodeID n then Inr ([], n)
      else if HN_sequenceLock n then Inl (Blocked ''sequenceLock'')
      else
        rbind (GenerateBlock E (now 0) (HN_CurChain n)) (\<lambda>(block, bc).
        let r = \<lparr>R_RequestType = BlockRequest, R_Content = GobB block, R_ReqTime = now 1\<rparr>;
            digest = sha_req E r;
            pmsg = \<lparr>PR_RequestMsg = r, PR_Digest = digest, PR_SeqID = HN_sequenceID n\<rparr>
        in Inr (SH_broadcast n (MPropose pmsg),
                n\<lparr>HN_CurChain := bc, HN_sequenceLock := True,
                  HN_requestPool := (HN_requestPool n)(digest \<mapsto> r),
                  HN_height2Digest := (HN_height2Digest n)(HN_sequenceID n \<mapsto> digest),
                  HN_waiting := HN_waiting n @ [pmsg]\<rparr>)))"

definition SH_vote :: "('d, 'b) hnode \<Rightarrow> Propose_msg \<Rightarrow> sends" where
  "SH_vote n pmsg =
     SH_broadcast n (MVote \<lparr>V_RequestMsg = PR_RequestMsg pmsg, V_Digest = PR_Digest pmsg,
                            V_SeqID = PR_SeqID pmsg, V_SenderNode = HN_RunningNode n\<rparr>)"

text \<open>A proposal that is not in the pool. It is put there even when it is not valid.\<close>

definition SH_consider ::
    "('t, 'd, 'b) env \<Rightarrow> Propose_msg \<Rightarrow> ('d, 'b) hnode \<Rightarrow> (sends \<times> ('d, 'b) hnode) res" where
  "SH_consider E pmsg n =
     (let digest = sha_req E (PR_RequestMsg pmsg) in
      if digest \<noteq> PR_Digest pmsg then Inr ([], n)
      else
        rbind (SH_HandleinPropose E pmsg n) (\<lambda>(flag, n).
        let n = n\<lparr>HN_requestPool := (HN_requestPool n)(digest \<mapsto> PR_RequestMsg pmsg),
                  HN_height2Digest := (HN_height2Digest n)(PR_SeqID pmsg \<mapsto> digest)\<rparr>
        in Inr (if flag then (SH_vote n pmsg, n\<lparr>HN_waiting := HN_waiting n @ [pmsg]\<rparr>) else ([], n))))"

definition SH_handlePropose ::
    "('t, 'd, 'b) env \<Rightarrow> Propose_msg \<Rightarrow> ('d, 'b) hnode \<Rightarrow> (sends \<times> ('d, 'b) hnode) res" where
  "SH_handlePropose E pmsg n =
     (if HN_requestPool n (PR_Digest pmsg) \<noteq> None then Inr (SH_vote n pmsg, n)
      else SH_consider E pmsg n)"

definition SH_count_vote :: "Vote \<Rightarrow> ('d, 'b) hnode \<Rightarrow> ('d, 'b) hnode" where
  "SH_count_vote vmsg n =
     (if HN_NodeID n = HN_view n then
        (let c = (case HN_cntVoteConfirm n (V_Digest vmsg) of None \<Rightarrow> 0 | Some c \<Rightarrow> c)
         in n\<lparr>HN_cntVoteConfirm := (HN_cntVoteConfirm n)(V_Digest vmsg \<mapsto> c + 1)\<rparr>)
      else n)"

definition SH_digest_at :: "('d, 'b) hnode \<Rightarrow> u64 \<Rightarrow> string" where
  "SH_digest_at n h = (case HN_height2Digest n h of None \<Rightarrow> [] | Some d \<Rightarrow> d)"

text \<open>The first branch is the send on the nil channel.\<close>

definition SH_handleVote ::
    "('t, 'd, 'b) env \<Rightarrow> Vote \<Rightarrow> ('d, 'b) hnode \<Rightarrow> (sends \<times> ('d, 'b) hnode) res" where
  "SH_handleVote E vmsg n =
     (let n = SH_count_vote vmsg n in
      if V_Digest vmsg \<noteq> SH_digest_at n (V_SeqID vmsg) \<and> V_SeqID vmsg = HN_sequenceID n
      then Inr ([], n\<lparr>HN_tcpPoolLock := True\<rparr>)
      else if V_SeqID vmsg > HN_sequenceID n then
        (if HN_requestPool n (V_Digest vmsg) \<noteq> None then Inr ([], n)
         else SH_consider E \<lparr>PR_RequestMsg = V_RequestMsg vmsg, PR_Digest = V_Digest vmsg,
                             PR_SeqID = V_SeqID vmsg\<rparr> n)
      else Inr ([], n))"

section \<open>Committing\<close>

definition SH_unlock_sequence :: "('d, 'b) hnode \<Rightarrow> ('d, 'b) hnode res" where
  "SH_unlock_sequence n =
     (if HN_NodeID n \<noteq> HN_view n then Inr n
      else if HN_sequenceLock n then Inr (n\<lparr>HN_sequenceLock := False\<rparr>)
      else Inl (Panic ''sync: unlock of unlocked mutex''))"

definition SH_ask_old :: "Propose_msg \<Rightarrow> ('d, 'b) hnode \<Rightarrow> string \<times> net_msg" where
  "SH_ask_old pmsg n =
     (let sn = \<lparr>N_NodeID = HN_view n, N_ShardID = HN_ShardID n,
                N_IPaddr = ip_of (HN_ip_nodeTable n) (HN_ShardID n) (HN_view n)\<rparr>
      in (N_IPaddr sn,
          MRequestOld \<lparr>ROM_SeqStartHeight = HN_sequenceID n + 1, ROM_SeqEndHeight = PR_SeqID pmsg,
                       ROM_ServerNode = sn, ROM_SenderNode = HN_RunningNode n\<rparr>))"

text \<open>\<^verbatim>\<open>WaitToCommit\<close> when its timer has run out.\<close>

definition SH_WaitToCommit ::
    "('t, 'd, 'b) env \<Rightarrow> (nat \<Rightarrow> go_time) \<Rightarrow> Propose_msg \<Rightarrow> ('d, 'b) hnode
      \<Rightarrow> (sends \<times> ('d, 'b) hnode) res" where
  "SH_WaitToCommit E now pmsg n =
     rbind (if HN_requestPool n (PR_Digest pmsg) = None then
              (let n = n\<lparr>HN_isReply := (HN_isReply n)(PR_Digest pmsg := True)\<rparr> in
               if HN_askForLock n then Inl (Blocked ''askForLock'')
               else Inr ([SH_ask_old pmsg n], n\<lparr>HN_askForLock := True\<rparr>))
            else
              rbind (SH_Commit E now pmsg n) (\<lambda>(out, n).
              Inr (out, n\<lparr>HN_isReply := (HN_isReply n)(PR_Digest pmsg := True),
                          HN_sequenceID := HN_sequenceID n + 1\<rparr>)))
       (\<lambda>(out, n). rbind (SH_unlock_sequence n) (\<lambda>n. Inr (out, n)))"

section \<open>Catching up\<close>

fun SH_old_requests :: "nat \<Rightarrow> u64 \<Rightarrow> ('d, 'b) hnode \<Rightarrow> Request list" where
  "SH_old_requests 0 height n = []"
| "SH_old_requests (Suc k) height n =
     (case HN_height2Digest n height of
        None \<Rightarrow> []
      | Some d \<Rightarrow>
          (case HN_requestPool n d of
             None \<Rightarrow> []
           | Some r \<Rightarrow> r # SH_old_requests k (height + 1) n))"

definition SH_handleRequestOldSeq ::
    "('t, 'd, 'b) env \<Rightarrow> RequestOldMessage \<Rightarrow> ('d, 'b) hnode \<Rightarrow> (sends \<times> ('d, 'b) hnode) res" where
  "SH_handleRequestOldSeq E rom n =
     (if HN_view n \<noteq> HN_NodeID n then Inr ([], n)
      else if \<not> P_UTXO E then Inl (Panic ''nil pointer dereference'')
      else
        let oldR = SH_old_requests (Suc (unat (ROM_SeqEndHeight rom)) - unat (ROM_SeqStartHeight rom))
                     (ROM_SeqStartHeight rom) n
        in Inr ([(N_IPaddr (ROM_SenderNode rom),
                  MSendOld \<lparr>SOM_SeqStartHeight = ROM_SeqStartHeight rom,
                            SOM_SeqEndHeight = ROM_SeqEndHeight rom, SOM_OldRequest = oldR,
                            SOM_SenderNode = HN_RunningNode n\<rparr>)], n))"

definition SH_store_old ::
    "('t, 'd, 'b) env \<Rightarrow> u64 \<Rightarrow> nat \<times> Request \<Rightarrow> ('d, 'b) hnode \<Rightarrow> ('d, 'b) hnode" where
  "SH_store_old E beginSeq ir n =
     (let (idx, r) = ir; d = sha_req E r in
      n\<lparr>HN_requestPool := (HN_requestPool n)(d \<mapsto> r),
        HN_height2Digest := (HN_height2Digest n)(of_nat idx + beginSeq \<mapsto> d),
        HN_isReply := (HN_isReply n)(d := True)\<rparr>)"

definition SH_handleSendOldSeq ::
    "('t, 'd, 'b) env \<Rightarrow> SendOldMessage \<Rightarrow> ('d, 'b) hnode \<Rightarrow> (sends \<times> ('d, 'b) hnode) res" where
  "SH_handleSendOldSeq E som n =
     rbind (SH_HandleforSequentialRequest E som n) (\<lambda>n.
     let n = fold (SH_store_old E (SOM_SeqStartHeight som)) (enumerate 0 (SOM_OldRequest som)) n;
         n = n\<lparr>HN_sequenceID := SOM_SeqEndHeight som + 1\<rparr>
     in if HN_askForLock n then Inr ([], n\<lparr>HN_askForLock := False\<rparr>)
        else Inl (Panic ''sync: unlock of unlocked mutex''))"

section \<open>Messages from outside and dispatch\<close>

definition SH_handleRelay ::
    "('t, 'd, 'b) env \<Rightarrow> (nat \<Rightarrow> 64 word) \<Rightarrow> (nat \<Rightarrow> go_time) \<Rightarrow> RelayUTXO \<Rightarrow> ('d, 'b) hnode
      \<Rightarrow> ('d, 'b) hnode" where
  "SH_handleRelay E nonce clk relay n =
     (let newTxs = map (\<lambda>(i, h, out). NewCoinbaseTX (sha_utxo E) (nonce i) (Out_PubKeyHash out)
                                         (Out_Value out) (Some h))
                     (enumerate 0 (relayed_outs (RU_Txs relay)));
          bc = HN_CurChain n
      in n\<lparr>HN_CurChain := bc\<lparr>UTXOTxpool := U_AddTxs2Pool clk newTxs (UTXOTxpool bc)\<rparr>,
           HN_seqIDMap := gput (RU_SenderShardID relay) (RU_SenderSeq relay) (HN_seqIDMap n)\<rparr>)"

definition SH_handleInjectTx ::
    "(nat \<Rightarrow> go_time) \<Rightarrow> InjectTxs \<Rightarrow> ('d, 'b) hnode \<Rightarrow> ('d, 'b) hnode" where
  "SH_handleInjectTx clk it n = n\<lparr>HN_CurChain := SendTx2Pool clk (IT_Txs it) (HN_CurChain n)\<rparr>"

definition SH_HandleMessageOutsideConsensus ::
    "('t, 'd, 'b) env \<Rightarrow> (nat \<Rightarrow> 64 word) \<Rightarrow> (nat \<Rightarrow> go_time) \<Rightarrow> net_msg \<Rightarrow> ('d, 'b) hnode
      \<Rightarrow> (sends \<times> ('d, 'b) hnode) res" where
  "SH_HandleMessageOutsideConsensus E nonce clk msg n =
     (if \<not> P_UTXO E then Inl (Panic ''nil pointer dereference'')
      else case msg of
        MRelayUTXO m \<Rightarrow> Inr ([], SH_handleRelay E nonce clk m n)
      | MInject m \<Rightarrow> Inr ([], SH_handleInjectTx clk m n)
      | _ \<Rightarrow> Inr ([], n))"

definition SH_WaitToStop :: "('d, 'b) hnode \<Rightarrow> ('d, 'b) hnode" where
  "SH_WaitToStop n = n\<lparr>HN_stop := True\<rparr>"

definition SH_handleMessage ::
    "('t, 'd, 'b) env \<Rightarrow> (nat \<Rightarrow> 64 word) \<Rightarrow> (nat \<Rightarrow> go_time) \<Rightarrow> net_msg \<Rightarrow> ('d, 'b) hnode
      \<Rightarrow> (sends \<times> ('d, 'b) hnode) res" where
  "SH_handleMessage E nonce clk msg n =
     (case msg of
        MPropose m \<Rightarrow> SH_handlePropose E m n
      | MVote m \<Rightarrow> SH_handleVote E m n
      | MRequestOld m \<Rightarrow> SH_handleRequestOldSeq E m n
      | MSendOld m \<Rightarrow> SH_handleSendOldSeq E m n
      | MStop \<Rightarrow> Inr ([], SH_WaitToStop n)
      | _ \<Rightarrow> SH_HandleMessageOutsideConsensus E nonce clk msg n)"

text \<open>\<^verbatim>\<open>handleClientRequest\<close> for one message that was read: it is dropped when the node has been stopped,
  and not handled when the lock is never released.\<close>

definition SH_handleClientRequest ::
    "('t, 'd, 'b) env \<Rightarrow> (nat \<Rightarrow> 64 word) \<Rightarrow> (nat \<Rightarrow> go_time) \<Rightarrow> net_msg \<Rightarrow> ('d, 'b) hnode
      \<Rightarrow> (sends \<times> ('d, 'b) hnode) res" where
  "SH_handleClientRequest E nonce clk msg n =
     (if HN_stop n \<or> HN_tcpPoolLock n then Inr ([], n) else SH_handleMessage E nonce clk msg n)"

section \<open>Runs\<close>

datatype hevent =
    HPropose "nat \<Rightarrow> go_time"
  | HTransform "nat \<Rightarrow> utxo_choice" "nat \<Rightarrow> go_time"
  | HMsg net_msg "nat \<Rightarrow> 64 word" "nat \<Rightarrow> go_time"
  | HTimer nat "nat \<Rightarrow> go_time"

text \<open>The timer of the \<open>i\<close>-th waiting goroutine runs out.\<close>

definition SH_timer ::
    "('t, 'd, 'b) env \<Rightarrow> nat \<Rightarrow> (nat \<Rightarrow> go_time) \<Rightarrow> ('d, 'b) hnode \<Rightarrow> (sends \<times> ('d, 'b) hnode) res" where
  "SH_timer E i now n =
     (if i < length (HN_waiting n)
      then SH_WaitToCommit E now (HN_waiting n ! i)
             (n\<lparr>HN_waiting := take i (HN_waiting n) @ drop (Suc i) (HN_waiting n)\<rparr>)
      else Inr ([], n))"

definition hotstuff_event ::
    "('t, 'd, 'b) env \<Rightarrow> hevent \<Rightarrow> ('d, 'b) hnode \<Rightarrow> (sends \<times> ('d, 'b) hnode) res" where
  "hotstuff_event E ev n =
     (case ev of
        HPropose now \<Rightarrow> SH_Propose E now n
      | HTransform ch clk \<Rightarrow> rbind (SH_TxTransform E ch clk n) (\<lambda>n. Inr ([], n))
      | HMsg msg nonce clk \<Rightarrow> SH_handleClientRequest E nonce clk msg n
      | HTimer i now \<Rightarrow> SH_timer E i now n)"

fun hrun :: "('t, 'd, 'b) env \<Rightarrow> hevent list \<Rightarrow> ('d, 'b) hnode \<Rightarrow> (sends \<times> ('d, 'b) hnode) res" where
  "hrun E [] n = Inr ([], n)"
| "hrun E (ev # evs) n =
     rbind (hotstuff_event E ev n) (\<lambda>(out, n1).
     rbind (hrun E evs n1) (\<lambda>(outs, n2). Inr (out @ outs, n2)))"

end
