(* ===== verification/CrossShard.thy ===== *)
theory CrossShard
  imports PbftSafety
begin

text \<open>
  Cross-shard transactions under the relay modules: what the leader does with the transactions of a
  committed block, what the destination shard does with the relayed ones, and where value or
  transactions are lost or made.
\<close>

section \<open>Classification of a block\<close>

definition dest :: "('t, 'd, 'b) env \<Rightarrow> ('d, 'b) BlockChain \<Rightarrow> Transaction \<Rightarrow> u64" where
  "dest E bc tx = (case Get_PartitionMap E bc (Tx_Recipient tx) of Inr s \<Rightarrow> s | Inl _ \<Rightarrow> 0)"

definition mark :: "Transaction \<Rightarrow> Transaction" where
  "mark tx = tx\<lparr>Tx_Relayed := True\<rparr>"

definition relayed_to :: "('t, 'd, 'b) env \<Rightarrow> ('d, 'b) BlockChain \<Rightarrow> u64 \<Rightarrow> Transaction list \<Rightarrow> Transaction list" where
  "relayed_to E bc sid txs = map mark (filter (\<lambda>tx. dest E bc tx = sid) txs)"

lemma dest_eq: "routable E bc (Tx_Recipient tx) \<Longrightarrow> Get_PartitionMap E bc (Tx_Recipient tx) = Inr (dest E bc tx)"
  by (auto simp: routable_def dest_def)

lemma relay_of_add:
  assumes "AddRelayTx tx sid pool = Inr pool'"
  shows "relay_of pool' s = relay_of pool s @ (if s = sid then [tx] else [])"
    and "RelayPool pool' \<noteq> None" and "TxQueue pool' = TxQueue pool"
  using assms by (auto simp: AddRelayTx_def relay_of_def split: option.splits)

lemma classify_ok:
  assumes "\<forall>tx \<in> set txs. routable E bc (Tx_Recipient tx)" and "RelayPool pool \<noteq> None"
  shows "\<exists>pool'. rfold (classify_tx E bc shard) txs (pool, ex, re, body) =
     Inr (pool', ex @ filter (\<lambda>tx. dest E bc tx = shard) txs,
          re @ map mark (filter (\<lambda>tx. dest E bc tx \<noteq> shard) txs),
          body @ map (\<lambda>tx. if dest E bc tx = shard then tx else mark tx) txs) \<and>
     (\<forall>sid. relay_of pool' sid = relay_of pool sid @ (if sid = shard then [] else relayed_to E bc sid txs)) \<and>
     TxQueue pool' = TxQueue pool"
  using assms
proof (induction txs arbitrary: pool ex re body)
  case Nil
  then show ?case by (simp add: relayed_to_def)
next
  case (Cons tx txs)
  have d: "Get_PartitionMap E bc (Tx_Recipient tx) = Inr (dest E bc tx)"
    using Cons.prems(1) by (simp add: dest_eq)
  have rest: "\<forall>tx \<in> set txs. routable E bc (Tx_Recipient tx)" using Cons.prems(1) by simp
  show ?case
  proof (cases "dest E bc tx = shard")
    case True
    with Cons.IH [OF rest Cons.prems(2), of "ex @ [tx]" re "body @ [tx]"] d show ?thesis
      by (auto simp: classify_tx_def relayed_to_def)
  next
    case False
    obtain pool1 where p1: "AddRelayTx (mark tx) (dest E bc tx) pool = Inr pool1"
      using Cons.prems(2) by (auto simp: AddRelayTx_def)
    note add = relay_of_add [OF p1]
    from Cons.IH [OF rest add(2), of ex "re @ [mark tx]" "body @ [mark tx]"] obtain pool' where
      c: "rfold (classify_tx E bc shard) txs (pool1, ex, re @ [mark tx], body @ [mark tx]) =
        Inr (pool', ex @ filter (\<lambda>tx. dest E bc tx = shard) txs,
             (re @ [mark tx]) @ map mark (filter (\<lambda>tx. dest E bc tx \<noteq> shard) txs),
             (body @ [mark tx]) @ map (\<lambda>tx. if dest E bc tx = shard then tx else mark tx) txs)"
      "\<forall>sid. relay_of pool' sid = relay_of pool1 sid @ (if sid = shard then [] else relayed_to E bc sid txs)"
      "TxQueue pool' = TxQueue pool1" by blast
    have "classify_tx E bc shard tx (pool, ex, re, body) = Inr (pool1, ex, re @ [mark tx], body @ [mark tx])"
      using d False p1 by (simp add: classify_tx_def mark_def Let_def)
    then have "rfold (classify_tx E bc shard) (tx # txs) (pool, ex, re, body) =
        Inr (pool', ex @ filter (\<lambda>tx. dest E bc tx = shard) (tx # txs),
             re @ map mark (filter (\<lambda>tx. dest E bc tx \<noteq> shard) (tx # txs)),
             body @ map (\<lambda>tx. if dest E bc tx = shard then tx else mark tx) (tx # txs))"
      using c(1) False by simp
    moreover have "relay_of pool' sid = relay_of pool sid @
        (if sid = shard then [] else relayed_to E bc sid (tx # txs))" for sid
      using c(2) add(1) False by (auto simp: relayed_to_def)
    ultimately show ?thesis using c(3) add(3) by auto
  qed
qed

text \<open>What the leader's \<^verbatim>\<open>HandleinCommit\<close> sends and keeps.\<close>

lemma Relay_HandleinCommit_leader:
  assumes "PN_requestPool p (C_Digest c) = Some r" and "R_Content r = GobB block"
    and "AddBlock E block (PN_CurChain p) = Inr bc" and "PN_NodeID p = PN_view p"
    and "\<forall>tx \<in> set (B_Body block). routable E bc (Tx_Recipient tx)"
  shows "\<exists>p'. Relay_HandleinCommit E now c p =
     Inr (map (\<lambda>sid. (ip_of (PN_ip_nodeTable p) sid 0,
                MRelay \<lparr>RL_Txs = relayed_to E bc sid (B_Body block), RL_SenderShardID = PN_ShardID p,
                        RL_SenderSeq = PN_sequenceID p\<rparr>))
            (filter (\<lambda>sid. sid \<noteq> PN_ShardID p \<and> relayed_to E bc sid (B_Body block) \<noteq> []) (shard_ids p))
          @ [block_info now (length (B_Body block))
               (filter (\<lambda>tx. dest E bc tx = PN_ShardID p) (B_Body block))
               (map mark (filter (\<lambda>tx. dest E bc tx \<noteq> PN_ShardID p) (B_Body block))) [] [] r p], p') \<and>
     TxQueue (Txpool (PN_CurChain p')) = TxQueue (Txpool bc) \<and>
     Storage (PN_CurChain p') = Storage bc \<and> triedb (PN_CurChain p') = triedb bc"
proof -
  let ?pool0 = "(Txpool bc)\<lparr>RelayPool := Some []\<rparr>" and ?txs = "B_Body block"
  have "RelayPool ?pool0 \<noteq> None" by simp
  from classify_ok [OF assms(5) this, of "PN_ShardID p" "[]" "[]" "[]"] obtain pool' body where
    c: "rfold (classify_tx E bc (PN_ShardID p)) ?txs (?pool0, [], [], []) =
      Inr (pool', filter (\<lambda>tx. dest E bc tx = PN_ShardID p) ?txs,
           map mark (filter (\<lambda>tx. dest E bc tx \<noteq> PN_ShardID p) ?txs), body)"
    and rel: "\<forall>sid. relay_of pool' sid =
        relay_of ?pool0 sid @ (if sid = PN_ShardID p then [] else relayed_to E bc sid ?txs)"
    and q: "TxQueue pool' = TxQueue ?pool0" by auto
  have empty: "relay_of ?pool0 sid = []" for sid by (simp add: relay_of_def)
  have msgs: "relay_msgs pool' p = map (\<lambda>sid. (ip_of (PN_ip_nodeTable p) sid 0,
        MRelay \<lparr>RL_Txs = relayed_to E bc sid ?txs, RL_SenderShardID = PN_ShardID p,
                RL_SenderSeq = PN_sequenceID p\<rparr>))
      (filter (\<lambda>sid. sid \<noteq> PN_ShardID p \<and> relayed_to E bc sid ?txs \<noteq> []) (shard_ids p))"
    unfolding relay_msgs_def using rel empty by (intro map_cong filter_cong) auto
  show ?thesis
    using assms(1-4) c q
    by (simp add: Relay_HandleinCommit_def msgs put_chain_def mark_current_def ClearRelayPool_def)
qed

text \<open>C10: every transaction of a committed block is accounted for once. The leader reports the
  transactions whose recipient is in its shard as executed, sends every other one, marked as
  relayed, to the shard of its recipient, one message per shard in the order of the block, and
  reports them as relayed; the two groups together are the block.\<close>

theorem relay_classifies_block:
  assumes "PN_requestPool p (C_Digest c) = Some r" and "R_Content r = GobB block"
    and "AddBlock E block (PN_CurChain p) = Inr bc" and "PN_NodeID p = PN_view p"
    and "\<forall>tx \<in> set (B_Body block). routable E bc (Tx_Recipient tx)"
  shows "\<exists>p' here away. Relay_HandleinCommit E now c p =
     Inr (map (\<lambda>sid. (ip_of (PN_ip_nodeTable p) sid 0,
                MRelay \<lparr>RL_Txs = map mark (filter (\<lambda>tx. dest E bc tx = sid) (B_Body block)),
                        RL_SenderShardID = PN_ShardID p, RL_SenderSeq = PN_sequenceID p\<rparr>))
            (filter (\<lambda>sid. sid \<noteq> PN_ShardID p \<and> relayed_to E bc sid (B_Body block) \<noteq> []) (shard_ids p))
          @ [block_info now (length (B_Body block)) here (map mark away) [] [] r p], p') \<and>
     mset here + mset away = mset (B_Body block) \<and>
     (\<forall>tx \<in> set here. dest E bc tx = PN_ShardID p) \<and> (\<forall>tx \<in> set away. dest E bc tx \<noteq> PN_ShardID p)"
proof -
  let ?here = "filter (\<lambda>tx. dest E bc tx = PN_ShardID p) (B_Body block)"
  let ?away = "filter (\<lambda>tx. dest E bc tx \<noteq> PN_ShardID p) (B_Body block)"
  have "mset ?here + mset ?away = mset (B_Body block)" by (rule map_filter_partition_mset)
  moreover obtain p' where "Relay_HandleinCommit E now c p =
     Inr (map (\<lambda>sid. (ip_of (PN_ip_nodeTable p) sid 0,
                MRelay \<lparr>RL_Txs = relayed_to E bc sid (B_Body block), RL_SenderShardID = PN_ShardID p,
                        RL_SenderSeq = PN_sequenceID p\<rparr>))
            (filter (\<lambda>sid. sid \<noteq> PN_ShardID p \<and> relayed_to E bc sid (B_Body block) \<noteq> []) (shard_ids p))
          @ [block_info now (length (B_Body block)) ?here (map mark ?away) [] [] r p], p')"
    using Relay_HandleinCommit_leader [OF assms, of now] by blast
  ultimately show ?thesis
    by (intro exI [of _ p'] exI [of _ ?here] exI [of _ ?away]) (simp add: relayed_to_def)
qed

definition demo_leader :: "Transaction list \<Rightarrow> (bytes \<rightharpoonup> demo_trie, demo_trie) pnode" where
  "demo_leader txs = boot_node\<lparr>PN_NodeID := 0, PN_CurChain := demo_chain 0 [],
     PN_requestPool := [''rh1'' \<mapsto> \<lparr>R_RequestType = BlockRequest,
       R_Content = GobB ((demo_block ''h0'')\<lparr>B_Body := txs\<rparr>), R_ReqTime = 2\<rparr>]\<rparr>"

lemma demo_leader_add:
  "\<exists>s. AddBlock (demo_env u 2) ((demo_block ''h0'')\<lparr>B_Body := txs\<rparr>) (demo_chain 0 [])
     = Inr ((demo_chain 0 [])\<lparr>CurrentBlock := (demo_block ''h0'')\<lparr>B_Body := txs\<rparr>, Storage := s\<rparr>)"
proof -
  let ?b = "(demo_block ''h0'')\<lparr>B_Body := txs\<rparr>"
  have "B_Hash ?b \<noteq> []" by (simp add: demo_block_def)
  from Storage_ok [OF demo_bolt_laws this, of u 2 "Storage (demo_chain 0 [])"] show ?thesis
    by (auto simp: AddBlock_def demo_block_def demo_chain_def demo_genesis_def)
qed

lemma demo_leader_node:
  "PN_requestPool (demo_leader txs) (C_Digest (demo_commit 1)) = Some \<lparr>R_RequestType = BlockRequest,
       R_Content = GobB ((demo_block ''h0'')\<lparr>B_Body := txs\<rparr>), R_ReqTime = 2\<rparr>"
  "PN_CurChain (demo_leader txs) = demo_chain 0 []" "PN_NodeID (demo_leader txs) = PN_view (demo_leader txs)"
  by (simp_all add: demo_leader_def demo_commit_def boot_node_new)

theorem relay_classifies_block_witness:
  "\<exists>out p'. Relay_HandleinCommit (demo_env False 2) (\<lambda>_. 5) (demo_commit 1)
     (demo_leader [demo_pay ''00000000'' ''00000002'' 5, demo_pay ''00000000'' ''00000001'' 7]) = Inr (out, p')"
proof -
  let ?txs = "[demo_pay ''00000000'' ''00000002'' 5, demo_pay ''00000000'' ''00000001'' 7]"
  obtain s where a: "AddBlock (demo_env False 2) ((demo_block ''h0'')\<lparr>B_Body := ?txs\<rparr>)
      (PN_CurChain (demo_leader ?txs)) =
      Inr ((demo_chain 0 [])\<lparr>CurrentBlock := (demo_block ''h0'')\<lparr>B_Body := ?txs\<rparr>, Storage := s\<rparr>)"
    using demo_leader_add [of False] unfolding demo_leader_node(2) by blast
  have "routable (demo_env False 2) ((demo_chain 0 [])\<lparr>CurrentBlock := b, Storage := s\<rparr>) x
      = routable (demo_env False 2) (demo_chain 0 []) x" for b x
    by (simp add: routable_def Get_PartitionMap_def)
  with relay_classifies_block [OF demo_leader_node(1) _ a demo_leader_node(3)] demo_routable [of 0 "[]"]
  show ?thesis by (fastforce simp: demo_pay_def NewTransaction_def)
qed

section \<open>A relayed transaction that was never paid\<close>

lemma ledger_tx_mark:
  "loc (Tx_Recipient tx) \<Longrightarrow>
     ledger_tx loc (mark tx) f = f(Tx_Recipient tx := f (Tx_Recipient tx) + Tx_Value tx)"
  by (simp add: ledger_tx_def mark_def overdraws_def debits_def credits_def)

lemma routable_mark [simp]: "Tx_Sender (mark tx) = Tx_Sender tx" "Tx_Recipient (mark tx) = Tx_Recipient tx"
  by (simp_all add: mark_def)

text \<open>C36: money is made when a cross-shard transaction is not covered. Executing it in the sender's
  shard skips it and debits nobody, but the leader relays it all the same (\<^verbatim>\<open>HandleinCommit\<close> does not
  look at what was executed), and the recipient's shard credits the full value.\<close>

theorem uncovered_transaction_is_credited:
  assumes "trie_laws E"
    and "opens E S (B_StateRoot (CurrentBlock S)) st" and "wf_state E st"
    and "opens E D (B_StateRoot (CurrentBlock D)) su" and "wf_state E su"
    and "routable E S (Tx_Sender tx)" and "routable E S (Tx_Recipient tx)"
    and "routable E D (Tx_Sender tx)" and "home E D (Tx_Recipient tx)"
    and "overdraws (home E S) tx (bal E st)"
    and "PN_requestPool p (C_Digest c) = Some r" and "R_Content r = GobB block" and "B_Body block = [tx]"
    and "AddBlock E block (PN_CurChain p) = Inr bc" and "PN_NodeID p = PN_view p"
    and "routable E bc (Tx_Recipient tx)" and "dest E bc tx \<noteq> PN_ShardID p"
    and "dest E bc tx \<in> set (shard_ids p)"
  shows "(\<exists>rt S' st'. GetUpdateStatusTrie E [tx] S = Inr (rt, S') \<and> opens E S' rt st' \<and> bal E st' = bal E st) \<and>
         (\<exists>out p'. Relay_HandleinCommit E now c p = Inr (out, p') \<and>
            (ip_of (PN_ip_nodeTable p) (dest E bc tx) 0,
             MRelay \<lparr>RL_Txs = [mark tx], RL_SenderShardID = PN_ShardID p, RL_SenderSeq = PN_sequenceID p\<rparr>) \<in> set out) \<and>
         (\<exists>rt D' su'. GetUpdateStatusTrie E [mark tx] D = Inr (rt, D') \<and> opens E D' rt su' \<and>
            bal E su' = (bal E su)(Tx_Recipient tx := bal E su (Tx_Recipient tx) + Tx_Value tx))"
proof (intro conjI)
  have "\<forall>t \<in> set [tx]. routable E S (Tx_Sender t) \<and> routable E S (Tx_Recipient t)" using assms(6,7) by simp
  from GetUpdateStatusTrie_refines [OF assms(1-3) this] assms(10)
  show "\<exists>rt S' st'. GetUpdateStatusTrie E [tx] S = Inr (rt, S') \<and> opens E S' rt st' \<and> bal E st' = bal E st"
    by (auto simp: ledger_tx_def)
next
  have "\<forall>t \<in> set (B_Body block). routable E bc (Tx_Recipient t)" using assms(13,16) by simp
  from Relay_HandleinCommit_leader [OF assms(11,12,14,15) this, of now] assms(13,17,18)
  show "\<exists>out p'. Relay_HandleinCommit E now c p = Inr (out, p') \<and>
      (ip_of (PN_ip_nodeTable p) (dest E bc tx) 0,
       MRelay \<lparr>RL_Txs = [mark tx], RL_SenderShardID = PN_ShardID p, RL_SenderSeq = PN_sequenceID p\<rparr>) \<in> set out"
    by (auto simp: relayed_to_def)
next
  have "routable E D (Tx_Recipient tx)" using assms(9) by (auto simp: home_def routable_def)
  then have "\<forall>t \<in> set [mark tx]. routable E D (Tx_Sender t) \<and> routable E D (Tx_Recipient t)"
    using assms(8) by simp
  from GetUpdateStatusTrie_refines [OF assms(1,4,5) this] ledger_tx_mark [of "home E D" tx "bal E su", OF assms(9)]
  show "\<exists>rt D' su'. GetUpdateStatusTrie E [mark tx] D = Inr (rt, D') \<and> opens E D' rt su' \<and>
      bal E su' = (bal E su)(Tx_Recipient tx := bal E su (Tx_Recipient tx) + Tx_Value tx)"
    by auto
qed

definition demo_dest :: "(bytes \<rightharpoonup> demo_trie, demo_trie) BlockChain" where
  "demo_dest = (demo_chain 0 [])\<lparr>ChainConfig := (ChainConfig (demo_chain 0 []))\<lparr>CC_ShardID := 1\<rparr>\<rparr>"

lemma demo_dest_ok:
  "opens (demo_env False 2) demo_dest (B_StateRoot (CurrentBlock demo_dest)) []"
  "routable (demo_env False 2) demo_dest ''00000000''" "home (demo_env False 2) demo_dest ''00000001''"
  by (simp_all add: demo_dest_def opens_def demo_chain_def demo_genesis_def routable_iff home_def
      Get_PartitionMap_def Addr2Shard_eq valid_addr_def addr_num_def hexval_def demo_env_def)

theorem uncovered_transaction_is_credited_witness:
  "\<exists>rt D' su'. GetUpdateStatusTrie (demo_env False 2) [mark (demo_pay ''00000000'' ''00000001'' (10 ^ 44 + 1))]
       demo_dest = Inr (rt, D') \<and> opens (demo_env False 2) D' rt su' \<and>
     bal (demo_env False 2) su' ''00000001'' = 2 * 10 ^ 44 + 1"
proof -
  define tx where "tx = demo_pay ''00000000'' ''00000001'' (10 ^ 44 + 1)"
  let ?E = "demo_env False 2"
  let ?p = "demo_leader [tx]" and ?b = "(demo_block ''h0'')\<lparr>B_Body := [tx]\<rparr>"
  have tx: "Tx_Sender tx = ''00000000''" "Tx_Recipient tx = ''00000001''" "Tx_Value tx = 10 ^ 44 + 1"
    "\<not> Tx_Relayed tx" by (simp_all add: tx_def demo_pay_def NewTransaction_def)
  have b0: "bal ?E [] a = 10 ^ 44" for a by (simp add: bal_def demo_env_def Init_Balance_def)
  obtain s where a: "AddBlock ?E ?b (PN_CurChain ?p) = Inr ((demo_chain 0 [])\<lparr>CurrentBlock := ?b, Storage := s\<rparr>)"
    using demo_leader_add [of False] unfolding demo_leader_node(2) by blast
  let ?bc = "(demo_chain 0 [])\<lparr>CurrentBlock := ?b, Storage := s\<rparr>"
  have d: "Get_PartitionMap ?E ?bc ''00000001'' = Inr 1"
    by (simp add: Get_PartitionMap_def demo_chain_def Addr2Shard_eq valid_addr_def addr_num_def hexval_def demo_env_def)
  then have dest: "dest ?E ?bc tx = 1" "routable ?E ?bc (Tx_Recipient tx)"
    by (simp_all add: dest_def routable_def tx)
  have ids: "PN_ShardID ?p = 0" "(1 :: u64) \<in> set (shard_ids ?p)"
    by (simp_all add: demo_leader_def shard_ids_def boot_node_def NewPbftNode_def demo_boot_new)
       (simp add: demo_chain_def, rule image_eqI [of _ _ 1], simp_all)
  have S: "opens ?E (demo_chain 0 []) (B_StateRoot (CurrentBlock (demo_chain 0 []))) []"
    using demo_opens [of 0 "[]"] by (simp add: demo_chain_def)
  have over: "overdraws (home ?E (demo_chain 0 [])) tx (bal ?E [])"
    using demo_home(1) [of "[]"] tx b0 by (simp add: overdraws_def debits_def)
  from uncovered_transaction_is_credited [OF demo_trie_laws S demo_wf demo_dest_ok(1) demo_wf _ _ _ _ over
      demo_leader_node(1) _ _ a demo_leader_node(3)]
  have "\<exists>rt D' su'. GetUpdateStatusTrie ?E [mark tx] demo_dest = Inr (rt, D') \<and> opens ?E D' rt su' \<and>
      bal ?E su' = (bal ?E [])(''00000001'' := bal ?E [] ''00000001'' + (10 ^ 44 + 1))"
    using tx demo_routable [of 0 "[]"] demo_dest_ok(2,3) dest ids by simp
  then show ?thesis using b0 unfolding tx_def by fastforce
qed

section \<open>The UTXO relay\<close>

lemma U_classify_total:
  assumes "\<forall>tx \<in> set txs. IsCoinbase tx \<or> routable E bc (U_Recipient tx)" and "U_RelayPool pool \<noteq> None"
  shows "\<exists>pool' ex' re' body'. rfold (U_classify_tx E bc shard) txs (pool, ex, re, body) = Inr (pool', ex', re', body')"
  using assms
proof (induction txs arbitrary: pool ex re body)
  case Nil
  then show ?case by simp
next
  case (Cons tx txs)
  have rest: "\<forall>tx \<in> set txs. IsCoinbase tx \<or> routable E bc (U_Recipient tx)" using Cons.prems(1) by simp
  show ?case
  proof (cases "IsCoinbase tx")
    case True
    then show ?thesis using Cons.IH [OF rest Cons.prems(2)] by (simp add: U_classify_tx_def)
  next
    case False
    then obtain s where s: "Get_PartitionMap E bc (U_Recipient tx) = Inr s"
      using Cons.prems(1) by (auto simp: routable_def)
    obtain m where m: "U_RelayPool pool = Some m" using Cons.prems(2) by blast
    have "\<exists>pool2 e2 r2 b2. U_classify_tx E bc shard tx (pool, ex, re, body) = Inr (pool2, e2, r2, b2) \<and>
        U_RelayPool pool2 \<noteq> None"
      using s m False by (simp add: U_classify_tx_def U_AddRelayTx_def Let_def)
    then obtain pool2 e2 r2 b2 where
      "U_classify_tx E bc shard tx (pool, ex, re, body) = Inr (pool2, e2, r2, b2)" "U_RelayPool pool2 \<noteq> None"
      by blast
    then show ?thesis using Cons.IH [OF rest, of pool2 e2 r2 b2] by simp
  qed
qed

text \<open>A UTXO shard never relays. The sending loop of the UTXO module tests the relay pool of the
  account pool, which nothing fills in UTXO mode: with that pool empty the leader sends no relay
  message whatever the block holds, and then clears the UTXO relay pool, so cross-shard transactions
  are dropped.\<close>

theorem utxo_relay_never_sent:
  assumes "PN_requestPool p (C_Digest c) = Some r" and "R_Content r = GobB block"
    and "AddBlock E block (PN_CurChain p) = Inr bc" and "PN_NodeID p = PN_view p"
    and "\<forall>tx \<in> set (B_UTXO block). IsCoinbase tx \<or> routable E bc (U_Recipient tx)"
    and "\<forall>sid. relay_of (Txpool bc) sid = []"
  shows "\<exists>info p'. UTXO_HandleinCommit E now c p = Inr ([(ip_of (PN_ip_nodeTable p) DeciderShard 0, MBlockInfo info)], p') \<and>
           U_RelayPool (UTXOTxpool (PN_CurChain p')) = None"
proof -
  let ?pool = "(UTXOTxpool bc)\<lparr>U_RelayPool := Some []\<rparr>"
  have "U_RelayPool ?pool \<noteq> None" by simp
  from U_classify_total [OF assms(5) this] obtain pool' ex re body where
    c: "rfold (U_classify_tx E bc (PN_ShardID p)) (B_UTXO block) (?pool, [], [], []) = Inr (pool', ex, re, body)"
    by blast
  have "U_relay_msgs (Txpool bc) pool' p = []" using assms(6) by (simp add: U_relay_msgs_def)
  with assms(1-4) c show ?thesis
    by (simp add: UTXO_HandleinCommit_def block_info_def put_chain_def mark_current_def U_ClearRelayPool_def)
qed

definition demo_cross :: UTXOTransaction where
  "demo_cross = \<lparr>U_TxId = ''id'', U_Vin = [], U_Vout = [\<lparr>Out_Value = 5, Out_PubKeyHash = ''k''\<rparr>], U_Nonce = 0,
     U_Time = 1, U_TxHash = ''x'', U_Relayed = False, U_Recipient = ''00000001''\<rparr>"

definition demo_uleader :: "(bytes \<rightharpoonup> demo_trie, demo_trie) pnode" where
  "demo_uleader = (demo_leader [])\<lparr>PN_requestPool := [''rh1'' \<mapsto> \<lparr>R_RequestType = BlockRequest,
       R_Content = GobB ((demo_block ''h0'')\<lparr>B_UTXO := [demo_cross]\<rparr>), R_ReqTime = 2\<rparr>]\<rparr>"

theorem utxo_relay_never_sent_witness:
  "\<exists>info p'. UTXO_HandleinCommit (demo_env True 2) (\<lambda>_. 5) (demo_commit 1) demo_uleader
     = Inr ([(ip_of demo_ips DeciderShard 0, MBlockInfo info)], p')"
proof -
  let ?E = "demo_env True 2" and ?b = "(demo_block ''h0'')\<lparr>B_UTXO := [demo_cross]\<rparr>"
  have "B_Hash ?b \<noteq> []" by (simp add: demo_block_def)
  from Storage_ok [OF demo_bolt_laws this, of True 2 "Storage (demo_chain 0 [])"] obtain s where
    "Storage_AddBlock ?E ?b (Storage (demo_chain 0 [])) = Inr s" by blast
  then have a: "AddBlock ?E ?b (PN_CurChain demo_uleader) = Inr ((demo_chain 0 [])\<lparr>CurrentBlock := ?b, Storage := s\<rparr>)"
    by (simp add: AddBlock_def demo_uleader_def demo_leader_node(2))
       (simp add: demo_block_def demo_chain_def demo_genesis_def)
  let ?bc = "(demo_chain 0 [])\<lparr>CurrentBlock := ?b, Storage := s\<rparr>"
  have r: "PN_requestPool demo_uleader (C_Digest (demo_commit 1)) = Some \<lparr>R_RequestType = BlockRequest,
      R_Content = GobB ?b, R_ReqTime = 2\<rparr>"
    by (simp add: demo_uleader_def demo_commit_def)
  have n: "PN_NodeID demo_uleader = PN_view demo_uleader" by (simp add: demo_uleader_def demo_leader_node(3))
  have "\<forall>tx \<in> set (B_UTXO ?b). IsCoinbase tx \<or> routable ?E ?bc (U_Recipient tx)"
    by (simp add: demo_cross_def routable_iff demo_env_def demo_chain_def valid_addr_def hexval_def)
  moreover have "\<forall>sid. relay_of (Txpool ?bc) sid = []"
    by (simp add: demo_chain_def NewTxPool_def relay_of_def)
  moreover have "PN_ip_nodeTable demo_uleader = demo_ips"
    by (simp add: demo_uleader_def demo_leader_def boot_node_def NewPbftNode_def demo_boot_new)
  ultimately show ?thesis using utxo_relay_never_sent [OF r _ a n] by fastforce
qed

end
