(* ===== verification/HotstuffProps.thy ===== *)
theory HotstuffProps
  imports Hotstuff CrossShard
begin

text \<open>
  What holds of the runs of a Sync HotStuff node: the requests it waits for are blocks that it has in
  its pool, so that a timer always commits the block of its own proposal; a round with an honest
  leader gives every node the same block; and what the missing channel does to the node.
\<close>

section \<open>Well-formed nodes\<close>

definition is_block_request :: "Request \<Rightarrow> bool" where
  "is_block_request r \<longleftrightarrow> (\<exists>b. R_Content r = GobB b)"

definition hs_ok :: "('t, 'd, 'b) env \<Rightarrow> ('d, 'b) hnode \<Rightarrow> bool" where
  "hs_ok E n \<longleftrightarrow>
     (\<forall>d r. HN_requestPool n d = Some r \<longrightarrow> sha_req E r = d) \<and>
     (\<forall>pm \<in> set (HN_waiting n). sha_req E (PR_RequestMsg pm) = PR_Digest pm \<and>
        HN_requestPool n (PR_Digest pm) \<noteq> None \<and> is_block_request (PR_RequestMsg pm))"

lemma hs_ok_cong:
  "HN_requestPool n' = HN_requestPool n \<Longrightarrow> set (HN_waiting n') \<subseteq> set (HN_waiting n) \<Longrightarrow> hs_ok E n \<Longrightarrow> hs_ok E n'"
  by (auto simp: hs_ok_def)

lemma hs_ok_put:
  assumes "hs_ok E n" and "HN_requestPool n' = (HN_requestPool n)(sha_req E r \<mapsto> r)"
    and "\<forall>pm \<in> set (HN_waiting n'). pm \<in> set (HN_waiting n) \<or>
           (PR_RequestMsg pm = r \<and> PR_Digest pm = sha_req E r \<and> is_block_request r)"
  shows "hs_ok E n'"
  using assms by (auto simp: hs_ok_def)

lemma hs_ok_new:
  "NewSyncHotstuffNode E ips d disk sid nid pcc = Inr n \<Longrightarrow> hs_ok E n"
  by (auto simp: NewSyncHotstuffNode_def res_simps hs_ok_def)

lemma SH_Commit_frame:
  "SH_Commit E now pm n = Inr (out, n') \<Longrightarrow> \<exists>bc. n' = n\<lparr>HN_CurChain := bc\<rparr>"
  by (auto simp: SH_Commit_def res_simps split: if_splits)

lemma hs_ok_consider:
  assumes "SH_consider E pm n = Inr (out, n')" and "hs_ok E n"
  shows "hs_ok E n'"
proof (cases "sha_req E (PR_RequestMsg pm) = PR_Digest pm")
  case False
  then show ?thesis using assms by (simp add: SH_consider_def)
next
  case True
  then obtain flag n1 where h: "SH_HandleinPropose E pm n = Inr (flag, n1)"
    and res: "(out, n') = (if flag then
      (SH_vote (n1\<lparr>HN_requestPool := (HN_requestPool n1)(PR_Digest pm \<mapsto> PR_RequestMsg pm),
                   HN_height2Digest := (HN_height2Digest n1)(PR_SeqID pm \<mapsto> PR_Digest pm)\<rparr>) pm,
       n1\<lparr>HN_requestPool := (HN_requestPool n1)(PR_Digest pm \<mapsto> PR_RequestMsg pm),
          HN_height2Digest := (HN_height2Digest n1)(PR_SeqID pm \<mapsto> PR_Digest pm),
          HN_waiting := HN_waiting n1 @ [pm]\<rparr>)
      else ([], n1\<lparr>HN_requestPool := (HN_requestPool n1)(PR_Digest pm \<mapsto> PR_RequestMsg pm),
                  HN_height2Digest := (HN_height2Digest n1)(PR_SeqID pm \<mapsto> PR_Digest pm)\<rparr>))"
    using assms(1) by (auto simp: SH_consider_def res_simps Let_def split: if_splits)
  from h have n1: "HN_waiting n1 = HN_waiting n" "is_block_request (PR_RequestMsg pm)"
    "HN_requestPool n1 = HN_requestPool n \<or>
     HN_requestPool n1 = (HN_requestPool n)(PR_Digest pm \<mapsto> PR_RequestMsg pm)"
    by (auto simp: SH_HandleinPropose_def is_block_request_def res_simps split: if_splits)
  have p: "HN_requestPool n' = (HN_requestPool n)(sha_req E (PR_RequestMsg pm) \<mapsto> PR_RequestMsg pm)"
    using res n1(3) True by (auto split: if_splits)
  have w: "\<forall>x \<in> set (HN_waiting n'). x \<in> set (HN_waiting n) \<or> x = pm"
    using res n1(1) by (auto split: if_splits)
  show ?thesis by (rule hs_ok_put [OF assms(2) p]) (use w True n1(2) in auto)
qed

lemma hs_ok_store_old: "hs_ok E n \<Longrightarrow> hs_ok E (fold (SH_store_old E b) xs n)"
proof (induction xs arbitrary: n)
  case Nil
  then show ?case by simp
next
  case (Cons x xs)
  have "hs_ok E (SH_store_old E b x n)"
    by (rule hs_ok_put [OF Cons.prems, of _ "snd x"]) (simp_all add: SH_store_old_def split_beta Let_def)
  then show ?case using Cons.IH by simp
qed

lemma hs_ok_message:
  assumes "SH_handleMessage E nonce clk msg n = Inr (out, n')" and "hs_ok E n"
  shows "hs_ok E n'"
proof (cases msg)
  case (MPropose pm)
  then show ?thesis using assms hs_ok_consider [of E pm n]
    by (auto simp: SH_handleMessage_def SH_handlePropose_def split: if_splits)
next
  case (MVote v)
  have c: "hs_ok E (SH_count_vote v n)"
    by (rule hs_ok_cong [OF _ _ assms(2)]) (simp_all add: SH_count_vote_def Let_def)
  have l: "hs_ok E ((SH_count_vote v n)\<lparr>HN_tcpPoolLock := True\<rparr>)" by (rule hs_ok_cong [OF _ _ c]) simp_all
  show ?thesis using assms(1) MVote c l hs_ok_consider [OF _ c]
    by (auto simp: SH_handleMessage_def SH_handleVote_def Let_def split: if_splits)
next
  case (MRequestOld rom)
  then show ?thesis using assms
    by (auto simp: SH_handleMessage_def SH_handleRequestOldSeq_def Let_def split: if_splits)
next
  case (MSendOld som)
  then obtain n1 where n1: "SH_HandleforSequentialRequest E som n = Inr n1"
    and n': "n' = (fold (SH_store_old E (SOM_SeqStartHeight som)) (enumerate 0 (SOM_OldRequest som)) n1)
      \<lparr>HN_sequenceID := SOM_SeqEndHeight som + 1, HN_askForLock := False\<rparr>"
    using assms(1) by (auto simp: SH_handleMessage_def SH_handleSendOldSeq_def res_simps Let_def split: if_splits)
  from n1 have "HN_requestPool n1 = HN_requestPool n \<and> HN_waiting n1 = HN_waiting n"
    by (auto simp: SH_HandleforSequentialRequest_def res_simps split: if_splits)
  then have "hs_ok E n1" using assms(2) by (simp add: hs_ok_def)
  then have "hs_ok E (fold (SH_store_old E (SOM_SeqStartHeight som)) (enumerate 0 (SOM_OldRequest som)) n1)"
    by (rule hs_ok_store_old)
  then show ?thesis unfolding n' by (simp add: hs_ok_def)
next
  case MStop
  then show ?thesis using assms by (auto simp: SH_handleMessage_def SH_WaitToStop_def hs_ok_def)
qed (use assms in \<open>auto simp: SH_handleMessage_def SH_HandleMessageOutsideConsensus_def SH_handleRelay_def
        SH_handleInjectTx_def Let_def hs_ok_def split: if_splits\<close>)

lemma SH_unlock_frame: "SH_unlock_sequence n = Inr n' \<Longrightarrow> \<exists>b. n' = n\<lparr>HN_sequenceLock := b\<rparr>"
  by (auto simp: SH_unlock_sequence_def split: if_splits intro: exI [of _ "HN_sequenceLock n"])

lemma SH_WaitToCommit_frame:
  assumes "SH_WaitToCommit E now pm n = Inr (out, n')"
  shows "HN_requestPool n' = HN_requestPool n \<and> HN_waiting n' = HN_waiting n"
  using assms by (auto simp: SH_WaitToCommit_def res_simps Let_def split: if_splits
      dest!: SH_Commit_frame SH_unlock_frame)

lemma hs_ok_event:
  assumes "hotstuff_event E ev n = Inr (out, n')" and "hs_ok E n"
  shows "hs_ok E n'"
proof (cases ev)
  case (HPropose now)
  then have pr: "SH_Propose E now n = Inr (out, n')" using assms(1) by (simp add: hotstuff_event_def)
  show ?thesis
  proof (cases "HN_view n = HN_NodeID n")
    case False
    then show ?thesis using pr assms(2) by (simp add: SH_Propose_def)
  next
    case True
    then obtain block bc where g: "GenerateBlock E (now 0) (HN_CurChain n) = Inr (block, bc)"
      using pr by (auto simp: SH_Propose_def res_simps split: if_splits)
    let ?r = "\<lparr>R_RequestType = BlockRequest, R_Content = GobB block, R_ReqTime = now 1\<rparr>"
    have "HN_requestPool n' = (HN_requestPool n)(sha_req E ?r \<mapsto> ?r)"
      "HN_waiting n' = HN_waiting n @
         [\<lparr>PR_RequestMsg = ?r, PR_Digest = sha_req E ?r, PR_SeqID = HN_sequenceID n\<rparr>]"
      using pr True g by (auto simp: SH_Propose_def Let_def split: if_splits)
    then show ?thesis by (intro hs_ok_put [OF assms(2)]) (auto simp: is_block_request_def)
  qed
next
  case (HTransform ch clk)
  then show ?thesis using assms
    by (auto simp: hotstuff_event_def SH_TxTransform_def res_simps split: if_splits intro: hs_ok_cong)
next
  case (HMsg msg nonce clk)
  then show ?thesis using assms hs_ok_message
    by (auto simp: hotstuff_event_def SH_handleClientRequest_def split: if_splits)
next
  case (HTimer i now)
  show ?thesis
  proof (cases "i < length (HN_waiting n)")
    case True
    let ?n = "n\<lparr>HN_waiting := take i (HN_waiting n) @ drop (Suc i) (HN_waiting n)\<rparr>"
    have "hs_ok E ?n" by (rule hs_ok_cong [OF _ _ assms(2)]) (auto dest: in_set_takeD in_set_dropD)
    moreover have "SH_WaitToCommit E now (HN_waiting n ! i) ?n = Inr (out, n')"
      using assms(1) HTimer True by (simp add: hotstuff_event_def SH_timer_def)
    ultimately show ?thesis using SH_WaitToCommit_frame hs_ok_cong by (metis order_refl)
  next
    case False
    then show ?thesis using assms HTimer by (simp add: hotstuff_event_def SH_timer_def)
  qed
qed

lemma hs_ok_run: "hrun E evs n = Inr (outs, n') \<Longrightarrow> hs_ok E n \<Longrightarrow> hs_ok E n'"
proof (induction evs arbitrary: n outs)
  case Nil
  then show ?case by simp
next
  case (Cons ev evs)
  from Cons.prems(1) obtain o1 n1 o2 where "hotstuff_event E ev n = Inr (o1, n1)" "hrun E evs n1 = Inr (o2, n')"
    by (auto simp: res_simps)
  then show ?case using Cons hs_ok_event by blast
qed

section \<open>What a timer commits\<close>

definition without :: "nat \<Rightarrow> ('d, 'b) hnode \<Rightarrow> ('d, 'b) hnode" where
  "without i n = n\<lparr>HN_waiting := take i (HN_waiting n) @ drop (Suc i) (HN_waiting n)\<rparr>"

text \<open>The node after it has committed a proposal and its chain has become \<open>bc\<close>.\<close>

definition committed :: "Propose_msg \<Rightarrow> ('d, 'b) BlockChain \<Rightarrow> ('d, 'b) hnode \<Rightarrow> ('d, 'b) hnode" where
  "committed pm bc n =
     n\<lparr>HN_CurChain := bc, HN_isReply := (HN_isReply n)(PR_Digest pm := True),
       HN_sequenceID := HN_sequenceID n + 1\<rparr>"

lemma timer_replica:
  assumes "P_UTXO E" and "i < length (HN_waiting n)" and "HN_NodeID n \<noteq> HN_view n"
    and "HN_requestPool n (PR_Digest (HN_waiting n ! i)) = Some r" and "R_Content r = GobB b"
  shows "hotstuff_event E (HTimer i now) n =
           rbind (AddBlock E b (HN_CurChain n)) (\<lambda>bc. Inr ([], committed (HN_waiting n ! i) bc (without i n)))"
  using assms
  by (cases "AddBlock E b (HN_CurChain n)")
     (simp_all add: hotstuff_event_def SH_timer_def SH_WaitToCommit_def SH_Commit_def SH_unlock_sequence_def
        committed_def without_def)

text \<open>No other request has the digest of this proposal's.\<close>

definition unique_digest :: "('t, 'd, 'b) env \<Rightarrow> Propose_msg \<Rightarrow> bool" where
  "unique_digest E pm \<longleftrightarrow> (\<forall>r. sha_req E r = PR_Digest pm \<longrightarrow> r = PR_RequestMsg pm)"

lemma waiting_pooled:
  assumes "unique_digest E pm" and "hs_ok E n" and "pm \<in> set (HN_waiting n)"
  shows "HN_requestPool n (PR_Digest pm) = Some (PR_RequestMsg pm) \<and> (\<exists>b. R_Content (PR_RequestMsg pm) = GobB b)"
proof -
  have pm: "sha_req E (PR_RequestMsg pm) = PR_Digest pm" "HN_requestPool n (PR_Digest pm) \<noteq> None"
    "is_block_request (PR_RequestMsg pm)" using assms(2,3) by (auto simp: hs_ok_def)
  then obtain r where r: "HN_requestPool n (PR_Digest pm) = Some r" by blast
  then have "sha_req E r = PR_Digest pm" using assms(2) unfolding hs_ok_def by blast
  then have "r = PR_RequestMsg pm" using assms(1) by (simp add: unique_digest_def)
  with r pm(3) show ?thesis by (simp add: is_block_request_def)
qed

text \<open>C30: whatever happens to a Sync HotStuff node, when digests do not collide, the proposals it waits for are well-formed: each one's
  request is in the pool under its digest and holds a block. So when a timer runs out on a replica
  the node adds exactly the block of that proposal, marks its digest and moves to the next sequence
  number; it never decodes something that is not a block and never asks for old requests.\<close>

theorem hotstuff_timer_commits_own_block:
  assumes "P_UTXO E" and "unique_digest E (HN_waiting n ! i)"
    and "NewSyncHotstuffNode E ips d disk sid nid pcc = Inr n0" and "hrun E evs n0 = Inr (outs, n)"
    and "i < length (HN_waiting n)" and "HN_NodeID n \<noteq> HN_view n"
  shows "\<exists>b. HN_requestPool n (PR_Digest (HN_waiting n ! i)) = Some (PR_RequestMsg (HN_waiting n ! i)) \<and>
           R_Content (PR_RequestMsg (HN_waiting n ! i)) = GobB b \<and>
           hotstuff_event E (HTimer i now) n =
             rbind (AddBlock E b (HN_CurChain n)) (\<lambda>bc. Inr ([], committed (HN_waiting n ! i) bc (without i n)))"
proof -
  have "hs_ok E n" using hs_ok_run [OF assms(4) hs_ok_new [OF assms(3)]] .
  from waiting_pooled [OF assms(2) this nth_mem [OF assms(5)]] obtain b where
    "HN_requestPool n (PR_Digest (HN_waiting n ! i)) = Some (PR_RequestMsg (HN_waiting n ! i))"
    "R_Content (PR_RequestMsg (HN_waiting n ! i)) = GobB b" by blast
  with timer_replica [OF assms(1,5,6)] show ?thesis by blast
qed

section \<open>A round\<close>

lemma AddBlock_utxo:
  assumes "bolt_laws E" and "P_UTXO E" and "B_Hash b \<noteq> []" and "B_Number b = B_Number (CurrentBlock bc) + 1"
  shows "\<exists>s. Storage_AddBlock E b (Storage bc) = Inr s \<and> AddBlock E b bc = Inr (bc\<lparr>CurrentBlock := b, Storage := s\<rparr>)"
proof -
  obtain s where "Storage_AddBlock E b (Storage bc) = Inr s" using Storage_ok [OF assms(1,3)] by blast
  then show ?thesis using assms(2,4) by (simp add: AddBlock_def)
qed

lemma GenerateBlock_utxo:
  assumes "P_UTXO E" and "GenerateBlock E now bc = Inr (b, bc')"
  shows "IsValidUTXOBlock E b bc2 = None \<longleftrightarrow> B_Hash (CurrentBlock bc2) = B_Hash (CurrentBlock bc)"
    and "B_Number b = B_Number (CurrentBlock bc) + 1" and "\<exists>h. B_Hash b = sha_bh E h"
    and "CurrentBlock bc' = CurrentBlock bc" and "PartitionMap bc' = PartitionMap bc"
    and "set (B_UTXO b) \<subseteq> set (U_TxQueue (UTXOTxpool bc))" and "U_RelayPool (UTXOTxpool bc') = U_RelayPool (UTXOTxpool bc)"
  using assms
  by (auto simp: GenerateBlock_def U_PackTxs_def NewBlock_def IsValidUTXOBlock_def Let_def
      split: if_splits prod.splits dest: in_set_takeD)

text \<open>What the leader proposes, what its timer does, and what a replica does with the proposal.\<close>

definition block_request :: "Block \<Rightarrow> go_time \<Rightarrow> Request" where
  "block_request b t = \<lparr>R_RequestType = BlockRequest, R_Content = GobB b, R_ReqTime = t\<rparr>"

definition proposal :: "('t, 'd, 'b) env \<Rightarrow> Request \<Rightarrow> u64 \<Rightarrow> Propose_msg" where
  "proposal E r k = \<lparr>PR_RequestMsg = r, PR_Digest = sha_req E r, PR_SeqID = k\<rparr>"

lemma leader_proposal:
  assumes "HN_NodeID L = HN_view L" "SH_Propose E now L = Inr (out, L1)" "(ip, MPropose pm) \<in> set out"
  obtains b bc r where "GenerateBlock E (now 0) (HN_CurChain L) = Inr (b, bc)"
    and "r = block_request b (now 1)" and "pm = proposal E r (HN_sequenceID L)"
    and "L1 = L\<lparr>HN_CurChain := bc, HN_sequenceLock := True, HN_requestPool := (HN_requestPool L)(sha_req E r \<mapsto> r),
      HN_height2Digest := (HN_height2Digest L)(HN_sequenceID L \<mapsto> sha_req E r), HN_waiting := HN_waiting L @ [pm]\<rparr>"
proof -
  have nl: "\<not> HN_sequenceLock L" using assms by (auto simp: SH_Propose_def split: if_splits)
  obtain b bc where g: "GenerateBlock E (now 0) (HN_CurChain L) = Inr (b, bc)"
    using assms(1,2) by (auto simp: SH_Propose_def res_simps split: if_splits)
  have pm: "pm = proposal E (block_request b (now 1)) (HN_sequenceID L)"
    using assms nl g
    by (auto simp: SH_Propose_def Let_def SH_broadcast_def Broadcast_def block_request_def proposal_def)
  show thesis
    by (rule that [OF g refl pm]) (use assms nl g pm in \<open>auto simp: SH_Propose_def Let_def block_request_def proposal_def\<close>)
qed

lemma leader_commits:
  assumes "bolt_laws E" and "P_UTXO E" and "B_Hash b \<noteq> []" and "HN_NodeID L = HN_view L"
    and g: "GenerateBlock E now (HN_CurChain L) = Inr (b, bc)"
    and route: "\<forall>tx \<in> set (U_TxQueue (UTXOTxpool (HN_CurChain L))).
                  IsCoinbase tx \<or> routable E (HN_CurChain L) (U_Recipient tx)"
    and r: "r = block_request b t" and pm: "pm = proposal E r k"
    and L1: "L1 = L\<lparr>HN_CurChain := bc, HN_sequenceLock := True, HN_requestPool := (HN_requestPool L)(sha_req E r \<mapsto> r),
      HN_height2Digest := h, HN_waiting := HN_waiting L @ [pm]\<rparr>"
  shows "\<exists>outL L2 s body. hotstuff_event E (HTimer (length (HN_waiting L)) nowL) L1 = Inr (outL, L2) \<and>
    Storage_AddBlock E b (Storage bc) = Inr s \<and> Storage (HN_CurChain L2) = s \<and>
    CurrentBlock (HN_CurChain L2) = b\<lparr>B_UTXO := body\<rparr> \<and>
    HN_sequenceID L2 = HN_sequenceID L + 1 \<and> \<not> HN_sequenceLock L2"
proof -
  note gen = GenerateBlock_utxo [OF assms(2) g]
  obtain s where s: "Storage_AddBlock E b (Storage bc) = Inr s"
    "AddBlock E b bc = Inr (bc\<lparr>CurrentBlock := b, Storage := s\<rparr>)"
    using AddBlock_utxo [OF assms(1-3), of bc] gen(2,4) by auto
  let ?bc = "bc\<lparr>CurrentBlock := b, Storage := s\<rparr>"
  have "\<forall>tx \<in> set (B_UTXO b). IsCoinbase tx \<or> routable E ?bc (U_Recipient tx)"
    using route gen(5,6) by (auto simp: routable_def Get_PartitionMap_def)
  from U_classify_total [OF this, of "(UTXOTxpool ?bc)\<lparr>U_RelayPool := Some []\<rparr>" "HN_ShardID L" "[]" "[]" "[]"]
  obtain pool ex re body where cl: "rfold (U_classify_tx E ?bc (HN_ShardID L)) (B_UTXO b)
      ((UTXOTxpool ?bc)\<lparr>U_RelayPool := Some []\<rparr>, [], [], []) = Inr (pool, ex, re, body)" by auto
  have acc: "accepted b bc" using gen(2,4) by (simp add: accepted_def)
  show ?thesis
    using s cl acc assms(2,4)
    by (simp add: hotstuff_event_def SH_timer_def SH_WaitToCommit_def SH_Commit_def SH_unlock_sequence_def
        L1 pm r block_request_def proposal_def mark_current_def nth_append) blast
qed

lemma replica_commits:
  assumes "bolt_laws E" and "P_UTXO E" and "B_Hash b \<noteq> []"
    and rep: "HN_NodeID R \<noteq> HN_view R" "\<not> HN_stop R" "\<not> HN_tcpPoolLock R" "HN_requestPool R (PR_Digest pm) = None"
    and r: "r = block_request b t" and pm: "pm = proposal E r k"
    and b: "IsValidUTXOBlock E b (HN_CurChain R) = None" "B_Number b = B_Number (CurrentBlock (HN_CurChain R)) + 1"
  shows "\<exists>R2 s. hrun E [HMsg (MPropose pm) nonce clk, HTimer (length (HN_waiting R)) nowR] R = Inr (SH_vote R pm, R2) \<and>
    Storage_AddBlock E b (Storage (HN_CurChain R)) = Inr s \<and>
    HN_CurChain R2 = (HN_CurChain R)\<lparr>CurrentBlock := b, Storage := s\<rparr> \<and> HN_sequenceID R2 = HN_sequenceID R + 1"
proof -
  let ?i = "length (HN_waiting R)"
  let ?R1 = "R\<lparr>HN_requestPool := (HN_requestPool R)(sha_req E r \<mapsto> r),
      HN_height2Digest := (HN_height2Digest R)(PR_SeqID pm \<mapsto> sha_req E r), HN_waiting := HN_waiting R @ [pm]\<rparr>"
  have e1: "hotstuff_event E (HMsg (MPropose pm) nonce clk) R = Inr (SH_vote R pm, ?R1)"
    using rep b(1) assms(2)
    by (simp add: hotstuff_event_def SH_handleClientRequest_def SH_handleMessage_def SH_handlePropose_def
        SH_consider_def SH_HandleinPropose_def SH_vote_def SH_broadcast_def SH_getNeighborNodes_def Let_def
        pm r block_request_def proposal_def)
  obtain s where s: "Storage_AddBlock E b (Storage (HN_CurChain R)) = Inr s"
    "AddBlock E b (HN_CurChain R) = Inr ((HN_CurChain R)\<lparr>CurrentBlock := b, Storage := s\<rparr>)"
    using AddBlock_utxo [OF assms(1-3) b(2)] by blast
  have "HN_requestPool ?R1 (PR_Digest (HN_waiting ?R1 ! ?i)) = Some r" by (simp add: pm proposal_def)
  then have "hotstuff_event E (HTimer ?i nowR) ?R1 =
      Inr ([], committed (HN_waiting ?R1 ! ?i) ((HN_CurChain R)\<lparr>CurrentBlock := b, Storage := s\<rparr>) (without ?i ?R1))"
    using timer_replica [OF assms(2), of ?i ?R1 r b nowR] rep(1) s(2) by (simp add: r block_request_def)
  with e1 s(1) show ?thesis by (simp add: committed_def without_def)
qed


section \<open>The missing channel\<close>

lemma locked_run:
  assumes "HN_tcpPoolLock n" and "HN_waiting n = []" and "HN_NodeID n \<noteq> HN_view n"
  shows "hrun E evs n = Inr ([], n)"
proof (induction evs)
  case Nil
  then show ?case by simp
next
  case (Cons ev evs)
  have "hotstuff_event E ev n = Inr ([], n)"
    using assms by (cases ev) (auto simp: hotstuff_event_def SH_Propose_def SH_TxTransform_def
        SH_handleClientRequest_def SH_timer_def)
  with Cons show ?case by simp
qed

lemma handleVote_locks:
  assumes "HN_NodeID n \<noteq> HN_view n" and "\<not> HN_stop n" and "\<not> HN_tcpPoolLock n"
    and "V_SeqID v = HN_sequenceID n" and "V_Digest v \<noteq> SH_digest_at n (HN_sequenceID n)"
  shows "hotstuff_event E (HMsg (MVote v) nonce clk) n = Inr ([], n\<lparr>HN_tcpPoolLock := True\<rparr>)"
  using assms by (simp add: hotstuff_event_def SH_handleClientRequest_def SH_handleMessage_def SH_handleVote_def
      SH_count_vote_def)

text \<open>C38: an equivocating vote does not stop the commit it is meant to stop. A replica that waits to
  commit a proposal for the current height and receives a vote for another digest at that height
  handles no message any more, and still adds the block when the timer runs out: \<^verbatim>\<open>pBreak\<close> is never
  made, so the interrupt goes to nobody and the sender hangs with \<^verbatim>\<open>tcpPoolLock\<close>.\<close>

theorem hotstuff_equivocation_does_not_stop_commit:
  assumes "P_UTXO E" and "unique_digest E (HN_waiting n ! i)"
    and "NewSyncHotstuffNode E ips d disk sid nid pcc = Inr n0" and "hrun E evs n0 = Inr (outs, n)"
    and "i < length (HN_waiting n)" and "HN_NodeID n \<noteq> HN_view n" and "\<not> HN_stop n" and "\<not> HN_tcpPoolLock n"
    and "V_SeqID v = HN_sequenceID n" and "V_Digest v \<noteq> SH_digest_at n (HN_sequenceID n)"
  shows "\<exists>n1 b. hotstuff_event E (HMsg (MVote v) nonce clk) n = Inr ([], n1) \<and>
           (\<forall>msg nonce' clk'. hotstuff_event E (HMsg msg nonce' clk') n1 = Inr ([], n1)) \<and>
           R_Content (PR_RequestMsg (HN_waiting n ! i)) = GobB b \<and>
           hotstuff_event E (HTimer i now) n1 =
             rbind (AddBlock E b (HN_CurChain n)) (\<lambda>bc. Inr ([], committed (HN_waiting n ! i) bc (without i n1)))"
proof -
  let ?n1 = "n\<lparr>HN_tcpPoolLock := True\<rparr>"
  have "hs_ok E n" using hs_ok_run [OF assms(4) hs_ok_new [OF assms(3)]] .
  from waiting_pooled [OF assms(2) this nth_mem [OF assms(5)]] obtain b where
    b: "HN_requestPool n (PR_Digest (HN_waiting n ! i)) = Some (PR_RequestMsg (HN_waiting n ! i))"
      "R_Content (PR_RequestMsg (HN_waiting n ! i)) = GobB b" by blast
  have t: "hotstuff_event E (HTimer i now) ?n1 =
      rbind (AddBlock E b (HN_CurChain n)) (\<lambda>bc. Inr ([], committed (HN_waiting n ! i) bc (without i ?n1)))"
    using timer_replica [OF assms(1), of i ?n1 "PR_RequestMsg (HN_waiting n ! i)" b now] assms(5,6) b by simp
  have m: "\<forall>msg nonce' clk'. hotstuff_event E (HMsg msg nonce' clk') ?n1 = Inr ([], ?n1)"
    by (simp add: hotstuff_event_def SH_handleClientRequest_def)
  show ?thesis by (intro exI [of _ ?n1] exI [of _ b] conjI handleVote_locks assms m b t)
qed

text \<open>C39: a vote that overtakes its proposal stops a replica for good. A replica that has not yet seen the
  proposal for its current height takes any vote for that height as equivocation; from then on
  no event changes it, in particular it never commits the proposal.\<close>

theorem hotstuff_early_vote_stops_replica:
  assumes "HN_NodeID n \<noteq> HN_view n" and "\<not> HN_stop n" and "\<not> HN_tcpPoolLock n" and "HN_waiting n = []"
    and "HN_height2Digest n (HN_sequenceID n) = None"
    and "V_SeqID v = HN_sequenceID n" and "V_Digest v \<noteq> []"
  shows "hrun E (HMsg (MVote v) nonce clk # evs) n = Inr ([], n\<lparr>HN_tcpPoolLock := True\<rparr>)"
proof -
  have "V_Digest v \<noteq> SH_digest_at n (HN_sequenceID n)" using assms(5,7) by (simp add: SH_digest_at_def)
  then have "hotstuff_event E (HMsg (MVote v) nonce clk) n = Inr ([], n\<lparr>HN_tcpPoolLock := True\<rparr>)"
    using handleVote_locks assms by blast
  moreover have "hrun E evs (n\<lparr>HN_tcpPoolLock := True\<rparr>) = Inr ([], n\<lparr>HN_tcpPoolLock := True\<rparr>)"
    by (rule locked_run) (use assms in simp_all)
  ultimately show ?thesis by simp
qed

text \<open>A proposal that is not valid is put into the pool all the same; when it is delivered a second time
  the node votes for it.\<close>

lemma hotstuff_votes_for_invalid_block:
  assumes "P_UTXO E" and "sha_req E (PR_RequestMsg pm) = PR_Digest pm" and "R_Content (PR_RequestMsg pm) = GobB b"
    and "IsValidUTXOBlock E b (HN_CurChain n) \<noteq> None" and "HN_requestPool n (PR_Digest pm) = None"
  shows "\<exists>n1. SH_handlePropose E pm n = Inr ([], n1) \<and> SH_handlePropose E pm n1 = Inr (SH_vote n1 pm, n1)"
  using assms by (simp add: SH_handlePropose_def SH_consider_def SH_HandleinPropose_def Let_def)

section \<open>Examples\<close>

text \<open>A shard of four nodes on a fresh disk; its first block is empty.\<close>

definition hs_block :: Block where
  "hs_block = \<lparr>B_Header = \<lparr>BH_ParentBlockHash = ''h'' @ [CHR 0x00], BH_StateRoot = [], BH_TxRoot = ''e'',
     BH_Number = 1, BH_Time = 1, BH_Miner = 0\<rparr>, B_Body = [], B_UTXO = [], B_Hash = ''h1''\<rparr>"

definition hs_pm :: Propose_msg where
  "hs_pm = \<lparr>PR_RequestMsg = \<lparr>R_RequestType = BlockRequest, R_Content = GobB hs_block, R_ReqTime = 2\<rparr>,
     PR_Digest = ''x'', PR_SeqID = 1\<rparr>"

definition hs_env :: "(demo_trie, bytes \<rightharpoonup> demo_trie, demo_trie) env" where
  "hs_env = (demo_env True 2)\<lparr>sha_req := (\<lambda>r. if r = PR_RequestMsg hs_pm then ''x'' else ''y'')\<rparr>"

lemma hs_env_facts:
  "P_UTXO hs_env" "bolt_laws hs_env" "unique_digest hs_env hs_pm" "sha_req hs_env (PR_RequestMsg hs_pm) = ''x''"
  "sha_bh hs_env h \<noteq> []"
  using demo_bolt_laws [of True 2]
  by (simp_all add: hs_env_def bolt_laws_def unique_digest_def hs_pm_def) (simp_all add: demo_env_def)

definition hs_chain :: "(bytes \<rightharpoonup> demo_trie, demo_trie) BlockChain" where
  "hs_chain = (case NewBlockChain hs_env (ChainConfig (demo_chain 0 [])) Map.empty (\<lambda>_. None) of
                 Inr bc \<Rightarrow> bc | Inl _ \<Rightarrow> demo_chain 0 [])"

definition hs_node :: "u64 \<Rightarrow> (bytes \<rightharpoonup> demo_trie, demo_trie) hnode" where
  "hs_node i = (case NewSyncHotstuffNode hs_env demo_ips Map.empty (\<lambda>_. None) 0 i (ChainConfig (demo_chain 0 []))
                of Inr n \<Rightarrow> n)"

lemma hs_chain_new:
  "NewBlockChain hs_env (ChainConfig (demo_chain 0 [])) Map.empty (\<lambda>_. None) = Inr hs_chain"
proof -
  have "\<exists>bc. NewBlockChain hs_env (ChainConfig (demo_chain 0 [])) Map.empty (\<lambda>_. None) = Inr bc"
    by (rule NewBlockChain_first_run [OF hs_env_facts(2,5)])
  then show ?thesis unfolding hs_chain_def by (auto split: sum.splits)
qed

lemma hs_tip: "B_Number (CurrentBlock hs_chain) = 0" "B_Hash (CurrentBlock hs_chain) = ''h'' @ [CHR 0x00]"
  "U_TxQueue (UTXOTxpool hs_chain) = []"
proof -
  obtain gb bc1 where g: "NewGenisisBlock hs_env (blank_chain hs_env (ChainConfig (demo_chain 0 [])) Map.empty) = (gb, bc1)"
    by fastforce
  have gb: "B_Number gb = 0" "B_Hash gb = ''h'' @ [CHR 0x00]" "UTXOTxpool bc1 = NewUTXOTxPool"
    using g by (auto simp: NewGenisisBlock_def hs_env_def demo_env_def NewBlock_def blank_chain_def Let_def char_of_def)
  have add: "AddGenisisBlock hs_env gb bc1 = Inr hs_chain"
    using hs_chain_new g by (simp add: NewBlockChain_empty [OF hs_env_facts(2)])
  then obtain s where "Storage_AddBlock hs_env gb (Storage bc1) = Inr s" by (auto simp: AddGenisisBlock_def res_simps)
  with add Storage_AddBlock_get [OF hs_env_facts(2) this]
  have c: "hs_chain = bc1\<lparr>Storage := s, CurrentBlock := gb\<rparr>" by (simp add: AddGenisisBlock_def must_be_def)
  show "B_Number (CurrentBlock hs_chain) = 0" "B_Hash (CurrentBlock hs_chain) = ''h'' @ [CHR 0x00]"
    "U_TxQueue (UTXOTxpool hs_chain) = []" unfolding c using gb by (simp_all add: NewUTXOTxPool_def)
qed

lemma hs_node_new:
  "NewSyncHotstuffNode hs_env demo_ips Map.empty (\<lambda>_. None) 0 i (ChainConfig (demo_chain 0 [])) = Inr (hs_node i)"
  "HN_CurChain (hs_node i) = hs_chain" "HN_NodeID (hs_node i) = i" "HN_view (hs_node i) = 0"
  "HN_sequenceID (hs_node i) = 1" "HN_waiting (hs_node i) = []" "HN_requestPool (hs_node i) = Map.empty"
  "\<not> HN_stop (hs_node i)" "\<not> HN_tcpPoolLock (hs_node i)" "HN_height2Digest (hs_node i) = Map.empty"
  "\<not> HN_sequenceLock (hs_node i)" "HN_ip_nodeTable (hs_node i) = demo_ips" "HN_ShardID (hs_node i) = 0"
  "N_IPaddr (HN_RunningNode (hs_node i)) = ip_of demo_ips 0 i"
  by (simp_all add: hs_node_def NewSyncHotstuffNode_def hs_chain_new hs_tip)


text \<open>Node 1 after the proposal of the first block, and a vote for another digest at the same height.\<close>

definition hs_waiting :: "(bytes \<rightharpoonup> demo_trie, demo_trie) hnode" where
  "hs_waiting = (hs_node 1)\<lparr>HN_requestPool := (HN_requestPool (hs_node 1))(''x'' \<mapsto> PR_RequestMsg hs_pm),
     HN_height2Digest := (HN_height2Digest (hs_node 1))(1 \<mapsto> ''x''), HN_waiting := HN_waiting (hs_node 1) @ [hs_pm]\<rparr>"

definition hs_other :: Vote where
  "hs_other = \<lparr>V_RequestMsg = PR_RequestMsg hs_pm, V_Digest = ''z'', V_SeqID = 1,
     V_SenderNode = \<lparr>N_NodeID = 2, N_ShardID = 0, N_IPaddr = ''a2''\<rparr>\<rparr>"

lemma hs_other_simps [simp]: "V_SeqID hs_other = 1" "V_Digest hs_other = ''z''" by (simp_all add: hs_other_def)

lemma hs_valid: "IsValidUTXOBlock hs_env hs_block hs_chain = None"
  using hs_tip by (simp add: IsValidUTXOBlock_def GetUTXOTxTreeRoot_def hs_block_def hs_env_def demo_env_def)

lemma hs_pm_simps [simp]: "PR_Digest hs_pm = ''x''" "PR_SeqID hs_pm = 1" "R_Content (PR_RequestMsg hs_pm) = GobB hs_block"
  "R_RequestType (PR_RequestMsg hs_pm) = BlockRequest"
  by (simp_all add: hs_pm_def)

lemma hs_waiting_run:
  "hrun hs_env [HMsg (MPropose hs_pm) (\<lambda>_. 0) (\<lambda>_. 0)] (hs_node 1) = Inr (SH_vote (hs_node 1) hs_pm, hs_waiting)"
  using hs_node_new(2-) [of 1] hs_valid hs_env_facts
  by (simp add: hotstuff_event_def SH_handleClientRequest_def SH_handleMessage_def SH_handlePropose_def
      SH_consider_def SH_HandleinPropose_def SH_vote_def SH_broadcast_def SH_getNeighborNodes_def Let_def hs_waiting_def)

lemma hs_waiting_simps [simp]:
  "HN_waiting hs_waiting = [hs_pm]" "HN_NodeID hs_waiting = 1" "HN_view hs_waiting = 0" "HN_sequenceID hs_waiting = 1"
  "\<not> HN_stop hs_waiting" "\<not> HN_tcpPoolLock hs_waiting" "SH_digest_at hs_waiting 1 = ''x''"
  "HN_CurChain hs_waiting = hs_chain"
  using hs_node_new(2-) [of 1] by (simp_all add: hs_waiting_def SH_digest_at_def)

theorem hotstuff_timer_commits_own_block_witness:
  "\<exists>b. R_Content (PR_RequestMsg hs_pm) = GobB b \<and>
     hotstuff_event hs_env (HTimer 0 (\<lambda>_. 9)) hs_waiting =
       rbind (AddBlock hs_env b hs_chain) (\<lambda>bc. Inr ([], committed hs_pm bc (without 0 hs_waiting)))"
  using hotstuff_timer_commits_own_block [OF hs_env_facts(1) _ hs_node_new(1) hs_waiting_run, of 0 "\<lambda>_. 9"] hs_env_facts(3)
  by auto

theorem hotstuff_equivocation_does_not_stop_commit_witness:
  "\<exists>n1 b. hotstuff_event hs_env (HMsg (MVote hs_other) (\<lambda>_. 0) (\<lambda>_. 0)) hs_waiting = Inr ([], n1) \<and>
     R_Content (PR_RequestMsg hs_pm) = GobB b \<and>
     hotstuff_event hs_env (HTimer 0 (\<lambda>_. 9)) n1 =
       rbind (AddBlock hs_env b hs_chain) (\<lambda>bc. Inr ([], committed hs_pm bc (without 0 n1)))"
  using hotstuff_equivocation_does_not_stop_commit [OF hs_env_facts(1) _ hs_node_new(1) hs_waiting_run,
      of 0 hs_other "\<lambda>_. 0" "\<lambda>_. 0" "\<lambda>_. 9"] hs_env_facts(3)
  by fastforce

theorem hotstuff_early_vote_stops_replica_witness:
  "hrun hs_env [HMsg (MVote hs_other) (\<lambda>_. 0) (\<lambda>_. 0), HMsg (MPropose hs_pm) (\<lambda>_. 0) (\<lambda>_. 0), HTimer 0 (\<lambda>_. 9)] (hs_node 1)
     = Inr ([], (hs_node 1)\<lparr>HN_tcpPoolLock := True\<rparr>)"
  by (rule hotstuff_early_vote_stops_replica) (simp_all add: hs_node_new(2-))


lemma hs_leader_proposes:
  "\<exists>out L1 pm. SH_Propose hs_env (\<lambda>_. 1) (hs_node 0) = Inr (out, L1) \<and> (''a1'', MPropose pm) \<in> set out"
proof -
  obtain b bc where "GenerateBlock hs_env 1 hs_chain = Inr (b, bc)"
    using hs_env_facts(1) by (simp add: GenerateBlock_def Let_def split_beta)
  then show ?thesis
    by (auto simp: SH_Propose_def Let_def hs_node_new SH_broadcast_def Broadcast_def SH_getNeighborNodes_def
        ip_of_def demo_ips_def)
qed


end
