(* ===== verification/Partition.thy ===== *)
theory Partition
  imports Utils
begin

text \<open>
  The graph partition of the CLPA mechanism (\<^verbatim>\<open>src/partition/graph.go\<close>,
  \<^verbatim>\<open>src/partition/partition_CLPA.go\<close>): the graph of accounts and transactions, the state of the
  constrained label propagation algorithm, its initial partitions and the algorithm itself.

  \<^item> A Go \<^verbatim>\<open>int\<close> is an \<open>int\<close>: all values are counts of vertices and edges, which stay
    far below the 64-bit range. Slices of counters are lists, and an index outside of them panics.
  \<^item> \<^verbatim>\<open>float64\<close> arithmetic is an argument, the record \<open>floatops\<close> of the operations the program
    uses; no theorem depends on what they compute, so rounding, infinities and NaN are covered.
  \<^item> The order in which a range statement visits the vertices may differ from one pass to the
    next: \<^verbatim>\<open>CLPA_Partition\<close> takes the order of each pass as an argument.
\<close>

section \<open>The graph\<close>

record Vertex =
  V_Addr :: string

record Graph =
  G_VertexSet :: "(Vertex, bool) gomap"
  G_EdgeSet :: "(Vertex, Vertex list) gomap option"

definition ConstructVertex :: "string \<Rightarrow> Vertex \<Rightarrow> Vertex" where
  "ConstructVertex s v = v\<lparr>V_Addr := s\<rparr>"

text \<open>Reading a missing key, of a nil map too, gives the nil slice.\<close>

definition adj :: "Graph \<Rightarrow> Vertex \<Rightarrow> Vertex list" where
  "adj g v = (case G_EdgeSet g of
      None \<Rightarrow> []
    | Some m \<Rightarrow> (case gget m v of None \<Rightarrow> [] | Some l \<Rightarrow> l))"

definition edge_list :: "Graph \<Rightarrow> (Vertex, Vertex list) gomap" where
  "edge_list g = (case G_EdgeSet g of None \<Rightarrow> [] | Some m \<Rightarrow> m)"

definition G_AddVertex :: "Vertex \<Rightarrow> Graph \<Rightarrow> Graph" where
  "G_AddVertex v g = g\<lparr>G_VertexSet := gput v True (G_VertexSet g)\<rparr>"

definition put_edge :: "Vertex \<Rightarrow> Vertex \<Rightarrow> Graph \<Rightarrow> Graph" where
  "put_edge u v g = g\<lparr>G_EdgeSet := Some (gput u (adj g u @ [v]) (edge_list g))\<rparr>"

definition G_AddEdge :: "Vertex \<Rightarrow> Vertex \<Rightarrow> Graph \<Rightarrow> Graph" where
  "G_AddEdge u v g =
     (let g = (if gget (G_VertexSet g) u = None then G_AddVertex u g else g);
          g = (if gget (G_VertexSet g) v = None then G_AddVertex v g else g)
      in put_edge v u (put_edge u v g))"

definition CopyGraph :: "Graph \<Rightarrow> Graph \<Rightarrow> Graph" where
  "CopyGraph dst src =
     (let dst = dst\<lparr>G_VertexSet := map (\<lambda>(v, b). (v, True)) (G_VertexSet src)\<rparr>
      in case G_EdgeSet src of
           None \<Rightarrow> dst
         | Some m \<Rightarrow> dst\<lparr>G_EdgeSet := Some (map (\<lambda>(v, b). (v, adj src v)) (G_VertexSet src))\<rparr>)"

section \<open>The state of the algorithm\<close>

record 'f floatops =
  F_of_int :: "int \<Rightarrow> 'f"
  F_div :: "'f \<Rightarrow> 'f \<Rightarrow> 'f"
  F_mul :: "'f \<Rightarrow> 'f \<Rightarrow> 'f"
  F_sub :: "'f \<Rightarrow> 'f \<Rightarrow> 'f"
  F_add :: "'f \<Rightarrow> 'f \<Rightarrow> 'f"
  F_less :: "'f \<Rightarrow> 'f \<Rightarrow> bool"

record 'f CLPAState =
  CS_NetGraph :: Graph
  CS_PartitionMap :: "(Vertex, int) gomap"
  CS_Edges2Shard :: "int list"
  CS_VertexsNumInShard :: "int list"
  CS_WeightPenalty :: 'f
  CS_MinEdges2Shard :: int
  CS_MaxIterations :: int
  CS_CrossShardEdgeNum :: int
  CS_ShardNum :: int
  CS_GraphHash :: bytes

text \<open>\<^verbatim>\<open>cs.PartitionMap[v]\<close> is 0 for a vertex that has no entry.\<close>

definition shard_of :: "(Vertex, int) gomap \<Rightarrow> Vertex \<Rightarrow> int" where
  "shard_of m v = (case gget m v of None \<Rightarrow> 0 | Some s \<Rightarrow> s)"

definition make_ints :: "int \<Rightarrow> int list res" where
  "make_ints n = (if n < 0 then Inl (Panic ''makeslice: len out of range'')
                  else Inr (replicate (nat n) 0))"

definition index_int :: "int list \<Rightarrow> int \<Rightarrow> int res" where
  "index_int xs i = (if 0 \<le> i \<and> i < int (length xs) then Inr (xs ! nat i)
                     else Inl (Panic ''index out of range''))"

definition bump :: "int \<Rightarrow> int \<Rightarrow> int list \<Rightarrow> int list res" where
  "bump i d xs = rbind (index_int xs i) (\<lambda>x. Inr (xs[nat i := x + d]))"

definition Init_CLPAState :: "'f \<Rightarrow> int \<Rightarrow> int \<Rightarrow> 'f CLPAState \<Rightarrow> 'f CLPAState res" where
  "Init_CLPAState wp mIter sn cs =
     rbind (make_ints sn) (\<lambda>vs.
       Inr (cs\<lparr>CS_WeightPenalty := wp, CS_MaxIterations := mIter, CS_ShardNum := sn,
               CS_VertexsNumInShard := vs, CS_PartitionMap := []\<rparr>))"

text \<open>\<open>gsn\<close> is the global \<^verbatim>\<open>params.ShardNum\<close> that \<^verbatim>\<open>utils.Addr2Shard\<close> reads.\<close>

definition CLPA_AddVertex :: "int \<Rightarrow> Vertex \<Rightarrow> 'f CLPAState \<Rightarrow> 'f CLPAState res" where
  "CLPA_AddVertex gsn v cs =
     (let cs = cs\<lparr>CS_NetGraph := G_AddVertex v (CS_NetGraph cs)\<rparr>
      in rbind (case gget (CS_PartitionMap cs) v of
                  None \<Rightarrow> Addr2Shard gsn (V_Addr v)
                | Some val \<Rightarrow> Inr val)
           (\<lambda>val. let cs = cs\<lparr>CS_PartitionMap := gput v val (CS_PartitionMap cs)\<rparr>
                  in rbind (bump (shard_of (CS_PartitionMap cs) v) 1 (CS_VertexsNumInShard cs))
                       (\<lambda>vs. Inr (cs\<lparr>CS_VertexsNumInShard := vs\<rparr>))))"

definition CLPA_AddEdge :: "int \<Rightarrow> Vertex \<Rightarrow> Vertex \<Rightarrow> 'f CLPAState \<Rightarrow> 'f CLPAState res" where
  "CLPA_AddEdge gsn u v cs =
     rbind (if gget (G_VertexSet (CS_NetGraph cs)) u = None then CLPA_AddVertex gsn u cs else Inr cs)
       (\<lambda>cs. rbind (if gget (G_VertexSet (CS_NetGraph cs)) v = None
                    then CLPA_AddVertex gsn v cs else Inr cs)
          (\<lambda>cs. Inr (cs\<lparr>CS_NetGraph := G_AddEdge u v (CS_NetGraph cs)\<rparr>)))"

definition EraseEdges :: "'f CLPAState \<Rightarrow> 'f CLPAState" where
  "EraseEdges cs = cs\<lparr>CS_NetGraph := (CS_NetGraph cs)\<lparr>G_EdgeSet := Some []\<rparr>\<rparr>"

text \<open>\<^verbatim>\<open>CopyCLPA\<close>: the built-in \<^verbatim>\<open>copy\<close> stops at the shorter slice. The number of cross-shard
  edges and the hash are not copied.\<close>

definition CopyCLPA :: "'f CLPAState \<Rightarrow> 'f CLPAState \<Rightarrow> 'f CLPAState res" where
  "CopyCLPA dst src =
     rbind (make_ints (CS_ShardNum src)) (\<lambda>es.
       Inr (dst\<lparr>CS_NetGraph := CopyGraph (CS_NetGraph dst) (CS_NetGraph src),
                CS_PartitionMap := map (\<lambda>(v, s). (v, shard_of (CS_PartitionMap src) v)) (CS_PartitionMap src),
                CS_Edges2Shard := take (length es) (CS_Edges2Shard src)
                                    @ drop (length (CS_Edges2Shard src)) es,
                CS_VertexsNumInShard := CS_VertexsNumInShard src,
                CS_WeightPenalty := CS_WeightPenalty src,
                CS_MinEdges2Shard := CS_MinEdges2Shard src,
                CS_MaxIterations := CS_MaxIterations src,
                CS_ShardNum := CS_ShardNum src\<rparr>))"

section \<open>The weights of the shards\<close>

text \<open>The loop that lowers \<^verbatim>\<open>MinEdges2Shard\<close> to the least entry.\<close>

definition min_edges :: "int \<Rightarrow> int list \<Rightarrow> int" where
  "min_edges init vals = fold (\<lambda>val m. if m > val then val else m) vals init"

text \<open>The body of the loop over the neighbours \<open>u\<close> of a vertex in shard \<open>vShard\<close>: the state is
  \<^verbatim>\<open>Edges2Shard\<close> with \<^verbatim>\<open>interEdge\<close>.\<close>

definition count_edge ::
    "(Vertex, int) gomap \<Rightarrow> int \<Rightarrow> Vertex \<Rightarrow> int list \<times> int list \<Rightarrow> (int list \<times> int list) res" where
  "count_edge pm vShard u st =
     (let uShard = shard_of pm u
      in if vShard \<noteq> uShard
         then rbind (bump uShard 1 (fst st)) (\<lambda>es. Inr (es, snd st))
         else rbind (bump uShard 1 (snd st)) (\<lambda>inter. Inr (fst st, inter)))"

definition count_vertex ::
    "(Vertex, int) gomap \<Rightarrow> Vertex \<times> Vertex list \<Rightarrow> int list \<times> int list
      \<Rightarrow> (int list \<times> int list) res" where
  "count_vertex pm e st = rfold (count_edge pm (shard_of pm (fst e))) (snd e) st"

definition ComputeEdges2Shard :: "'f CLPAState \<Rightarrow> 'f CLPAState res" where
  "ComputeEdges2Shard cs =
     rbind (make_ints (CS_ShardNum cs)) (\<lambda>z.
       rbind (rfold (count_vertex (CS_PartitionMap cs)) (edge_list (CS_NetGraph cs)) (z, z))
         (\<lambda>(es, inter).
           let cross = sum_list es sdiv 2;
               es = map2 (\<lambda>e i. e + i sdiv 2) es inter
           in Inr (cs\<lparr>CS_Edges2Shard := es, CS_CrossShardEdgeNum := cross,
                      CS_MinEdges2Shard := min_edges 0x7fffffff es\<rparr>)))"

text \<open>\<^verbatim>\<open>changeShardRecompute\<close>: the state of its loop is \<^verbatim>\<open>Edges2Shard\<close> with
  \<^verbatim>\<open>CrossShardEdgeNum\<close>.\<close>

definition move_edge ::
    "(Vertex, int) gomap \<Rightarrow> int \<Rightarrow> int \<Rightarrow> Vertex \<Rightarrow> int list \<times> int \<Rightarrow> (int list \<times> int) res" where
  "move_edge pm new old u st =
     (let neighborShard = shard_of pm u
      in if neighborShard \<noteq> new \<and> neighborShard \<noteq> old
         then rbind (bump new 1 (fst st)) (\<lambda>es. rbind (bump old (-1) es) (\<lambda>es. Inr (es, snd st)))
         else if neighborShard = new
         then rbind (bump old (-1) (fst st)) (\<lambda>es. Inr (es, snd st - 1))
         else rbind (bump new 1 (fst st)) (\<lambda>es. Inr (es, snd st + 1)))"

definition changeShardRecompute :: "Vertex \<Rightarrow> int \<Rightarrow> 'f CLPAState \<Rightarrow> 'f CLPAState res" where
  "changeShardRecompute v old cs =
     rbind (rfold (move_edge (CS_PartitionMap cs) (shard_of (CS_PartitionMap cs) v) old)
              (adj (CS_NetGraph cs) v) (CS_Edges2Shard cs, CS_CrossShardEdgeNum cs))
       (\<lambda>(es, cross).
          Inr (cs\<lparr>CS_Edges2Shard := es, CS_CrossShardEdgeNum := cross,
                  CS_MinEdges2Shard := min_edges 0x7ffffffff es\<rparr>))"

section \<open>Initial partitions\<close>

text \<open>\<^verbatim>\<open>strconv.ParseInt(s, 16, 64)\<close> accepts a sign.\<close>

definition ParseInt16 :: "string \<Rightarrow> int option" where
  "ParseInt16 s =
     (let (neg, ds) = (case s of
            c # cs \<Rightarrow> if c = CHR ''-'' then (True, cs) else if c = CHR ''+'' then (False, cs) else (False, s)
          | [] \<Rightarrow> (False, s))
      in if ds = [] then None
         else case parse_hex 0 ds of
                None \<Rightarrow> None
              | Some n \<Rightarrow> if neg then (if int n \<le> 2 ^ 63 then Some (- int n) else None)
                          else (if int n < 2 ^ 63 then Some (int n) else None))"

definition init_vertex :: "Vertex \<times> bool \<Rightarrow> 'f CLPAState \<Rightarrow> 'f CLPAState res" where
  "init_vertex e cs =
     (let v = fst e; addr = V_Addr v
      in if length addr < 8 then Inl (Panic ''slice bounds out of range'')
         else rbind (opt_or (Panic ''strconv.ParseInt'') (ParseInt16 (drop (length addr - 8) addr)))
           (\<lambda>num. if CS_ShardNum cs = 0 then Inl (Panic ''integer divide by zero'')
              else let cs = cs\<lparr>CS_PartitionMap := gput v (num smod CS_ShardNum cs) (CS_PartitionMap cs)\<rparr>
                   in rbind (bump (shard_of (CS_PartitionMap cs) v) 1 (CS_VertexsNumInShard cs))
                        (\<lambda>vs. Inr (cs\<lparr>CS_VertexsNumInShard := vs\<rparr>))))"

definition Init_Partition :: "'f CLPAState \<Rightarrow> 'f CLPAState res" where
  "Init_Partition cs =
     rbind (make_ints (CS_ShardNum cs)) (\<lambda>vs.
       rbind (rfold init_vertex (G_VertexSet (CS_NetGraph cs))
                (cs\<lparr>CS_VertexsNumInShard := vs, CS_PartitionMap := []\<rparr>))
         ComputeEdges2Shard)"

definition stable_vertex :: "Vertex \<times> bool \<Rightarrow> 'f CLPAState \<times> int \<Rightarrow> ('f CLPAState \<times> int) res" where
  "stable_vertex e st =
     (let v = fst e; cs = fst st; cnt = snd st
      in if CS_ShardNum cs = 0 then Inl (Panic ''integer divide by zero'')
         else let cs = cs\<lparr>CS_PartitionMap := gput v (cnt smod CS_ShardNum cs) (CS_PartitionMap cs)\<rparr>
              in rbind (bump (shard_of (CS_PartitionMap cs) v) 1 (CS_VertexsNumInShard cs))
                   (\<lambda>vs. Inr (cs\<lparr>CS_VertexsNumInShard := vs\<rparr>, cnt + 1)))"

text \<open>\<^verbatim>\<open>Stable_Init_Partition\<close>: the flag tells whether the error is nil.\<close>

definition Stable_Init_Partition :: "'f CLPAState \<Rightarrow> (bool \<times> 'f CLPAState) res" where
  "Stable_Init_Partition cs =
     (if CS_ShardNum cs > int (length (G_VertexSet (CS_NetGraph cs))) then Inr (False, cs)
      else rbind (make_ints (CS_ShardNum cs)) (\<lambda>vs.
        rbind (rfold stable_vertex (G_VertexSet (CS_NetGraph cs))
                 (cs\<lparr>CS_VertexsNumInShard := vs, CS_PartitionMap := []\<rparr>, 0))
          (\<lambda>(cs, cnt). rbind (ComputeEdges2Shard cs) (\<lambda>cs. Inr (True, cs)))))"

section \<open>The algorithm\<close>

definition getShard_score :: "'f floatops \<Rightarrow> Vertex \<Rightarrow> int \<Rightarrow> 'f CLPAState \<Rightarrow> 'f res" where
  "getShard_score fo v uShard cs =
     (let v_outdegree = int (length (adj (CS_NetGraph cs) v));
          Edgesto_uShard = int (length (filter (\<lambda>item. shard_of (CS_PartitionMap cs) item = uShard)
                                          (adj (CS_NetGraph cs) v)))
      in rbind (index_int (CS_Edges2Shard cs) uShard) (\<lambda>e.
           Inr (F_mul fo (F_div fo (F_of_int fo Edgesto_uShard) (F_of_int fo v_outdegree))
                  (F_sub fo (F_of_int fo 1)
                     (F_div fo (F_mul fo (CS_WeightPenalty cs) (F_of_int fo e))
                        (F_of_int fo (CS_MinEdges2Shard cs)))))))"

text \<open>The loop over the neighbours: the state is \<^verbatim>\<open>neighborShardScore\<close>, \<^verbatim>\<open>max_score\<close> and
  \<^verbatim>\<open>max_scoreShard\<close>.\<close>

definition score_neighbor ::
    "'f floatops \<Rightarrow> Vertex \<Rightarrow> 'f CLPAState \<Rightarrow> Vertex \<Rightarrow> (int \<rightharpoonup> 'f) \<times> 'f \<times> int
      \<Rightarrow> ((int \<rightharpoonup> 'f) \<times> 'f \<times> int) res" where
  "score_neighbor fo v cs u st =
     (let (scores, max_score, max_scoreShard) = st;
          uShard = shard_of (CS_PartitionMap cs) u
      in if scores uShard \<noteq> None then Inr st
         else rbind (getShard_score fo v uShard cs) (\<lambda>s.
           let scores = scores(uShard \<mapsto> s)
           in if F_less fo max_score s then Inr (scores, s, uShard)
              else Inr (scores, max_score, max_scoreShard)))"

record 'f clpa_run =
  R_cs :: "'f CLPAState"
  R_res :: "(string, u64) gomap"
  R_upd :: "string \<rightharpoonup> int"

definition upd_of :: "(string \<rightharpoonup> int) \<Rightarrow> string \<Rightarrow> int" where
  "upd_of m a = (case m a of None \<Rightarrow> 0 | Some n \<Rightarrow> n)"

text \<open>The move of \<open>v\<close> to the shard with the best score.\<close>

definition move_vertex :: "Vertex \<Rightarrow> int \<Rightarrow> int \<Rightarrow> 'f clpa_run \<Rightarrow> 'f clpa_run res" where
  "move_vertex v vNowShard max_scoreShard r =
     (let cs = R_cs r; cs = cs\<lparr>CS_PartitionMap := gput v max_scoreShard (CS_PartitionMap cs)\<rparr>
      in rbind (bump vNowShard (-1) (CS_VertexsNumInShard cs)) (\<lambda>vs.
         rbind (bump max_scoreShard 1 vs) (\<lambda>vs.
         rbind (changeShardRecompute v vNowShard (cs\<lparr>CS_VertexsNumInShard := vs\<rparr>)) (\<lambda>cs.
           Inr (r\<lparr>R_cs := cs,
                  R_res := gput (V_Addr v) (of_int max_scoreShard) (R_res r),
                  R_upd := (R_upd r)(V_Addr v \<mapsto> upd_of (R_upd r) (V_Addr v) + 1)\<rparr>)))))"

definition visit_vertex :: "'f floatops \<Rightarrow> Vertex \<Rightarrow> 'f clpa_run \<Rightarrow> 'f clpa_run res" where
  "visit_vertex fo v r =
     (if upd_of (R_upd r) (V_Addr v) \<ge> 50 then Inr r
      else let cs = R_cs r; vNowShard = shard_of (CS_PartitionMap cs) v
        in rbind (rfold (score_neighbor fo v cs) (adj (CS_NetGraph cs) v)
                    (Map.empty, F_of_int fo (- 9999), vNowShard))
             (\<lambda>(scores, max_score, max_scoreShard).
                if vNowShard \<noteq> max_scoreShard
                then rbind (index_int (CS_VertexsNumInShard cs) vNowShard) (\<lambda>n.
                       if n > 1 then move_vertex v vNowShard max_scoreShard r else Inr r)
                else Inr r))"

definition CLPA_Partition ::
    "'f floatops \<Rightarrow> (nat \<Rightarrow> Vertex list) \<Rightarrow> 'f CLPAState
      \<Rightarrow> ((string, u64) gomap \<times> int \<times> 'f CLPAState) res" where
  "CLPA_Partition fo orders cs =
     rbind (ComputeEdges2Shard cs) (\<lambda>cs.
     rbind (rfold (\<lambda>iter. rfold (visit_vertex fo) (orders iter)) [0..<nat (CS_MaxIterations cs)]
              \<lparr>R_cs = cs, R_res = [], R_upd = Map.empty\<rparr>) (\<lambda>r.
     rbind (ComputeEdges2Shard (R_cs r)) (\<lambda>cs.
       Inr (R_res r, CS_CrossShardEdgeNum cs, cs))))"

end
