(* ===== verification/PartitionProps.thy ===== *)
theory PartitionProps
  imports Partition
begin

text \<open>
  Correctness of the CLPA partition: the weights that \<^verbatim>\<open>ComputeEdges2Shard\<close> computes, the
  agreement of the incremental \<^verbatim>\<open>changeShardRecompute\<close> with it, the invariant \<open>clpa_ok\<close> of the
  state (the counters of \<^verbatim>\<open>VertexsNumInShard\<close> are the true ones) and what \<^verbatim>\<open>CLPA_Partition\<close>
  returns. The weights are stated over the multiset of arcs of the graph, so that they do not
  depend on the order in which the edge map is visited.
\<close>

section \<open>Specification\<close>

definition arcs :: "Graph \<Rightarrow> (Vertex \<times> Vertex) list" where
  "arcs g = concat (map (\<lambda>(v, l). map (Pair v) l) (edge_list g))"

definition arcs_into :: "(Vertex \<Rightarrow> int) \<Rightarrow> int \<Rightarrow> (Vertex \<times> Vertex) multiset \<Rightarrow> nat" where
  "arcs_into p k M = size (filter_mset (\<lambda>e. p (snd e) = k \<and> p (fst e) \<noteq> k) M)"

definition arcs_inside :: "(Vertex \<Rightarrow> int) \<Rightarrow> int \<Rightarrow> (Vertex \<times> Vertex) multiset \<Rightarrow> nat" where
  "arcs_inside p k M = size (filter_mset (\<lambda>e. p (snd e) = k \<and> p (fst e) = k) M)"

definition arcs_across :: "(Vertex \<Rightarrow> int) \<Rightarrow> (Vertex \<times> Vertex) multiset \<Rightarrow> nat" where
  "arcs_across p M = size (filter_mset (\<lambda>e. p (fst e) \<noteq> p (snd e)) M)"

text \<open>The weight of shard \<open>k\<close>: the edges that leave it and the edges inside it. Every edge is
  two arcs, so the arcs inside are halved and the arcs across are halved for the total.\<close>

definition weight :: "(Vertex \<Rightarrow> int) \<Rightarrow> (Vertex \<times> Vertex) multiset \<Rightarrow> int \<Rightarrow> int" where
  "weight p M k = int (arcs_into p k M) + int (arcs_inside p k M) div 2"

definition weights :: "(Vertex \<Rightarrow> int) \<Rightarrow> (Vertex \<times> Vertex) multiset \<Rightarrow> int \<Rightarrow> int list" where
  "weights p M n = map (\<lambda>k. weight p M (int k)) [0..<nat n]"

abbreviation part :: "'f CLPAState \<Rightarrow> Vertex \<Rightarrow> int" where
  "part cs \<equiv> shard_of (CS_PartitionMap cs)"

abbreviation vertices :: "'f CLPAState \<Rightarrow> Vertex set" where
  "vertices cs \<equiv> fst ` set (G_VertexSet (CS_NetGraph cs))"

definition recomputed :: "int \<Rightarrow> 'f CLPAState \<Rightarrow> 'f CLPAState" where
  "recomputed cap cs =
     (let M = mset (arcs (CS_NetGraph cs)); es = weights (part cs) M (CS_ShardNum cs)
      in cs\<lparr>CS_Edges2Shard := es, CS_CrossShardEdgeNum := int (arcs_across (part cs) M) div 2,
            CS_MinEdges2Shard := min_edges cap es\<rparr>)"

text \<open>An undirected graph without self-loops, whose edges join its vertices.\<close>

definition graph_ok :: "Graph \<Rightarrow> bool" where
  "graph_ok g \<longleftrightarrow> wf_map (G_VertexSet g) \<and> wf_map (edge_list g)
     \<and> (\<forall>u v. count (mset (adj g u)) v = count (mset (adj g v)) u)
     \<and> (\<forall>v. v \<notin> set (adj g v))
     \<and> (\<forall>v. set (adj g v) \<subseteq> fst ` set (G_VertexSet g))"

definition shards_ok :: "'f CLPAState \<Rightarrow> bool" where
  "shards_ok cs \<longleftrightarrow> 0 \<le> CS_ShardNum cs \<and> vertices cs \<subseteq> dom (gget (CS_PartitionMap cs))
     \<and> (\<forall>v s. gget (CS_PartitionMap cs) v = Some s \<longrightarrow> 0 \<le> s \<and> s < CS_ShardNum cs)"

definition shard_size :: "'f CLPAState \<Rightarrow> int \<Rightarrow> nat" where
  "shard_size cs k = card {v \<in> vertices cs. part cs v = k}"

definition clpa_ok :: "'f CLPAState \<Rightarrow> bool" where
  "clpa_ok cs \<longleftrightarrow> graph_ok (CS_NetGraph cs) \<and> shards_ok cs
     \<and> CS_VertexsNumInShard cs = map (\<lambda>k. int (shard_size cs (int k))) [0..<nat (CS_ShardNum cs)]"

section \<open>Counters\<close>

lemma bump_in_range [simp]:
  "0 \<le> i \<Longrightarrow> i < int (length xs) \<Longrightarrow> bump i d xs = Inr (xs[nat i := xs ! nat i + d])"
  by (simp add: bump_def index_int_def)

lemma index_int_in_range [simp]:
  "0 \<le> i \<Longrightarrow> i < int (length xs) \<Longrightarrow> index_int xs i = Inr (xs ! nat i)"
  by (simp add: index_int_def)

lemma arcs_counts_simps [simp]:
  "arcs_into p k {#} = 0" "arcs_inside p k {#} = 0" "arcs_across p {#} = 0"
  "arcs_into p k (add_mset e M) =
     (if p (snd e) = k \<and> p (fst e) \<noteq> k then 1 else 0) + arcs_into p k M"
  "arcs_inside p k (add_mset e M) =
     (if p (snd e) = k \<and> p (fst e) = k then 1 else 0) + arcs_inside p k M"
  "arcs_across p (add_mset e M) =
     (if p (fst e) \<noteq> p (snd e) then 1 else 0) + arcs_across p M"
  by (simp_all add: arcs_into_def arcs_inside_def arcs_across_def)

lemma arcs_counts_union [simp]:
  "arcs_into p k (M + N) = arcs_into p k M + arcs_into p k N"
  "arcs_inside p k (M + N) = arcs_inside p k M + arcs_inside p k N"
  "arcs_across p (M + N) = arcs_across p M + arcs_across p N"
  by (simp_all add: arcs_into_def arcs_inside_def arcs_across_def)

lemma count_vertex_arcs:
  "rfold (count_vertex pm) es st =
     rfold (\<lambda>e. count_edge pm (shard_of pm (fst e)) (snd e))
       (concat (map (\<lambda>(v, l). map (Pair v) l) es)) st"
proof (induction es arbitrary: st)
  case Nil
  then show ?case by simp
next
  case (Cons e es)
  have "rfold (count_edge pm (shard_of pm v)) l s =
      rfold (\<lambda>e. count_edge pm (shard_of pm (fst e)) (snd e)) (map (Pair v) l) s" for v l s
  proof (induction l arbitrary: s)
    case Nil
    then show ?case by simp
  next
    case (Cons u l)
    then show ?case by (cases "count_edge pm (shard_of pm v) u s") auto
  qed
  then have "count_vertex pm e st =
      rfold (\<lambda>e. count_edge pm (shard_of pm (fst e)) (snd e)) (map (Pair (fst e)) (snd e)) st"
    by (simp only: count_vertex_def)
  moreover have "rfold (count_vertex pm) es =
      rfold (\<lambda>e. count_edge pm (shard_of pm (fst e)) (snd e))
        (concat (map (\<lambda>(v, l). map (Pair v) l) es))"
    using Cons by (rule ext)
  ultimately show ?case by (cases e) (simp add: rfold_append)
qed

lemma count_arcs:
  assumes "\<forall>e\<in>set as. 0 \<le> shard_of pm (snd e) \<and> shard_of pm (snd e) < int n"
    and "length es = n" and "length ie = n"
  shows "rfold (\<lambda>e. count_edge pm (shard_of pm (fst e)) (snd e)) as (es, ie) =
     Inr (map (\<lambda>k. es ! k + int (arcs_into (shard_of pm) (int k) (mset as))) [0..<n],
          map (\<lambda>k. ie ! k + int (arcs_inside (shard_of pm) (int k) (mset as))) [0..<n])"
  using assms
proof (induction as arbitrary: es ie)
  case Nil
  then show ?case by (auto intro: nth_equalityI)
next
  case (Cons e as)
  define k where "k = nat (shard_of pm (snd e))"
  have k: "shard_of pm (snd e) = int k" "k < n" using Cons.prems by (auto simp: k_def)
  have IH: "rfold (\<lambda>e. count_edge pm (shard_of pm (fst e)) (snd e)) as (es', ie') =
     Inr (map (\<lambda>k. es' ! k + int (arcs_into (shard_of pm) (int k) (mset as))) [0..<n],
          map (\<lambda>k. ie' ! k + int (arcs_inside (shard_of pm) (int k) (mset as))) [0..<n])"
    if "length es' = n" "length ie' = n" for es' ie'
    using Cons.IH that Cons.prems by simp
  show ?case
  proof (cases "shard_of pm (fst e) = int k")
    case True
    then have "count_edge pm (shard_of pm (fst e)) (snd e) (es, ie) = Inr (es, ie[k := ie ! k + 1])"
      using Cons.prems k by (simp add: count_edge_def Let_def)
    then show ?thesis
      using Cons.prems k True by (auto simp: IH nth_list_update)
  next
    case False
    then have "count_edge pm (shard_of pm (fst e)) (snd e) (es, ie) = Inr (es[k := es ! k + 1], ie)"
      using Cons.prems k by (simp add: count_edge_def Let_def)
    then show ?thesis
      using Cons.prems k False by (auto simp: IH nth_list_update)
  qed
qed

lemma sum_arcs_into:
  assumes "\<forall>e\<in>set as. 0 \<le> p (snd e) \<and> p (snd e) < int n"
  shows "sum_list (map (\<lambda>k. int (arcs_into p (int k) (mset as))) [0..<n]) =
     int (arcs_across p (mset as))"
  using assms
proof (induction as)
  case Nil
  then show ?case by simp
next
  case (Cons e as)
  define j where "j = nat (p (snd e))"
  have j: "p (snd e) = int j" "j < n" using Cons.prems by (auto simp: j_def)
  have "sum_list (map (\<lambda>k. int (if int j = int k \<and> p (fst e) \<noteq> int k then 1 else 0)) [0..<n])
      = (if p (fst e) \<noteq> int j then 1 else 0)"
    using j(2) by (simp add: sum_set_upt_conv_sum_list_nat [symmetric] sum.delta' if_distrib
        if_bool_eq_conj conj_commute cong: if_cong conj_cong)
  then show ?case
    using Cons j(1) by (simp add: sum_list_addf)
qed

lemma sdiv_2_nonneg: "0 \<le> (a::int) \<Longrightarrow> a sdiv 2 = a div 2"
  by (cases "a = 0") (simp_all add: signed_divide_int_def)

lemma ComputeEdges2Shard_eq:
  assumes "0 \<le> CS_ShardNum cs"
    and "\<forall>e\<in>set (arcs (CS_NetGraph cs)). 0 \<le> part cs (snd e) \<and> part cs (snd e) < CS_ShardNum cs"
  shows "ComputeEdges2Shard cs = Inr (recomputed 0x7fffffff cs)"
proof -
  define n where "n = nat (CS_ShardNum cs)"
  define M where "M = mset (arcs (CS_NetGraph cs))"
  have n: "CS_ShardNum cs = int n" using assms(1) by (simp add: n_def)
  have rng: "\<forall>e\<in>set (arcs (CS_NetGraph cs)). 0 \<le> part cs (snd e) \<and> part cs (snd e) < int n"
    using assms(2) n by simp
  have loop: "rfold (count_vertex (CS_PartitionMap cs)) (edge_list (CS_NetGraph cs))
      (replicate n 0, replicate n 0) =
      Inr (map (\<lambda>k. int (arcs_into (part cs) (int k) M)) [0..<n],
           map (\<lambda>k. int (arcs_inside (part cs) (int k) M)) [0..<n])"
    unfolding count_vertex_arcs arcs_def [symmetric]
    using count_arcs [OF rng, of "replicate n 0" "replicate n 0"]
    by (simp add: M_def cong: map_cong)
  have es: "map2 (\<lambda>e i. e + i sdiv 2) (map (\<lambda>k. int (arcs_into (part cs) (int k) M)) [0..<n])
      (map (\<lambda>k. int (arcs_inside (part cs) (int k) M)) [0..<n]) = weights (part cs) M (int n)"
    by (rule nth_equalityI) (simp_all add: weights_def weight_def sdiv_2_nonneg)
  show ?thesis
    using sum_arcs_into [OF rng] loop es
    by (simp add: ComputeEdges2Shard_def make_ints_def n Let_def recomputed_def M_def sdiv_2_nonneg)
qed

section \<open>Moving a vertex\<close>

lemma count_arcs_adj:
  assumes "wf_map (edge_list g)"
  shows "count (mset (arcs g)) (v, u) = count (mset (adj g v)) u"
proof -
  have pair: "count (image_mset (Pair w) A) (v, u) = (if w = v then count A u else 0)" for w A
    by (induction A) auto
  have "count (mset (concat (map (\<lambda>(v, l). map (Pair v) l) es))) (v, u) =
      count (mset (case gget es v of None \<Rightarrow> [] | Some l \<Rightarrow> l)) u" if "wf_map es" for es
    using that
  proof (induction es)
    case Nil
    then show ?case by simp
  next
    case (Cons e es)
    obtain w l where e: "e = (w, l)" by (cases e)
    show ?case
    proof (cases "w = v")
      case True
      with Cons.prems e have "gget es v = None" by (auto simp: map_of_eq_None_iff)
      with Cons.IH Cons.prems e have "count (mset (concat (map (\<lambda>(v, l). map (Pair v) l) es))) (v, u) = 0"
        by (simp del: count_mset_0_iff)
      with \<open>gget es v = None\<close> e True show ?thesis
        by (simp add: pair del: count_mset_0_iff count_eq_zero_iff)
    next
      case False
      with Cons e show ?thesis by (simp add: pair)
    qed
  qed
  with assms show ?thesis by (simp add: arcs_def adj_def edge_list_def split: option.splits)
qed

text \<open>The arcs that do not touch \<open>x\<close>, the arcs out of \<open>x\<close> and the arcs into \<open>x\<close>.\<close>

lemma arcs_split:
  assumes "graph_ok g"
  shows "mset (arcs g) =
     filter_mset (\<lambda>e. fst e \<noteq> x \<and> snd e \<noteq> x) (mset (arcs g))
     + (image_mset (Pair x) (mset (adj g x)) + image_mset (\<lambda>u. (u, x)) (mset (adj g x)))"
proof (rule multiset_eqI)
  fix e :: "Vertex \<times> Vertex"
  obtain v u where e: "e = (v, u)" by (cases e)
  have out: "count (image_mset (Pair x) A) (v, u) = (if v = x then count A u else 0)" for A
    by (induction A) auto
  have into: "count (image_mset (\<lambda>w. (w, x)) A) (v, u) = (if u = x then count A v else 0)" for A
    by (induction A) auto
  have sym: "count (mset (adj g v)) u = count (mset (adj g u)) v"
    and irr: "count (mset (adj g x)) x = 0"
    using assms by (simp_all add: graph_ok_def not_in_iff [symmetric])
  show "count (mset (arcs g)) e =
     count (filter_mset (\<lambda>e. fst e \<noteq> x \<and> snd e \<noteq> x) (mset (arcs g))
     + (image_mset (Pair x) (mset (adj g x)) + image_mset (\<lambda>u. (u, x)) (mset (adj g x)))) e"
    using assms sym irr
    by (auto simp: e out into count_arcs_adj graph_ok_def)
qed

lemma incident_counts:
  "arcs_into p k (image_mset (Pair x) A + image_mset (\<lambda>u. (u, x)) A) =
     size (filter_mset (\<lambda>u. (p u = k) \<noteq> (p x = k)) A)"
  "arcs_inside p k (image_mset (Pair x) A + image_mset (\<lambda>u. (u, x)) A) =
     2 * size (filter_mset (\<lambda>u. p u = k \<and> p x = k) A)"
  "arcs_across p (image_mset (Pair x) A + image_mset (\<lambda>u. (u, x)) A) =
     2 * size (filter_mset (\<lambda>u. p u \<noteq> p x) A)"
  by (induction A) auto

definition touching :: "(Vertex \<Rightarrow> int) \<Rightarrow> Vertex \<Rightarrow> int \<Rightarrow> Vertex list \<Rightarrow> nat" where
  "touching p x k A = length (filter (\<lambda>u. p u = k \<or> p x = k) A)"

lemma touching_split:
  "touching p x k A = size (filter_mset (\<lambda>u. (p u = k) \<noteq> (p x = k)) (mset A))
     + size (filter_mset (\<lambda>u. p u = k \<and> p x = k) (mset A))"
  by (induction A) (auto simp: touching_def)

definition apart :: "Graph \<Rightarrow> Vertex \<Rightarrow> (Vertex \<times> Vertex) multiset" where
  "apart g x = filter_mset (\<lambda>e. fst e \<noteq> x \<and> snd e \<noteq> x) (mset (arcs g))"

lemma weight_split:
  assumes "graph_ok g"
  shows "weight p (mset (arcs g)) k = weight p (apart g x) k + int (touching p x k (adj g x))"
proof -
  have "weight p (mset (arcs g)) k = weight p (apart g x +
      (image_mset (Pair x) (mset (adj g x)) + image_mset (\<lambda>u. (u, x)) (mset (adj g x)))) k"
    using arcs_split [OF assms, of x] by (simp only: apart_def)
  then show ?thesis
    by (simp only: weight_def arcs_counts_union(1,2) [of _ _ "apart g x"] incident_counts touching_split)
qed

lemma across_split:
  assumes "graph_ok g"
  shows "int (arcs_across p (mset (arcs g))) div 2 =
     int (arcs_across p (apart g x)) div 2 + int (length (filter (\<lambda>u. p u \<noteq> p x) (adj g x)))"
proof -
  have "arcs_across p (mset (arcs g)) = arcs_across p (apart g x +
      (image_mset (Pair x) (mset (adj g x)) + image_mset (\<lambda>u. (u, x)) (mset (adj g x))))"
    using arcs_split [OF assms, of x] by (simp only: apart_def)
  also have "\<dots> = arcs_across p (apart g x) + 2 * length (filter (\<lambda>u. p u \<noteq> p x) (adj g x))"
    by (simp only: arcs_counts_union(3) [of _ "apart g x"] incident_counts)
      (simp flip: mset_filter)
  finally show ?thesis by simp
qed

lemma apart_unchanged:
  "weight (p(x := s)) (apart g x) k = weight p (apart g x) k"
  "arcs_across (p(x := s)) (apart g x) = arcs_across p (apart g x)"
  by (simp_all add: weight_def arcs_into_def arcs_inside_def arcs_across_def apart_def
      filter_filter_mset cong: conj_cong)

lemma shard_of_gput [simp]: "shard_of (gput x s m) = (shard_of m)(x := s)"
  by (auto simp: shard_of_def)

lemma move_edges:
  assumes "new < n" and "old < n" and "new \<noteq> old" and "length es = n"
  shows "rfold (move_edge pm (int new) (int old)) A (es, cr) =
     Inr (map (\<lambda>k. es ! k
            + (if k = new then int (length (filter (\<lambda>u. shard_of pm u \<noteq> int new) A)) else 0)
            - (if k = old then int (length (filter (\<lambda>u. shard_of pm u \<noteq> int old) A)) else 0)) [0..<n],
          cr + int (length (filter (\<lambda>u. shard_of pm u \<noteq> int new) A))
             - int (length (filter (\<lambda>u. shard_of pm u \<noteq> int old) A)))"
  using assms
proof (induction A arbitrary: es cr)
  case Nil
  then show ?case by (auto intro: nth_equalityI)
next
  case (Cons u A)
  consider (new) "shard_of pm u = int new" | (old) "shard_of pm u = int old"
    | (other) "shard_of pm u \<noteq> int new" "shard_of pm u \<noteq> int old" by blast
  then show ?case
  proof cases
    case new
    then have "move_edge pm (int new) (int old) u (es, cr) = Inr (es[old := es ! old - 1], cr - 1)"
      using Cons.prems by (simp add: move_edge_def Let_def)
    then show ?thesis using Cons new by (auto simp: nth_list_update)
  next
    case old
    then have "move_edge pm (int new) (int old) u (es, cr) = Inr (es[new := es ! new + 1], cr + 1)"
      using Cons.prems by (simp add: move_edge_def Let_def)
    then show ?thesis using Cons old by (auto simp: nth_list_update)
  next
    case other
    then have "move_edge pm (int new) (int old) u (es, cr) =
        Inr (es[new := es ! new + 1, old := es ! old - 1], cr)"
      using Cons.prems by (simp add: move_edge_def Let_def)
    then show ?thesis using Cons other by (auto simp: nth_list_update)
  qed
qed

lemma touching_move:
  assumes "\<forall>u\<in>set A. q u = p u" and "q x = new" and "p x = old" and "new \<noteq> old"
  shows "int (touching q x k A) = int (touching p x k A)
    + (if k = new then int (length (filter (\<lambda>u. p u \<noteq> new) A)) else 0)
    - (if k = old then int (length (filter (\<lambda>u. p u \<noteq> old) A)) else 0)"
  using assms by (induction A) (auto simp: touching_def)

text \<open>The weights are in step with the partition.\<close>

definition in_step :: "'f CLPAState \<Rightarrow> bool" where
  "in_step cs \<longleftrightarrow>
     CS_Edges2Shard cs = weights (part cs) (mset (arcs (CS_NetGraph cs))) (CS_ShardNum cs)
     \<and> CS_CrossShardEdgeNum cs = int (arcs_across (part cs) (mset (arcs (CS_NetGraph cs)))) div 2"

lemma in_step_recomputed [simp]: "in_step (recomputed cap cs)"
  by (simp add: in_step_def recomputed_def Let_def)

lemma changeShardRecompute_recomputed:
  fixes cs :: "'f CLPAState" and vs :: "int list"
  assumes g: "graph_ok (CS_NetGraph cs)" and step: "in_step cs"
    and rng: "0 \<le> part cs x" "part cs x < CS_ShardNum cs" "0 \<le> new" "new < CS_ShardNum cs"
    and ne: "new \<noteq> part cs x"
  defines "cs' \<equiv> cs\<lparr>CS_PartitionMap := gput x new (CS_PartitionMap cs), CS_VertexsNumInShard := vs\<rparr>"
  shows "changeShardRecompute x (part cs x) cs' = Inr (recomputed 0x7ffffffff cs')"
proof -
  define G where "G = CS_NetGraph cs"
  define p where "p = part cs"
  define n where "n = nat (CS_ShardNum cs)"
  define a b where "a = nat new" and "b = nat (p x)"
  define far where "far s = int (length (filter (\<lambda>u. p u \<noteq> s) (adj G x)))" for s
  have nat: "new = int a" "p x = int b" "CS_ShardNum cs = int n" "a < n" "b < n" "a \<noteq> b"
    using rng ne by (auto simp: a_def b_def n_def p_def)
  have irr: "x \<notin> set (adj G x)" using g by (simp add: graph_ok_def G_def)
  have keep: "\<forall>u\<in>set (adj G x). (p(x := new)) u = p u" using irr by auto
  have same: "filter (\<lambda>u. (p(x := new)) u \<noteq> s) (adj G x) = filter (\<lambda>u. p u \<noteq> s) (adj G x)" for s
    by (rule filter_cong) (use irr in auto)
  have len: "length (CS_Edges2Shard cs) = n"
    using step nat by (simp add: in_step_def weights_def)
  have part': "part cs' = p(x := new)" by (simp add: cs'_def p_def)
  have loop: "rfold (move_edge (CS_PartitionMap cs') (int a) (int b)) (adj G x)
      (CS_Edges2Shard cs, CS_CrossShardEdgeNum cs) =
      Inr (map (\<lambda>k. CS_Edges2Shard cs ! k + (if k = a then far new else 0)
                   - (if k = b then far (p x) else 0)) [0..<n],
           CS_CrossShardEdgeNum cs + far new - far (p x))"
    using move_edges [of a n b "CS_Edges2Shard cs" "CS_PartitionMap cs'" "adj G x"] nat len
    by (simp add: far_def part' same [unfolded nat(1)] del: fun_upd_apply)
  have es: "map (\<lambda>k. CS_Edges2Shard cs ! k + (if k = a then far new else 0)
      - (if k = b then far (p x) else 0)) [0..<n] = weights (p(x := new)) (mset (arcs G)) (int n)"
  proof (rule nth_equalityI)
    fix k assume "k < length (map (\<lambda>k. CS_Edges2Shard cs ! k + (if k = a then far new else 0)
      - (if k = b then far (p x) else 0)) [0..<n])"
    then have k: "k < n" by simp
    have old: "CS_Edges2Shard cs ! k = weight p (apart G x) (int k) + int (touching p x (int k) (adj G x))"
      using step k nat g by (simp add: in_step_def weights_def p_def G_def weight_split [of _ _ _ x])
    have new: "weight (p(x := new)) (mset (arcs G)) (int k) =
        weight p (apart G x) (int k) + int (touching (p(x := new)) x (int k) (adj G x))"
      using g by (simp add: G_def weight_split [of _ _ _ x] apart_unchanged)
    show "map (\<lambda>k. CS_Edges2Shard cs ! k + (if k = a then far new else 0)
      - (if k = b then far (p x) else 0)) [0..<n] ! k = weights (p(x := new)) (mset (arcs G)) (int n) ! k"
      using k old new touching_move [of "adj G x" "p(x := new)" p x new "p x" "int k", OF keep] ne nat
      by (auto simp: weights_def far_def p_def)
  qed (simp add: weights_def)
  have cross: "CS_CrossShardEdgeNum cs + far new - far (p x) =
      int (arcs_across (p(x := new)) (mset (arcs G))) div 2"
    using step g across_split [of G "p(x := new)" x] across_split [of G p x] same [of new]
    by (simp add: in_step_def far_def G_def p_def apart_unchanged)
  have "adj (CS_NetGraph cs') x = adj G x" "CS_ShardNum cs' = int n"
    "CS_Edges2Shard cs' = CS_Edges2Shard cs" "CS_CrossShardEdgeNum cs' = CS_CrossShardEdgeNum cs"
    "CS_NetGraph cs' = G"
    using nat by (simp_all add: cs'_def G_def p_def)
  with loop es cross nat part' show ?thesis
    by (simp add: changeShardRecompute_def recomputed_def Let_def flip: p_def)
qed

section \<open>The least weight\<close>

lemma min_edges_min: "min_edges c xs = fold min xs c"
proof -
  have "(\<lambda>val m. if m > val then val else m) = (min :: int \<Rightarrow> int \<Rightarrow> int)"
    by (intro ext) auto
  then show ?thesis by (simp add: min_edges_def)
qed

lemma min_edges_cap:
  assumes "x \<in> set xs" and "x \<le> c" and "x \<le> d"
  shows "min_edges c xs = min_edges d xs"
proof -
  have "fold min xs c = Min (insert c (set xs))" for c :: int
    by (simp add: Min.set_eq_fold [symmetric] flip: list.set)
  moreover have "Min (insert c (set xs)) = Min (set xs)" if "x \<le> c" for c
  proof -
    have "Min (set xs) \<le> c" by (metis Min_le List.finite_set assms(1) order_trans that)
    moreover have "set xs \<noteq> {}" using assms(1) by auto
    ultimately show ?thesis by (simp add: min_absorb2)
  qed
  ultimately show ?thesis using assms by (simp add: min_edges_min)
qed

lemma weight_le_arcs: "weight p M k \<le> int (size M)"
proof -
  have "arcs_into p k M + arcs_inside p k M \<le> size M" by (induction M) auto
  then show ?thesis unfolding weight_def by linarith
qed

lemma recomputed_caps:
  assumes "0 < CS_ShardNum cs" and "length (arcs (CS_NetGraph cs)) < 2 ^ 31"
  shows "recomputed 0x7ffffffff cs = recomputed 0x7fffffff cs"
proof -
  define M where "M = mset (arcs (CS_NetGraph cs))"
  define x where "x = weight (part cs) M 0"
  have "x \<in> set (weights (part cs) M (CS_ShardNum cs))"
    using assms(1) by (auto simp: weights_def x_def image_iff intro!: bexI [of _ 0])
  moreover have "x < 2 ^ 31"
    using weight_le_arcs [of "part cs" M 0] assms(2) by (simp add: x_def M_def)
  ultimately show ?thesis
    by (simp add: recomputed_def Let_def M_def min_edges_cap [of x])
qed

lemma arcs_targets:
  assumes "graph_ok g" and "e \<in> set (arcs g)"
  shows "snd e \<in> fst ` set (G_VertexSet g)" and "snd e \<in> set (adj g (fst e))"
proof -
  have "count (mset (arcs g)) (fst e, snd e) = count (mset (adj g (fst e))) (snd e)"
    by (rule count_arcs_adj) (use assms(1) in \<open>simp add: graph_ok_def\<close>)
  moreover have "(fst e, snd e) \<in># mset (arcs g)" using assms(2) by simp
  ultimately show m: "snd e \<in> set (adj g (fst e))"
    by (metis count_eq_zero_iff set_mset_mset)
  with assms(1) show "snd e \<in> fst ` set (G_VertexSet g)" by (auto simp: graph_ok_def)
qed

lemma part_in_range:
  "shards_ok cs \<Longrightarrow> v \<in> vertices cs \<Longrightarrow> 0 \<le> part cs v \<and> part cs v < CS_ShardNum cs"
  by (fastforce simp: shards_ok_def shard_of_def split: option.splits)

lemma ComputeEdges2Shard_ok:
  assumes "graph_ok (CS_NetGraph cs)" and "shards_ok cs"
  shows "ComputeEdges2Shard cs = Inr (recomputed 0x7fffffff cs)"
  using part_in_range [OF assms(2)] arcs_targets(1) [OF assms(1)] assms(2)
  by (intro ComputeEdges2Shard_eq ballI) (simp_all add: shards_ok_def)

section \<open>One step of the algorithm\<close>

lemma Vertex_eq: "V_Addr u = V_Addr v \<longleftrightarrow> (u :: Vertex) = v"
  by (cases u; cases v) simp

lemma score_loop:
  assumes "\<forall>u\<in>set us. 0 \<le> part cs u \<and> part cs u < int (length (CS_Edges2Shard cs))"
  shows "\<exists>sc m s. rfold (score_neighbor fo v cs) us st = Inr (sc, m, s)
           \<and> (s = snd (snd st) \<or> s \<in> part cs ` set us)"
  using assms
proof (induction us arbitrary: st)
  case Nil
  then show ?case by (cases st) auto
next
  case (Cons u us)
  obtain sc0 m0 s0 where st: "st = (sc0, m0, s0)" by (cases st) auto
  have "\<exists>st'. score_neighbor fo v cs u st = Inr st' \<and> (snd (snd st') = s0 \<or> snd (snd st') = part cs u)"
    using Cons.prems st
    by (auto simp: score_neighbor_def getShard_score_def Let_def)
  then obtain st' where st': "score_neighbor fo v cs u st = Inr st'"
    "snd (snd st') = s0 \<or> snd (snd st') = part cs u" by blast
  from Cons.IH [of st'] Cons.prems obtain sc m s where
    "rfold (score_neighbor fo v cs) us st' = Inr (sc, m, s)"
    "s = snd (snd st') \<or> s \<in> part cs ` set us" by auto
  with st st' show ?case by auto
qed

lemma shard_size_move:
  assumes "v \<in> vertices cs" and "s \<noteq> part cs v"
    and "vertices cs' = vertices cs" and "part cs' = (part cs)(v := s)"
  shows "int (shard_size cs' k) = int (shard_size cs k) + (if k = s then 1 else 0)
           - (if k = part cs v then 1 else 0)"
proof -
  define S where "S k = {w \<in> vertices cs. part cs w = k}" for k
  have fin: "finite (S k)" for k by (simp add: S_def)
  have "{w \<in> vertices cs'. part cs' w = k} =
      (if k = s then insert v (S s) else if k = part cs v then S k - {v} else S k)"
    using assms by (auto simp: S_def)
  moreover have "v \<in> S (part cs v)" "v \<notin> S s" using assms by (auto simp: S_def)
  moreover have "0 < card (S (part cs v))" using fin calculation(2) card_gt_0_iff by blast
  ultimately show ?thesis
    using assms(2) fin by (auto simp: shard_size_def S_def [symmetric])
qed

lemma shard_size_pos: "v \<in> vertices cs \<Longrightarrow> part cs v = k \<Longrightarrow> 0 < shard_size cs k"
  unfolding shard_size_def card_gt_0_iff
  by (rule conjI, blast, rule finite_subset [of _ "vertices cs"]) auto

text \<open>What holds in every iteration of a run that started in \<open>cs0\<close>.\<close>

definition run_ok :: "'f CLPAState \<Rightarrow> 'f clpa_run \<Rightarrow> bool" where
  "run_ok cs0 r \<longleftrightarrow> clpa_ok (R_cs r) \<and> in_step (R_cs r)
     \<and> CS_NetGraph (R_cs r) = CS_NetGraph cs0 \<and> CS_ShardNum (R_cs r) = CS_ShardNum cs0
     \<and> (\<forall>k. 0 < shard_size cs0 k \<longrightarrow> 0 < shard_size (R_cs r) k)
     \<and> (\<forall>v. part (R_cs r) v \<noteq> part cs0 v \<longrightarrow> gget (R_res r) (V_Addr v) = Some (of_int (part (R_cs r) v)))
     \<and> wf_map (R_res r)
     \<and> (\<forall>v s. gget (R_res r) (V_Addr v) = Some s \<longrightarrow>
          v \<in> vertices cs0 \<and> s = of_int (part (R_cs r) v))"

lemma run_okD:
  assumes "run_ok cs0 r"
  shows "graph_ok (CS_NetGraph (R_cs r))" "shards_ok (R_cs r)" "in_step (R_cs r)"
    "CS_NetGraph (R_cs r) = CS_NetGraph cs0" "CS_ShardNum (R_cs r) = CS_ShardNum cs0"
    "CS_VertexsNumInShard (R_cs r) =
       map (\<lambda>k. int (shard_size (R_cs r) (int k))) [0..<nat (CS_ShardNum (R_cs r))]"
  using assms unfolding run_ok_def clpa_ok_def by blast+

lemma run_ok_res:
  assumes "run_ok cs0 r"
  shows "part (R_cs r) v \<noteq> part cs0 v \<Longrightarrow> gget (R_res r) (V_Addr v) = Some (of_int (part (R_cs r) v))"
    and "gget (R_res r) (V_Addr v) = Some s \<Longrightarrow> v \<in> vertices cs0 \<and> s = of_int (part (R_cs r) v)"
    and "0 < shard_size cs0 k \<Longrightarrow> 0 < shard_size (R_cs r) k"
    and "wf_map (R_res r)"
  using assms unfolding run_ok_def by blast+

lemma move_vertex_ok:
  assumes r: "run_ok cs0 r" and v: "v \<in> vertices cs0"
    and s: "0 \<le> s" "s < CS_ShardNum cs0" and ne: "s \<noteq> part (R_cs r) v"
    and more: "1 < shard_size (R_cs r) (part (R_cs r) v)"
  shows "\<exists>r'. move_vertex v (part (R_cs r) v) s r = Inr r' \<and> run_ok cs0 r'"
proof -
  define cs where "cs = R_cs r"
  define a where "a = part cs v"
  define vs0 where "vs0 = (CS_VertexsNumInShard cs)[nat a := CS_VertexsNumInShard cs ! nat a - 1]"
  define vs where "vs = vs0[nat s := vs0 ! nat s + 1]"
  define cs1 where "cs1 = cs\<lparr>CS_PartitionMap := gput v s (CS_PartitionMap cs),
                             CS_VertexsNumInShard := vs\<rparr>"
  define cs2 where "cs2 = recomputed 0x7ffffffff cs1"
  note ok = run_okD(3-5) [OF r, folded cs_def]
  note g = run_okD(1) [OF r, folded cs_def] and sh = run_okD(2) [OF r, folded cs_def]
    and num = run_okD(6) [OF r, folded cs_def]
  have v': "v \<in> vertices cs" using v ok by simp
  from part_in_range [OF sh v'] have a: "0 \<le> a" "a < CS_ShardNum cs" by (simp_all add: a_def)
  have len: "int (length (CS_VertexsNumInShard cs)) = CS_ShardNum cs" using num a by simp
  have cs2: "CS_NetGraph cs2 = CS_NetGraph cs0" "CS_ShardNum cs2 = CS_ShardNum cs0"
    "part cs2 = (part cs)(v := s)" "CS_PartitionMap cs2 = gput v s (CS_PartitionMap cs)"
    "CS_VertexsNumInShard cs2 = vs" "in_step cs2"
    using ok by (simp_all add: cs2_def cs1_def recomputed_def Let_def)
      (simp add: in_step_def)
  have size: "int (shard_size cs2 k) = int (shard_size cs k) + (if k = s then 1 else 0)
      - (if k = a then 1 else 0)" for k
    unfolding a_def by (rule shard_size_move) (use v' ne cs2 ok in \<open>simp_all add: cs_def\<close>)
  have ne': "s \<noteq> a" using ne by (simp add: a_def cs_def)
  have "vs = map (\<lambda>k. int (shard_size cs2 (int k))) [0..<nat (CS_ShardNum cs2)]"
    using a s ne' ok num by (intro nth_equalityI) (auto simp: vs_def vs0_def size nth_list_update cs2)
  moreover have "shards_ok cs2"
    using sh s cs2 ok v by (auto simp: shards_ok_def)
  ultimately have clpa: "clpa_ok cs2" using g cs2 ok by (simp add: clpa_ok_def)
  have len0: "int (length vs0) = CS_ShardNum cs" using len by (simp add: vs0_def)
  have run: "move_vertex v a s r = Inr (r\<lparr>R_cs := cs2,
      R_res := gput (V_Addr v) (of_int s) (R_res r),
      R_upd := (R_upd r)(V_Addr v \<mapsto> upd_of (R_upd r) (V_Addr v) + 1)\<rparr>)"
    using changeShardRecompute_recomputed [of cs v s vs] g ok a s ne' len len0
    by (simp add: move_vertex_def Let_def cs_def [symmetric] a_def [symmetric] vs0_def [symmetric] vs_def [symmetric]
        cs1_def [symmetric] cs2_def [symmetric])
  have keep: "0 < shard_size cs2 k" if "0 < shard_size cs0 k" for k
    using that run_ok_res(3) [OF r, of k] size [of k] more
    by (auto simp: cs_def [symmetric] a_def split: if_splits)
  define res where "res = gput (V_Addr v) (of_int s :: u64) (R_res r)"
  have moved: "gget res (V_Addr w) = Some (of_int (part cs2 w))" if "part cs2 w \<noteq> part cs0 w" for w
    using that run_ok_res(1) [OF r, of w] cs2(3)
    by (cases "w = v") (simp_all add: res_def Vertex_eq cs_def)
  have origin: "w \<in> vertices cs0 \<and> x = of_int (part cs2 w)" if "gget res (V_Addr w) = Some x" for w x
    using that run_ok_res(2) [OF r, of w x] cs2(3) v
    by (cases "w = v") (simp_all add: res_def Vertex_eq cs_def)
  have wf: "wf_map res" unfolding res_def by (rule wf_map_gput [OF run_ok_res(4) [OF r]])
  define r' where "r' = r\<lparr>R_cs := cs2, R_res := res,
      R_upd := (R_upd r)(V_Addr v \<mapsto> upd_of (R_upd r) (V_Addr v) + 1)\<rparr>"
  have r': "R_cs r' = cs2" "R_res r' = res" by (simp_all add: r'_def)
  have "run_ok cs0 r'"
    unfolding run_ok_def r'
    by (intro conjI allI impI clpa cs2(1,2,6) keep moved wf) (use origin in blast)+
  with run show ?thesis
    unfolding cs_def [symmetric] a_def [symmetric] res_def [symmetric] r'_def [symmetric] by blast
qed

lemma visit_vertex_ok:
  assumes r: "run_ok cs0 r" and v: "v \<in> vertices cs0"
  shows "\<exists>r'. visit_vertex fo v r = Inr r' \<and> run_ok cs0 r'"
proof (cases "upd_of (R_upd r) (V_Addr v) \<ge> 50")
  case True
  then show ?thesis using r by (simp add: visit_vertex_def)
next
  case False
  define cs where "cs = R_cs r"
  note ok = run_okD [OF r, folded cs_def]
  have rng: "\<forall>u\<in>set (adj (CS_NetGraph cs) v). 0 \<le> part cs u \<and> part cs u < CS_ShardNum cs"
    using ok(1) part_in_range [OF ok(2)] unfolding graph_ok_def by blast
  have v': "v \<in> vertices cs" using v ok by simp
  note pv = part_in_range [OF ok(2) v']
  have len: "int (length (CS_Edges2Shard cs)) = CS_ShardNum cs"
    using ok(3) pv by (simp add: in_step_def weights_def)
  from score_loop [of "adj (CS_NetGraph cs) v" cs fo v "(Map.empty, F_of_int fo (- 9999), part cs v)"]
  obtain sc m s where loop: "rfold (score_neighbor fo v cs) (adj (CS_NetGraph cs) v)
      (Map.empty, F_of_int fo (- 9999), part cs v) = Inr (sc, m, s)"
    and s: "s = part cs v \<or> s \<in> part cs ` set (adj (CS_NetGraph cs) v)"
    using rng len by auto
  have srng: "0 \<le> s" "s < CS_ShardNum cs0" using s rng pv ok(5) by auto
  have idx: "index_int (CS_VertexsNumInShard cs) (part cs v) = Inr (int (shard_size cs (part cs v)))"
    using pv ok(6) by simp
  have visit: "visit_vertex fo v r =
      (if part cs v \<noteq> s \<and> 1 < shard_size cs (part cs v) then move_vertex v (part cs v) s r else Inr r)"
    using False loop idx by (simp add: visit_vertex_def cs_def [symmetric] Let_def)
  show ?thesis
    using move_vertex_ok [OF r v srng] r unfolding visit cs_def by auto
qed

section \<open>Building the state\<close>

text \<open>The vertices of the list \<open>seen\<close> have been assigned to shards and counted.\<close>

definition placed :: "Vertex list \<Rightarrow> 'f CLPAState \<Rightarrow> bool" where
  "placed seen cs \<longleftrightarrow> 0 \<le> CS_ShardNum cs \<and> distinct seen
     \<and> set seen \<subseteq> dom (gget (CS_PartitionMap cs))
     \<and> (\<forall>v s. gget (CS_PartitionMap cs) v = Some s \<longrightarrow> 0 \<le> s \<and> s < CS_ShardNum cs)
     \<and> CS_VertexsNumInShard cs =
         map (\<lambda>k. int (length (filter (\<lambda>v. part cs v = int k) seen))) [0..<nat (CS_ShardNum cs)]"

lemma clpa_ok_placed:
  assumes "graph_ok (CS_NetGraph cs)"
  shows "clpa_ok cs \<longleftrightarrow> placed (map fst (G_VertexSet (CS_NetGraph cs))) cs"
proof -
  have d: "distinct (map fst (G_VertexSet (CS_NetGraph cs)))"
    using assms by (simp add: graph_ok_def wf_map_def)
  have "shard_size cs k = length (filter (\<lambda>v. part cs v = k) (map fst (G_VertexSet (CS_NetGraph cs))))" for k
    unfolding shard_size_def distinct_card [OF distinct_filter [OF d], symmetric]
    by (rule arg_cong [of _ _ card]) auto
  with assms d show ?thesis
    unfolding clpa_ok_def placed_def shards_ok_def by (simp only: set_map) blast
qed

lemma place_vertex:
  assumes pl: "placed seen cs" and v: "v \<notin> set seen" and s: "0 \<le> s" "s < CS_ShardNum cs"
  defines "cs1 \<equiv> cs\<lparr>CS_PartitionMap := gput v s (CS_PartitionMap cs)\<rparr>"
  shows "\<exists>vs. bump (part cs1 v) 1 (CS_VertexsNumInShard cs) = Inr vs
           \<and> placed (seen @ [v]) (cs1\<lparr>CS_VertexsNumInShard := vs\<rparr>)"
proof -
  define vs where "vs = (CS_VertexsNumInShard cs)[nat s := CS_VertexsNumInShard cs ! nat s + 1]"
  have num: "CS_VertexsNumInShard cs =
      map (\<lambda>k. int (length (filter (\<lambda>v. part cs v = int k) seen))) [0..<nat (CS_ShardNum cs)]"
    using pl by (simp add: placed_def)
  have same: "filter (\<lambda>w. ((part cs)(v := s)) w = k) seen = filter (\<lambda>w. part cs w = k) seen" for k
    by (rule filter_cong) (use v in auto)
  have "bump s 1 (CS_VertexsNumInShard cs) = Inr vs" using s num by (simp add: vs_def)
  moreover have "vs = map (\<lambda>k. int (length (filter (\<lambda>w. ((part cs)(v := s)) w = int k) (seen @ [v]))))
      [0..<nat (CS_ShardNum cs)]"
    using s num by (intro nth_equalityI) (auto simp: vs_def nth_list_update same fun_upd_same simp del: fun_upd_apply)
  ultimately show ?thesis
    using pl v s by (auto simp: placed_def cs1_def)
qed

lemma map_fst_gput_fresh:
  "gget m k = None \<Longrightarrow> map fst (gput k x m) = map fst m @ [k]"
  by (induction m) (auto split: if_splits)

lemma gget_None_fst: "gget m k = None \<longleftrightarrow> k \<notin> fst ` set m"
  by (simp add: map_of_eq_None_iff)

lemma fst_set_gput: "fst ` set (gput k x m) = insert k (fst ` set m)"
  by (metis dom_map_of_conv_image_fst dom_update update_conv' fun_upd_def dom_fun_upd option.distinct(1))

lemma adj_put_edge: "adj (put_edge u v g) w = (if w = u then adj g u @ [v] else adj g w)"
  by (simp add: adj_def put_edge_def edge_list_def split: option.splits)

lemma put_edge_simps [simp]:
  "G_VertexSet (put_edge u v g) = G_VertexSet g"
  "edge_list (put_edge u v g) = gput u (adj g u @ [v]) (edge_list g)"
  by (simp_all add: put_edge_def edge_list_def)

lemma G_AddVertex_simps [simp]:
  "G_VertexSet (G_AddVertex v g) = gput v True (G_VertexSet g)"
  "edge_list (G_AddVertex v g) = edge_list g" "adj (G_AddVertex v g) = adj g"
  by (auto simp: G_AddVertex_def edge_list_def adj_def)

lemma graph_ok_AddVertex: "graph_ok g \<Longrightarrow> graph_ok (G_AddVertex v g)"
  unfolding graph_ok_def by (auto simp: fst_set_gput wf_map_gput)

lemma graph_ok_put_edges:
  assumes "graph_ok g" and "u \<noteq> v" and "u \<in> fst ` set (G_VertexSet g)" "v \<in> fst ` set (G_VertexSet g)"
  shows "graph_ok (put_edge v u (put_edge u v g))"
  unfolding graph_ok_def
proof (intro conjI allI)
  show "wf_map (G_VertexSet (put_edge v u (put_edge u v g)))"
    using assms(1) by (simp add: graph_ok_def)
  show "wf_map (edge_list (put_edge v u (put_edge u v g)))"
    using assms(1) by (simp add: graph_ok_def wf_map_gput)
  show "count (mset (adj (put_edge v u (put_edge u v g)) x)) y =
      count (mset (adj (put_edge v u (put_edge u v g)) y)) x" for x y
    using assms(1,2) by (auto simp: graph_ok_def adj_put_edge)
  show "x \<notin> set (adj (put_edge v u (put_edge u v g)) x)" for x
    using assms(1,2) by (auto simp: graph_ok_def adj_put_edge)
  show "set (adj (put_edge v u (put_edge u v g)) x) \<subseteq>
      fst ` set (G_VertexSet (put_edge v u (put_edge u v g)))" for x
    using assms by (auto simp: graph_ok_def adj_put_edge)
qed

lemma CLPA_AddVertex_ok:
  assumes ok: "clpa_ok cs" and gsn: "gsn = CS_ShardNum cs" "0 < gsn" and addr: "valid_addr (V_Addr v)"
    and fresh: "v \<notin> vertices cs"
  shows "\<exists>cs'. CLPA_AddVertex gsn v cs = Inr cs' \<and> clpa_ok cs' \<and> CS_ShardNum cs' = CS_ShardNum cs
           \<and> CS_NetGraph cs' = G_AddVertex v (CS_NetGraph cs)
           \<and> (\<forall>w\<in>vertices cs. part cs' w = part cs w)"
proof -
  define VS where "VS = map fst (G_VertexSet (CS_NetGraph cs))"
  define cs0 where "cs0 = cs\<lparr>CS_NetGraph := G_AddVertex v (CS_NetGraph cs)\<rparr>"
  have g: "graph_ok (CS_NetGraph cs)" using ok by (simp add: clpa_ok_def)
  have pl: "placed VS cs0"
    using ok clpa_ok_placed [OF g] by (simp add: placed_def VS_def cs0_def)
  have "\<exists>s. (case gget (CS_PartitionMap cs) v of None \<Rightarrow> Addr2Shard gsn (V_Addr v) | Some val \<Rightarrow> Inr val) = Inr s
      \<and> 0 \<le> s \<and> s < CS_ShardNum cs"
  proof (cases "gget (CS_PartitionMap cs) v")
    case None
    then show ?thesis
      using Addr2Shard_total [OF gsn(2) addr] Addr2Shard_bounds [OF gsn(2)] gsn(1) by force
  next
    case (Some s)
    then show ?thesis using ok by (auto simp: clpa_ok_def shards_ok_def)
  qed
  then obtain s where s: "(case gget (CS_PartitionMap cs) v of None \<Rightarrow> Addr2Shard gsn (V_Addr v)
      | Some val \<Rightarrow> Inr val) = Inr s" "0 \<le> s" "s < CS_ShardNum cs0" by (auto simp: cs0_def)
  have v: "v \<notin> set VS" using fresh by (simp add: VS_def)
  from place_vertex [OF pl v s(2,3)] obtain vs where
    b: "bump (part (cs0\<lparr>CS_PartitionMap := gput v s (CS_PartitionMap cs0)\<rparr>) v) 1
          (CS_VertexsNumInShard cs0) = Inr vs"
    and p: "placed (VS @ [v]) (cs0\<lparr>CS_PartitionMap := gput v s (CS_PartitionMap cs0),
              CS_VertexsNumInShard := vs\<rparr>)"
    by auto
  define cs' where "cs' = cs0\<lparr>CS_PartitionMap := gput v s (CS_PartitionMap cs0),
      CS_VertexsNumInShard := vs\<rparr>"
  have ng: "CS_NetGraph cs' = G_AddVertex v (CS_NetGraph cs)" by (simp add: cs'_def cs0_def)
  have "map fst (G_VertexSet (CS_NetGraph cs')) = VS @ [v]"
    using fresh by (simp add: ng VS_def map_fst_gput_fresh gget_None_fst)
  then have "clpa_ok cs'"
    using p g clpa_ok_placed [of cs'] by (simp add: ng graph_ok_AddVertex flip: cs'_def)
  moreover have "CLPA_AddVertex gsn v cs = Inr cs'"
    using s(1) b by (simp add: CLPA_AddVertex_def Let_def cs'_def cs0_def)
  ultimately show ?thesis
    using ng fresh by (auto simp: cs'_def cs0_def)
qed

lemma CLPA_AddEdge_ok:
  assumes ok: "clpa_ok cs" and gsn: "gsn = CS_ShardNum cs" "0 < gsn"
    and addr: "valid_addr (V_Addr u)" "valid_addr (V_Addr v)" and ne: "u \<noteq> v"
  shows "\<exists>cs'. CLPA_AddEdge gsn u v cs = Inr cs' \<and> clpa_ok cs' \<and> CS_ShardNum cs' = CS_ShardNum cs"
proof -
  have add: "\<exists>cs'. (if gget (G_VertexSet (CS_NetGraph c)) w = None then CLPA_AddVertex gsn w c else Inr c) = Inr cs'
      \<and> clpa_ok cs' \<and> CS_ShardNum cs' = CS_ShardNum cs \<and> insert w (vertices c) \<subseteq> vertices cs'"
    if "clpa_ok c" "CS_ShardNum c = CS_ShardNum cs" "valid_addr (V_Addr w)" for c :: "'a CLPAState" and w
  proof (cases "w \<in> vertices c")
    case True
    then have "gget (G_VertexSet (CS_NetGraph c)) w \<noteq> None" by (simp add: gget_None_fst)
    then show ?thesis using that True by auto
  next
    case False
    with CLPA_AddVertex_ok [of c gsn w] gsn that show ?thesis
      by (auto simp: gget_None_fst fst_set_gput)
  qed
  from add [OF ok refl addr(1)] obtain c1 where c1:
    "(if gget (G_VertexSet (CS_NetGraph cs)) u = None then CLPA_AddVertex gsn u cs else Inr cs) = Inr c1"
    "clpa_ok c1" "CS_ShardNum c1 = CS_ShardNum cs" "u \<in> vertices c1" by blast
  from add [OF c1(2,3) addr(2)] c1(4) obtain c2 where c2:
    "(if gget (G_VertexSet (CS_NetGraph c1)) v = None then CLPA_AddVertex gsn v c1 else Inr c1) = Inr c2"
    "clpa_ok c2" "CS_ShardNum c2 = CS_ShardNum cs" "u \<in> vertices c2" "v \<in> vertices c2" by blast
  define c3 where "c3 = c2\<lparr>CS_NetGraph := G_AddEdge u v (CS_NetGraph c2)\<rparr>"
  have g2: "graph_ok (CS_NetGraph c2)" using c2(2) by (simp add: clpa_ok_def)
  have eq: "G_AddEdge u v (CS_NetGraph c2) = put_edge v u (put_edge u v (CS_NetGraph c2))"
    using c2(4,5) by (simp add: G_AddEdge_def gget_None_fst Let_def)
  have "graph_ok (CS_NetGraph c3)"
    using graph_ok_put_edges [OF g2 ne c2(4,5)] by (simp add: c3_def eq)
  then have "clpa_ok c3"
    using clpa_ok_placed [of c3] clpa_ok_placed [OF g2] c2(2) by (simp add: placed_def c3_def eq)
  moreover have "CLPA_AddEdge gsn u v cs = Inr c3"
    unfolding CLPA_AddEdge_def c1(1) rbind.simps c2(1) c3_def ..
  ultimately show ?thesis using c2(3) by (auto simp: c3_def)
qed

text \<open>The state that \<^verbatim>\<open>new\<close> and \<^verbatim>\<open>Init_CLPAState\<close> make, and one whose partition map was filled
  before any vertex is added.\<close>

definition zero_CLPA :: "'f \<Rightarrow> 'f CLPAState" where
  "zero_CLPA z = \<lparr>CS_NetGraph = \<lparr>G_VertexSet = [], G_EdgeSet = None\<rparr>, CS_PartitionMap = [],
     CS_Edges2Shard = [], CS_VertexsNumInShard = [], CS_WeightPenalty = z, CS_MinEdges2Shard = 0,
     CS_MaxIterations = 0, CS_CrossShardEdgeNum = 0, CS_ShardNum = 0, CS_GraphHash = []\<rparr>"

lemma graph_ok_empty: "graph_ok \<lparr>G_VertexSet = [], G_EdgeSet = None\<rparr>"
  by (simp add: graph_ok_def adj_def edge_list_def)

lemma Init_CLPAState_ok:
  assumes "0 \<le> sn" and "\<forall>v s. gget pm v = Some s \<longrightarrow> 0 \<le> s \<and> s < sn"
  shows "\<exists>cs. Init_CLPAState wp mIter sn (zero_CLPA z) = Inr cs \<and> CS_ShardNum cs = sn
           \<and> CS_PartitionMap cs = [] \<and> clpa_ok (cs\<lparr>CS_PartitionMap := pm\<rparr>)"
proof -
  have "clpa_ok (zero_CLPA z\<lparr>CS_WeightPenalty := wp, CS_MaxIterations := mIter, CS_ShardNum := sn,
      CS_VertexsNumInShard := replicate (nat sn) 0, CS_PartitionMap := pm\<rparr>)"
    using assms graph_ok_empty
    by (auto simp: clpa_ok_def shards_ok_def zero_CLPA_def shard_size_def intro: nth_equalityI)
  with assms(1) show ?thesis
    by (simp add: Init_CLPAState_def make_ints_def)
qed

lemma EraseEdges_ok: "clpa_ok cs \<Longrightarrow> clpa_ok (EraseEdges cs)"
  unfolding clpa_ok_def graph_ok_def shards_ok_def shard_size_def EraseEdges_def
  by (simp add: adj_def edge_list_def)

section \<open>Initial partitions\<close>

lemma stable_loop:
  assumes "placed seen cs" and "distinct (seen @ map fst es)" and "0 < CS_ShardNum cs"
    and "\<forall>j<length seen. part cs (seen ! j) = int j mod CS_ShardNum cs"
  shows "\<exists>cs'. rfold stable_vertex es (cs, int (length seen)) = Inr (cs', int (length (seen @ map fst es)))
     \<and> placed (seen @ map fst es) cs' \<and> CS_ShardNum cs' = CS_ShardNum cs \<and> CS_NetGraph cs' = CS_NetGraph cs
     \<and> (\<forall>j<length (seen @ map fst es). part cs' ((seen @ map fst es) ! j) = int j mod CS_ShardNum cs)"
  using assms
proof (induction es arbitrary: seen cs)
  case Nil
  then show ?case by simp
next
  case (Cons e es)
  define s where "s = int (length seen) mod CS_ShardNum cs"
  have s: "0 \<le> s" "s < CS_ShardNum cs" using Cons.prems(3) by (simp_all add: s_def)
  have fresh: "fst e \<notin> set seen" using Cons.prems(2) by auto
  from place_vertex [OF Cons.prems(1) fresh s] obtain vs where
    b: "bump s 1 (CS_VertexsNumInShard cs) = Inr vs"
    and p: "placed (seen @ [fst e]) (cs\<lparr>CS_PartitionMap := gput (fst e) s (CS_PartitionMap cs),
              CS_VertexsNumInShard := vs\<rparr>)"
    by auto
  define cs1 where "cs1 = cs\<lparr>CS_PartitionMap := gput (fst e) s (CS_PartitionMap cs),
      CS_VertexsNumInShard := vs\<rparr>"
  have step: "stable_vertex e (cs, int (length seen)) = Inr (cs1, int (length (seen @ [fst e])))"
    using b Cons.prems(3) by (simp add: stable_vertex_def Let_def s_def smod_nonneg cs1_def)
  have "\<forall>j<length (seen @ [fst e]). part cs1 ((seen @ [fst e]) ! j) = int j mod CS_ShardNum cs1"
    using Cons.prems(4) fresh
    by (auto simp: cs1_def nth_append s_def less_Suc_eq) (metis nth_mem)
  with Cons.IH [of "seen @ [fst e]" cs1] p Cons.prems(2,3) obtain cs' where
    "rfold stable_vertex es (cs1, int (length (seen @ [fst e]))) =
       Inr (cs', int (length ((seen @ [fst e]) @ map fst es)))"
    "placed ((seen @ [fst e]) @ map fst es) cs'" "CS_ShardNum cs' = CS_ShardNum cs"
    "CS_NetGraph cs' = CS_NetGraph cs"
    "\<forall>j<length ((seen @ [fst e]) @ map fst es).
       part cs' (((seen @ [fst e]) @ map fst es) ! j) = int j mod CS_ShardNum cs"
    by (auto simp: cs1_def)
  with step show ?case by auto
qed

section \<open>Properties\<close>

text \<open>C20: the incremental update is exact. After \<^verbatim>\<open>ComputeEdges2Shard\<close>, moving one vertex of a
  graph of fewer than \<open>2 ^ 31\<close> arcs to another shard and calling \<^verbatim>\<open>changeShardRecompute\<close> gives,
  without a panic, exactly the state that computing everything again gives.\<close>

theorem changeShardRecompute_agrees:
  assumes "clpa_ok cs0" and "ComputeEdges2Shard cs0 = Inr cs"
    and "x \<in> vertices cs" and "0 \<le> new" "new < CS_ShardNum cs" and "new \<noteq> part cs x"
    and "length (arcs (CS_NetGraph cs)) < 2 ^ 31"
  shows "\<exists>cs'. changeShardRecompute x (part cs x) (cs\<lparr>CS_PartitionMap := gput x new (CS_PartitionMap cs)\<rparr>)
             = Inr cs'
           \<and> ComputeEdges2Shard (cs\<lparr>CS_PartitionMap := gput x new (CS_PartitionMap cs)\<rparr>) = Inr cs'"
proof -
  have cs: "cs = recomputed 0x7fffffff cs0"
    using assms(1,2) ComputeEdges2Shard_ok [of cs0] by (simp add: clpa_ok_def)
  then have same: "CS_NetGraph cs = CS_NetGraph cs0" "CS_PartitionMap cs = CS_PartitionMap cs0"
    "CS_ShardNum cs = CS_ShardNum cs0" "in_step cs"
    by (simp_all add: recomputed_def Let_def) (simp add: in_step_def)
  have g: "graph_ok (CS_NetGraph cs)" and sh: "shards_ok cs"
    using assms(1) same by (simp_all add: clpa_ok_def shards_ok_def)
  define cs1 where "cs1 = cs\<lparr>CS_PartitionMap := gput x new (CS_PartitionMap cs)\<rparr>"
  have eq: "cs\<lparr>CS_PartitionMap := gput x new (CS_PartitionMap cs),
      CS_VertexsNumInShard := CS_VertexsNumInShard cs\<rparr> = cs1" by (simp add: cs1_def)
  have "changeShardRecompute x (part cs x) cs1 = Inr (recomputed 0x7ffffffff cs1)"
    using changeShardRecompute_recomputed [OF g same(4), of x new "CS_VertexsNumInShard cs"]
      part_in_range [OF sh assms(3)] assms(4-6) by (simp add: eq)
  moreover have "shards_ok cs1" using sh assms(4,5) by (auto simp: shards_ok_def cs1_def)
  then have "ComputeEdges2Shard cs1 = Inr (recomputed 0x7fffffff cs1)"
    using g by (intro ComputeEdges2Shard_ok) (simp_all add: cs1_def)
  moreover have "recomputed 0x7ffffffff cs1 = recomputed 0x7fffffff cs1"
    using assms(4,5,7) by (intro recomputed_caps) (simp_all add: cs1_def)
  ultimately show ?thesis unfolding cs1_def by simp
qed

lemma partition_run:
  assumes "clpa_ok cs" and "\<forall>i. set (orders i) = vertices cs"
  shows "\<exists>res cross cs'. CLPA_Partition fo orders cs = Inr (res, cross, cs') \<and> clpa_ok cs'
      \<and> CS_NetGraph cs' = CS_NetGraph cs \<and> CS_ShardNum cs' = CS_ShardNum cs
      \<and> (\<forall>k. 0 < shard_size cs k \<longrightarrow> 0 < shard_size cs' k)
      \<and> (\<forall>v. part cs' v \<noteq> part cs v \<longrightarrow> gget res (V_Addr v) = Some (of_int (part cs' v)))
      \<and> wf_map res
      \<and> (\<forall>v s. gget res (V_Addr v) = Some s \<longrightarrow> v \<in> vertices cs \<and> s = of_int (part cs' v))
      \<and> cross = int (arcs_across (part cs') (mset (arcs (CS_NetGraph cs)))) div 2"
proof -
  define c1 where "c1 = recomputed 0x7fffffff cs"
  have c1: "ComputeEdges2Shard cs = Inr c1"
    unfolding c1_def using assms(1) by (intro ComputeEdges2Shard_ok) (simp_all add: clpa_ok_def)
  have same: "CS_NetGraph (recomputed c x) = CS_NetGraph x" "CS_PartitionMap (recomputed c x) = CS_PartitionMap x"
    "CS_ShardNum (recomputed c x) = CS_ShardNum x"
    "CS_VertexsNumInShard (recomputed c x) = CS_VertexsNumInShard x" for c and x :: "'a CLPAState"
    by (simp_all add: recomputed_def Let_def)
  have keep: "clpa_ok (recomputed c x)" if "clpa_ok x" for c and x :: "'a CLPAState"
    using that by (simp add: clpa_ok_def shards_ok_def shard_size_def same)
  define r0 where "r0 = \<lparr>R_cs = c1, R_res = ([] :: (string, u64) gomap), R_upd = (Map.empty :: string \<rightharpoonup> int)\<rparr>"
  have "run_ok cs r0"
    using keep [OF assms(1)] by (simp add: run_ok_def r0_def c1_def same shard_size_def)
  then have "\<exists>r. rfold (\<lambda>iter. rfold (visit_vertex fo) (orders iter)) [0..<nat (CS_MaxIterations c1)] r0 = Inr r
      \<and> run_ok cs r"
    using assms(2) by (intro rfold_total) (auto intro!: visit_vertex_ok)
  then obtain r where r: "rfold (\<lambda>iter. rfold (visit_vertex fo) (orders iter))
      [0..<nat (CS_MaxIterations c1)] r0 = Inr r" "run_ok cs r" by blast
  define c2 where "c2 = recomputed 0x7fffffff (R_cs r)"
  have c2: "ComputeEdges2Shard (R_cs r) = Inr c2"
    unfolding c2_def using run_okD(1,2) [OF r(2)] by (rule ComputeEdges2Shard_ok)
  have "CLPA_Partition fo orders cs = Inr (R_res r, CS_CrossShardEdgeNum c2, c2)"
    by (simp add: CLPA_Partition_def c1 r0_def [symmetric] r(1) c2)
  moreover have "clpa_ok c2" unfolding c2_def using r(2) by (intro keep) (simp add: run_ok_def)
  moreover have "CS_CrossShardEdgeNum c2 = int (arcs_across (part c2) (mset (arcs (CS_NetGraph cs)))) div 2"
    using run_okD(4) [OF r(2)] by (simp add: c2_def recomputed_def Let_def)
  moreover have eq: "part c2 = part (R_cs r)" "shard_size c2 = shard_size (R_cs r)"
    and ng: "CS_NetGraph c2 = CS_NetGraph cs" "CS_ShardNum c2 = CS_ShardNum cs"
    using run_okD(4,5) [OF r(2)] by (auto simp: c2_def same shard_size_def)
  moreover note run_ok_res [OF r(2), folded eq]
  ultimately show ?thesis by blast
qed

text \<open>C19: the label propagation. On a well-formed state, whatever the floating-point operations
  compute and in whatever order each pass visits the vertices, \<^verbatim>\<open>CLPA_Partition\<close> returns; the
  counters of the vertices per shard stay exact, no shard that had a vertex becomes empty, the
  returned map names exactly vertices of the graph with the shard they are in at the end and
  contains every vertex whose shard changed, and the returned number is half the number of arcs
  that cross shards.\<close>

theorem CLPA_Partition_sound:
  assumes "clpa_ok cs" and "\<forall>i. set (orders i) = vertices cs"
  shows "\<exists>res cross cs'. CLPA_Partition fo orders cs = Inr (res, cross, cs') \<and> clpa_ok cs'
      \<and> CS_NetGraph cs' = CS_NetGraph cs \<and> CS_ShardNum cs' = CS_ShardNum cs
      \<and> (\<forall>k. 0 < shard_size cs k \<longrightarrow> 0 < shard_size cs' k)
      \<and> (\<forall>v. part cs' v \<noteq> part cs v \<longrightarrow> gget res (V_Addr v) = Some (of_int (part cs' v)))
      \<and> wf_map res
      \<and> (\<forall>v s. gget res (V_Addr v) = Some s \<longrightarrow> v \<in> vertices cs \<and> s = of_int (part cs' v))
      \<and> cross = int (arcs_across (part cs') (mset (arcs (CS_NetGraph cs)))) div 2"
  using assms by (rule partition_run)

text \<open>The balanced initial partition. With at least as many vertices as shards
  \<^verbatim>\<open>Stable_Init_Partition\<close> succeeds with a well-formed state in which no shard is empty;
  otherwise it reports the error and changes nothing.\<close>

theorem Stable_Init_Partition_no_empty_shard:
  assumes "graph_ok (CS_NetGraph cs)" and "0 < CS_ShardNum cs"
  shows "if CS_ShardNum cs \<le> int (length (G_VertexSet (CS_NetGraph cs)))
         then \<exists>cs'. Stable_Init_Partition cs = Inr (True, cs') \<and> clpa_ok cs'
                \<and> CS_NetGraph cs' = CS_NetGraph cs
                \<and> (\<forall>k. 0 \<le> k \<and> k < CS_ShardNum cs \<longrightarrow> 0 < shard_size cs' k)
         else Stable_Init_Partition cs = Inr (False, cs)"
proof (cases "CS_ShardNum cs \<le> int (length (G_VertexSet (CS_NetGraph cs)))")
  case False
  then show ?thesis by (simp add: Stable_Init_Partition_def)
next
  case True
  define VS where "VS = G_VertexSet (CS_NetGraph cs)"
  define c0 where "c0 = cs\<lparr>CS_VertexsNumInShard := replicate (nat (CS_ShardNum cs)) 0, CS_PartitionMap := []\<rparr>"
  have "placed [] c0" using assms(2) by (auto simp: placed_def c0_def intro: nth_equalityI)
  with stable_loop [of "[]" c0 VS] assms obtain c1 where
    loop: "rfold stable_vertex VS (c0, 0) = Inr (c1, int (length VS))"
    and pl: "placed (map fst VS) c1" and sn: "CS_ShardNum c1 = CS_ShardNum cs"
    and ng: "CS_NetGraph c1 = CS_NetGraph cs"
    and shard: "\<forall>j<length VS. part c1 (map fst VS ! j) = int j mod CS_ShardNum cs"
    by (auto simp: c0_def graph_ok_def wf_map_def VS_def)
  have ok1: "clpa_ok c1" using pl clpa_ok_placed [of c1] assms(1) by (simp add: ng VS_def)
  define c2 where "c2 = recomputed 0x7fffffff c1"
  have c2: "ComputeEdges2Shard c1 = Inr c2" "clpa_ok c2" "CS_NetGraph c2 = CS_NetGraph cs"
    "part c2 = part c1"
    using ok1 ComputeEdges2Shard_ok [of c1] ng
    by (simp_all add: clpa_ok_def c2_def recomputed_def Let_def shards_ok_def shard_size_def)
  have "0 < shard_size c2 k" if "0 \<le> k" "k < CS_ShardNum cs" for k
  proof -
    have k: "nat k < length VS" using that True by (simp add: VS_def)
    then have "map fst VS ! nat k \<in> vertices c2" by (simp add: c2(3) VS_def)
    moreover have "part c2 (map fst VS ! nat k) = k" using shard k that c2(4) by simp
    ultimately show ?thesis by (rule shard_size_pos)
  qed
  moreover have "Stable_Init_Partition cs = Inr (True, c2)"
    using True assms(2) loop c2(1)
    by (simp add: Stable_Init_Partition_def make_ints_def c0_def VS_def)
  ultimately show ?thesis using True c2 by auto
qed

section \<open>Witnesses\<close>

definition demo_fo :: "int floatops" where
  "demo_fo = \<lparr>F_of_int = (\<lambda>i. 1000 * i), F_div = (\<lambda>a b. if b = 0 then 0 else 1000 * a sdiv b),
     F_mul = (\<lambda>a b. a * b sdiv 1000), F_sub = (\<lambda>a b. a - b), F_add = (\<lambda>a b. a + b), F_less = (\<lambda>a b. a < b)\<rparr>"

definition dv :: "string \<Rightarrow> Vertex" where
  "dv a = \<lparr>V_Addr = a\<rparr>"

text \<open>Three accounts in two shards: \<open>00000000\<close> and \<open>00000002\<close> in shard 0, \<open>00000001\<close> in
  shard 1; edges from the first account to the other two.\<close>

definition demo_edges :: "int CLPAState res" where
  "demo_edges =
     rbind (Init_CLPAState 500 1 2 (zero_CLPA 0)) (\<lambda>cs.
     rbind (CLPA_AddEdge 2 (dv ''00000000'') (dv ''00000001'') cs) (\<lambda>cs.
       CLPA_AddEdge 2 (dv ''00000000'') (dv ''00000002'') cs))"

definition demo_cs :: "int CLPAState" where
  "demo_cs = \<lparr>CS_NetGraph = \<lparr>G_VertexSet = [(dv ''00000000'', True), (dv ''00000001'', True), (dv ''00000002'', True)],
       G_EdgeSet = Some [(dv ''00000000'', [dv ''00000001'', dv ''00000002'']), (dv ''00000001'', [dv ''00000000'']),
                         (dv ''00000002'', [dv ''00000000''])]\<rparr>,
     CS_PartitionMap = [(dv ''00000000'', 0), (dv ''00000001'', 1), (dv ''00000002'', 0)],
     CS_Edges2Shard = [], CS_VertexsNumInShard = [2, 1], CS_WeightPenalty = 500, CS_MinEdges2Shard = 0,
     CS_MaxIterations = 1, CS_CrossShardEdgeNum = 0, CS_ShardNum = 2, CS_GraphHash = []\<rparr>"

lemma demo_shards:
  "Addr2Shard 2 ''00000000'' = Inr 0" "Addr2Shard 2 ''00000001'' = Inr 1"
  "Addr2Shard 2 ''00000002'' = Inr 0"
  by (simp_all add: Addr2Shard_eq valid_addr_def addr_num_def hexval_def)

lemma demo_edges_eq: "demo_edges = Inr demo_cs"
  by (simp add: demo_edges_def demo_cs_def Init_CLPAState_def make_ints_def zero_CLPA_def dv_def
      CLPA_AddEdge_def CLPA_AddVertex_def G_AddVertex_def G_AddEdge_def put_edge_def adj_def
      edge_list_def shard_of_def bump_def index_int_def demo_shards Let_def numeral_2_eq_2)

lemma demo_cs_ok: "clpa_ok demo_cs"
proof -
  have addr: "valid_addr (V_Addr (dv ''00000000''))" "valid_addr (V_Addr (dv ''00000001''))"
    "valid_addr (V_Addr (dv ''00000002''))" by code_simp+
  have "\<exists>c0. Init_CLPAState 500 1 2 (zero_CLPA (0::int)) = Inr c0 \<and> CS_ShardNum c0 = 2
      \<and> CS_PartitionMap c0 = [] \<and> clpa_ok (c0\<lparr>CS_PartitionMap := []\<rparr>)"
    by (rule Init_CLPAState_ok) simp_all
  then obtain c0 where c0: "Init_CLPAState 500 1 2 (zero_CLPA (0::int)) = Inr c0"
    "CS_ShardNum c0 = 2" "CS_PartitionMap c0 = []" "clpa_ok (c0\<lparr>CS_PartitionMap := []\<rparr>)" by blast
  have "c0\<lparr>CS_PartitionMap := CS_PartitionMap c0\<rparr> = c0" by simp
  with c0(3,4) have c0_ok: "clpa_ok c0" by metis
  obtain c1 where c1: "CLPA_AddEdge 2 (dv ''00000000'') (dv ''00000001'') c0 = Inr c1" "clpa_ok c1"
    "CS_ShardNum c1 = 2"
    using CLPA_AddEdge_ok [of c0 2 "dv ''00000000''" "dv ''00000001''"] c0(2) c0_ok addr by (auto simp: dv_def)
  obtain c2 where c2: "CLPA_AddEdge 2 (dv ''00000000'') (dv ''00000002'') c1 = Inr c2" "clpa_ok c2"
    using CLPA_AddEdge_ok [of c1 2 "dv ''00000000''" "dv ''00000002''"] c1 addr by (auto simp: dv_def)
  have "demo_edges = Inr c2" by (simp add: demo_edges_def c0(1) c1(1) c2(1))
  with c2(2) show ?thesis by (simp add: demo_edges_eq)
qed

definition demo_weights :: "int CLPAState" where
  "demo_weights = demo_cs\<lparr>CS_Edges2Shard := [2, 1], CS_CrossShardEdgeNum := 1, CS_MinEdges2Shard := 1\<rparr>"

lemma demo_weights_eq: "ComputeEdges2Shard demo_cs = Inr demo_weights"
  by (simp add: ComputeEdges2Shard_def demo_cs_def demo_weights_def make_ints_def edge_list_def
      count_vertex_def count_edge_def shard_of_def dv_def bump_def index_int_def min_edges_def
      numeral_2_eq_2 Let_def signed_divide_int_def)

theorem changeShardRecompute_agrees_witness:
  "\<exists>cs'. changeShardRecompute (dv ''00000000'') 0
            (demo_weights\<lparr>CS_PartitionMap := gput (dv ''00000000'') 1 (CS_PartitionMap demo_weights)\<rparr>) = Inr cs'
       \<and> ComputeEdges2Shard
            (demo_weights\<lparr>CS_PartitionMap := gput (dv ''00000000'') 1 (CS_PartitionMap demo_weights)\<rparr>) = Inr cs'"
proof -
  have p: "part demo_weights (dv ''00000000'') = 0"
    by (simp add: demo_weights_def demo_cs_def shard_of_def)
  show ?thesis
    using changeShardRecompute_agrees [OF demo_cs_ok demo_weights_eq, of "dv ''00000000''" 1] p
    by (simp add: demo_weights_def demo_cs_def arcs_def edge_list_def)
qed

theorem CLPA_Partition_sound_witness:
  "\<exists>res cross cs'. CLPA_Partition demo_fo (\<lambda>i. map dv [''00000001'', ''00000000'', ''00000002'']) demo_cs
       = Inr (res, cross, cs')
     \<and> (\<forall>k. 0 < shard_size demo_cs k \<longrightarrow> 0 < shard_size cs' k)
     \<and> cross = int (arcs_across (part cs') (mset (arcs (CS_NetGraph demo_cs)))) div 2"
proof -
  have o: "\<forall>i::nat. set (map dv [''00000001'', ''00000000'', ''00000002'']) = vertices demo_cs"
    by (simp add: demo_cs_def insert_commute)
  show ?thesis
    using CLPA_Partition_sound [OF demo_cs_ok, of "\<lambda>i. map dv [''00000001'', ''00000000'', ''00000002'']" demo_fo] o
    by blast
qed

theorem Stable_Init_Partition_no_empty_shard_witness:
  "\<exists>cs'. Stable_Init_Partition demo_cs = Inr (True, cs') \<and> 0 < shard_size cs' 0 \<and> 0 < shard_size cs' 1"
proof -
  have n: "CS_ShardNum demo_cs = 2" "length (G_VertexSet (CS_NetGraph demo_cs)) = 3"
    by (simp_all add: demo_cs_def)
  have "graph_ok (CS_NetGraph demo_cs)" using demo_cs_ok by (simp add: clpa_ok_def)
  from Stable_Init_Partition_no_empty_shard [OF this] n show ?thesis by auto
qed

end
