(* ===== verification/Committee.thy ===== *)
theory Committee
  imports Pbft Partition
begin

text \<open>
  The committees of the supervisor (\<^verbatim>\<open>src/supervisor/committee\<close>), the brokers they use
  (\<^verbatim>\<open>src/broker/broker.go\<close>) and the stop signal (\<^verbatim>\<open>src/supervisor/signal\<close>): reading transactions
  from the data file, injecting them into the shards, the repartitioning of CLPA and the two-step
  transfers of the broker mechanism.

  \<^item> The global parameters and the hash functions are the record \<open>cparams\<close>.
  \<^item> The data file is the list of the records that the CSV reader returns, \<open>None\<close> for a record
    it reports an error on; the end of the list is the end of the file.
  \<^item> What is sent is a list of addresses and messages. \<^verbatim>\<open>TxHandling\<close> runs beside the handlers of
    incoming messages, which share the stop signal, the graph (under \<^verbatim>\<open>clpaLock\<close>) and the broker
    pools (under \<^verbatim>\<open>brokerModuleLock\<close>); the model gives the body of its loop, the handling of one
    record, as one step, and the loop as the iteration of that step.
  \<^item> Printing and sleeping have no effect on the state. A reading of the clock is an argument.
\<close>

section \<open>Stop signal\<close>

record StopSignal =
  SS_stopGap :: int
  SS_stopThreshold :: int

definition NewStopSignal :: "int \<Rightarrow> StopSignal" where
  "NewStopSignal stop_Threshold = \<lparr>SS_stopGap = 0, SS_stopThreshold = stop_Threshold\<rparr>"

definition StopGap_Inc :: "StopSignal \<Rightarrow> StopSignal" where
  "StopGap_Inc ss = ss\<lparr>SS_stopGap := SS_stopGap ss + 1\<rparr>"

definition StopGap_Reset :: "StopSignal \<Rightarrow> StopSignal" where
  "StopGap_Reset ss = ss\<lparr>SS_stopGap := 0\<rparr>"

definition GapEnough :: "StopSignal \<Rightarrow> bool" where
  "GapEnough ss \<longleftrightarrow> SS_stopGap ss \<ge> SS_stopThreshold ss"

section \<open>Brokers and their messages\<close>

record BrokerRawMeg =
  BR_Tx :: Transaction
  BR_Broker :: string
  BR_Hlock :: u64
  BR_Snonce :: u64
  BR_Bnonce :: u64
  BR_Signature :: bytes

record BrokerType1Meg =
  B1_RawMeg :: BrokerRawMeg
  B1_Hcurrent :: u64
  B1_Broker :: string

record Mag1Confirm =
  M1_Tx1Hash :: bytes
  M1_RawMeg :: BrokerRawMeg

record BrokerType2Meg =
  B2_RawMeg :: BrokerRawMeg
  B2_Broker :: string

record Mag2Confirm =
  M2_Tx2Hash :: bytes
  M2_RawMeg :: BrokerRawMeg

record Broker =
  BK_BrokerRawMegs :: "string \<rightharpoonup> BrokerRawMeg"
  BK_BrokerAddress :: "string list"
  BK_RawTx2BrokerTx :: "string \<rightharpoonup> string list"

text \<open>\<^verbatim>\<open>initBrokerAddr\<close>: the first \<open>num\<close> lines of the file, all of them when \<open>num\<close> is not
  positive, since the counter is decremented before it is compared with zero.\<close>

definition initBrokerAddr :: "string list \<Rightarrow> int \<Rightarrow> string list" where
  "initBrokerAddr lines num = (if num > 0 then take (nat num) lines else lines)"

definition NewBroker :: "string list \<Rightarrow> int \<Rightarrow> Broker" where
  "NewBroker lines BrokerNum =
     \<lparr>BK_BrokerRawMegs = Map.empty, BK_BrokerAddress = initBrokerAddr lines BrokerNum,
      BK_RawTx2BrokerTx = Map.empty\<rparr>"

definition IsBroker :: "Broker \<Rightarrow> string \<Rightarrow> bool" where
  "IsBroker b address \<longleftrightarrow> list_ex (\<lambda>brokerAddress. brokerAddress = address) (BK_BrokerAddress b)"

section \<open>Reading the data file\<close>

record cparams =
  CP_ShardNum :: int
  CP_InjectSpeed :: int
  CP_TxInputCount :: int
  CP_sha :: "Transaction \<Rightarrow> bytes"
  CP_digest :: "BrokerRawMeg \<Rightarrow> bytes"     \<comment> \<open>SHA-256 of the JSON of the message\<close>

definition digit :: "char \<Rightarrow> nat option" where
  "digit c = (let n = (of_char c :: nat) in if 48 \<le> n \<and> n \<le> 57 then Some (n - 48) else None)"

fun parse_digits :: "nat \<Rightarrow> string \<Rightarrow> nat option" where
  "parse_digits acc [] = Some acc"
| "parse_digits acc (c # cs) =
     (case digit c of None \<Rightarrow> None | Some d \<Rightarrow> parse_digits (10 * acc + d) cs)"

text \<open>\<^verbatim>\<open>big.Int.SetString(s, 10)\<close>: an optional sign and at least one decimal digit.\<close>

definition SetString10 :: "string \<Rightarrow> int option" where
  "SetString10 s =
     (let (neg, ds) = (case s of
            c # cs \<Rightarrow> if c = CHR ''-'' then (True, cs) else if c = CHR ''+'' then (False, cs) else (False, s)
          | [] \<Rightarrow> (False, s))
      in if ds = [] then None
         else map_option (\<lambda>n. if neg then - int n else int n) (parse_digits 0 ds))"

definition field :: "string list \<Rightarrow> nat \<Rightarrow> string res" where
  "field data i = (if i < length data then Inr (data ! i) else Inl (Panic ''index out of range''))"

text \<open>\<^verbatim>\<open>data2tx\<close>: \<open>None\<close> when the record is not a plain transfer between two accounts. The fields
  are read in the order of the conjunction.\<close>

definition data2tx :: "cparams \<Rightarrow> string list \<Rightarrow> u64 \<Rightarrow> Transaction option res" where
  "data2tx P data nonce =
     rbind (field data 6) (\<lambda>d6. if d6 \<noteq> ''0'' then Inr None else
     rbind (field data 7) (\<lambda>d7. if d7 \<noteq> ''0'' then Inr None else
     rbind (field data 3) (\<lambda>d3. if \<not> length d3 > 16 then Inr None else
     rbind (field data 4) (\<lambda>d4. if \<not> (length d4 > 16 \<and> d3 \<noteq> d4) then Inr None else
     rbind (field data 8) (\<lambda>d8.
     rbind (opt_or (Panic ''new int failed'') (SetString10 d8)) (\<lambda>val.
       Inr (Some (NewTransaction (CP_sha P) (drop 2 d3) (drop 2 d4) val nonce))))))))"

section \<open>Injecting transactions\<close>

text \<open>The loop of \<^verbatim>\<open>txSending\<close> that sends to every shard what was collected for it.\<close>

definition flush :: "cparams \<Rightarrow> ip_table \<Rightarrow> (u64 \<Rightarrow> Transaction list) \<Rightarrow> sends" where
  "flush P ips sendToShard =
     map (\<lambda>k. (ip_of ips (of_nat k) 0,
                MInject \<lparr>IT_Txs = sendToShard (of_nat k), IT_ToShardID = of_nat k\<rparr>))
       [0..<unat (of_int (CP_ShardNum P) :: u64)]"

definition flush_now :: "cparams \<Rightarrow> nat \<Rightarrow> bool \<Rightarrow> bool res" where
  "flush_now P idx final =
     (if idx > 0 then
        if CP_InjectSpeed P = 0 then Inl (Panic ''integer divide by zero'')
        else Inr (int idx smod CP_InjectSpeed P = 0 \<or> final)
      else Inr False)"

text \<open>\<^verbatim>\<open>txSending\<close>: the committees differ in the shard they send a transaction to, \<open>route\<close>.\<close>

fun inject_loop ::
    "cparams \<Rightarrow> ip_table \<Rightarrow> (Transaction \<Rightarrow> u64 res) \<Rightarrow> nat \<Rightarrow> Transaction list \<Rightarrow> (u64 \<Rightarrow> Transaction list)
      \<Rightarrow> sends res" where
  "inject_loop P ips route idx [] st =
     rbind (flush_now P idx True) (\<lambda>fl. Inr (if fl then flush P ips st else []))"
| "inject_loop P ips route idx (tx # txs) st =
     rbind (flush_now P idx False) (\<lambda>fl.
       let out = (if fl then flush P ips st else []);
           st = (if fl then (\<lambda>_. []) else st)
       in rbind (route tx) (\<lambda>sendersid.
          rbind (inject_loop P ips route (idx + 1) txs (st(sendersid := st sendersid @ [tx])))
            (\<lambda>rest. Inr (out @ rest))))"

definition shard_u64 :: "cparams \<Rightarrow> string \<Rightarrow> u64 res" where
  "shard_u64 P addr = rbind (Addr2Shard (CP_ShardNum P) addr) (\<lambda>s. Inr (of_int s))"

definition fetchModifiedMap :: "cparams \<Rightarrow> (string, u64) gomap \<Rightarrow> string \<Rightarrow> u64 res" where
  "fetchModifiedMap P modifiedMap key =
     (case gget modifiedMap key of None \<Rightarrow> shard_u64 P key | Some val \<Rightarrow> Inr val)"

definition Relay_txSending :: "cparams \<Rightarrow> ip_table \<Rightarrow> Transaction list \<Rightarrow> sends res" where
  "Relay_txSending P ips txlist =
     inject_loop P ips (\<lambda>tx. shard_u64 P (Tx_Sender tx)) 0 txlist (\<lambda>_. [])"

definition CLPA_txSending ::
    "cparams \<Rightarrow> ip_table \<Rightarrow> (string, u64) gomap \<Rightarrow> Transaction list \<Rightarrow> sends res" where
  "CLPA_txSending P ips modifiedMap txlist =
     inject_loop P ips (\<lambda>tx. fetchModifiedMap P modifiedMap (Tx_Sender tx)) 0 txlist (\<lambda>_. [])"

text \<open>The broker committees: a transaction sent by a broker goes to the shard of its recipient.\<close>

definition broker_route :: "(string \<Rightarrow> u64 res) \<Rightarrow> Broker \<Rightarrow> Transaction \<Rightarrow> u64 res" where
  "broker_route fetch b tx =
     rbind (fetch (Tx_Sender tx)) (\<lambda>sendersid.
       if IsBroker b (Tx_Sender tx) then fetch (Tx_Recipient tx) else Inr sendersid)"

definition Broker_txSending ::
    "cparams \<Rightarrow> ip_table \<Rightarrow> (string \<Rightarrow> u64 res) \<Rightarrow> Broker \<Rightarrow> Transaction list \<Rightarrow> sends res" where
  "Broker_txSending P ips fetch b txlist =
     inject_loop P ips (broker_route fetch b) 0 txlist (\<lambda>_. [])"

section \<open>The relay committee\<close>

record committee =
  CM_dataTotalNum :: int
  CM_nowDataNum :: int
  CM_batchDataNum :: int
  CM_IpNodeTable :: ip_table
  CM_Ss :: StopSignal

definition NewRelayCommitteeModule :: "ip_table \<Rightarrow> StopSignal \<Rightarrow> int \<Rightarrow> int \<Rightarrow> committee" where
  "NewRelayCommitteeModule ips Ss dataNum batchNum =
     \<lparr>CM_dataTotalNum = dataNum, CM_nowDataNum = 0, CM_batchDataNum = batchNum,
      CM_IpNodeTable = ips, CM_Ss = Ss\<rparr>"

text \<open>Taking one record: the transaction list and the count grow when it is a transfer.\<close>

definition read_row ::
    "cparams \<Rightarrow> string list option \<Rightarrow> ('a committee_scheme \<times> Transaction list)
      \<Rightarrow> (bool \<times> 'a committee_scheme \<times> Transaction list) res" where
  "read_row P row st =
     (case row of
        None \<Rightarrow> Inl (Panic ''csv: read'')
      | Some data \<Rightarrow>
          rbind (data2tx P data (of_int (CM_nowDataNum (fst st)))) (\<lambda>mtx.
            Inr (case mtx of
                   Some tx \<Rightarrow> (True, (fst st)\<lparr>CM_nowDataNum := CM_nowDataNum (fst st) + 1\<rparr>, snd st @ [tx])
                 | None \<Rightarrow> (False, st))))"

definition batch_full :: "'a committee_scheme \<Rightarrow> Transaction list \<Rightarrow> bool" where
  "batch_full cm txlist \<longleftrightarrow>
     int (length txlist) = CM_batchDataNum cm \<or> CM_nowDataNum cm = CM_dataTotalNum cm"

definition Relay_row ::
    "cparams \<Rightarrow> string list option \<Rightarrow> committee \<times> Transaction list
      \<Rightarrow> (sends \<times> committee \<times> Transaction list) res" where
  "Relay_row P row st =
     rbind (read_row P row st) (\<lambda>(ok, cm, txlist).
       if batch_full cm txlist
       then rbind (Relay_txSending P (CM_IpNodeTable cm) txlist) (\<lambda>out.
              Inr (out, cm\<lparr>CM_Ss := StopGap_Reset (CM_Ss cm)\<rparr>, []))
       else Inr ([], cm, txlist))"

text \<open>\<^verbatim>\<open>TxHandling\<close>: \<open>n\<close> is the number of iterations left, at first \<^verbatim>\<open>params.TxInputCount\<close>. The result
  holds the transactions that were read and not sent.\<close>

fun Relay_rows ::
    "cparams \<Rightarrow> nat \<Rightarrow> string list option list \<Rightarrow> committee \<times> Transaction list
      \<Rightarrow> (sends \<times> committee \<times> Transaction list) res" where
  "Relay_rows P 0 rows st = Inr ([], st)"
| "Relay_rows P (Suc n) [] st = Inr ([], st)"
| "Relay_rows P (Suc n) (row # rows) st =
     rbind (Relay_row P row st) (\<lambda>(out, cm, txlist).
       if CM_nowDataNum cm = CM_dataTotalNum cm then Inr (out, cm, txlist)
       else rbind (Relay_rows P n rows (cm, txlist)) (\<lambda>(rest, st). Inr (out @ rest, st)))"

definition Relay_TxHandling ::
    "cparams \<Rightarrow> string list option list \<Rightarrow> committee \<Rightarrow> (sends \<times> committee \<times> Transaction list) res" where
  "Relay_TxHandling P rows cm = Relay_rows P (nat (CP_TxInputCount P)) rows (cm, [])"

section \<open>The CLPA committee\<close>

record 'f clpa_committee = committee +
  CM_clpaGraph :: "'f CLPAState"
  CM_modifiedMap :: "(string, u64) gomap"
  CM_clpaLastRunningTime :: go_time
  CM_clpaFreq :: int

definition zero_CLPAState :: "'f floatops \<Rightarrow> 'f CLPAState" where
  "zero_CLPAState fo = \<lparr>CS_NetGraph = \<lparr>G_VertexSet = [], G_EdgeSet = None\<rparr>, CS_PartitionMap = [],
     CS_Edges2Shard = [], CS_VertexsNumInShard = [], CS_WeightPenalty = F_of_int fo 0,
     CS_MinEdges2Shard = 0, CS_MaxIterations = 0, CS_CrossShardEdgeNum = 0, CS_ShardNum = 0,
     CS_GraphHash = []\<rparr>"

text \<open>\<^verbatim>\<open>new(partition.CLPAState)\<close> followed by \<^verbatim>\<open>Init_CLPAState(0.5, 100, params.ShardNum)\<close>.\<close>

definition fresh_graph :: "'f floatops \<Rightarrow> cparams \<Rightarrow> 'f CLPAState res" where
  "fresh_graph fo P =
     Init_CLPAState (F_div fo (F_of_int fo 1) (F_of_int fo 2)) 100 (CP_ShardNum P) (zero_CLPAState fo)"

definition NewCLPACommitteeModule ::
    "'f floatops \<Rightarrow> cparams \<Rightarrow> ip_table \<Rightarrow> StopSignal \<Rightarrow> int \<Rightarrow> int \<Rightarrow> int \<Rightarrow> 'f clpa_committee res" where
  "NewCLPACommitteeModule fo P ips Ss dataNum batchNum clpaFrequency =
     rbind (fresh_graph fo P) (\<lambda>cg. Inr
       \<lparr>CM_dataTotalNum = dataNum, CM_nowDataNum = 0, CM_batchDataNum = batchNum,
        CM_IpNodeTable = ips, CM_Ss = Ss, CM_clpaGraph = cg, CM_modifiedMap = [],
        CM_clpaLastRunningTime = 0, CM_clpaFreq = clpaFrequency\<rparr>)"

definition clpaMapSend :: "cparams \<Rightarrow> ip_table \<Rightarrow> (string, u64) gomap \<Rightarrow> sends" where
  "clpaMapSend P ips m =
     map (\<lambda>k. (ip_of ips (of_nat k) 0, MPartition m)) [0..<unat (of_int (CP_ShardNum P) :: u64)]"

definition seed_partition :: "(string, u64) gomap \<Rightarrow> (Vertex, int) gomap \<Rightarrow> (Vertex, int) gomap" where
  "seed_partition m pm = fold (\<lambda>(key, val). gput \<lparr>V_Addr = key\<rparr> (sint val)) m pm"

definition clpaReset ::
    "'f floatops \<Rightarrow> cparams \<Rightarrow> ('f, 'a) clpa_committee_scheme \<Rightarrow> ('f, 'a) clpa_committee_scheme res" where
  "clpaReset fo P ccm =
     rbind (fresh_graph fo P) (\<lambda>cg.
       Inr (ccm\<lparr>CM_clpaGraph := cg\<lparr>CS_PartitionMap :=
                  seed_partition (CM_modifiedMap ccm) (CS_PartitionMap cg)\<rparr>\<rparr>))"

text \<open>The block of \<^verbatim>\<open>TxHandling\<close> that runs under \<^verbatim>\<open>clpaLock\<close> when it is time to repartition.\<close>

definition repartition ::
    "'f floatops \<Rightarrow> cparams \<Rightarrow> (nat \<Rightarrow> Vertex list) \<Rightarrow> ('f, 'a) clpa_committee_scheme
      \<Rightarrow> (sends \<times> ('f, 'a) clpa_committee_scheme) res" where
  "repartition fo P orders ccm =
     rbind (CLPA_Partition fo orders (CM_clpaGraph ccm)) (\<lambda>(mmap, _, g).
       let ccm = ccm\<lparr>CM_clpaGraph := g,
                     CM_modifiedMap := fold (\<lambda>(key, val). gput key val) mmap (CM_modifiedMap ccm)\<rparr>
       in rbind (clpaReset fo P ccm) (\<lambda>ccm.
            Inr (clpaMapSend P (CM_IpNodeTable ccm) mmap, ccm)))"

definition graph_edge ::
    "cparams \<Rightarrow> string \<Rightarrow> string \<Rightarrow> 'f CLPAState \<Rightarrow> 'f CLPAState res" where
  "graph_edge P a b = CLPA_AddEdge (CP_ShardNum P) \<lparr>V_Addr = a\<rparr> \<lparr>V_Addr = b\<rparr>"

definition CLPA_AdjustByBlockInfos ::
    "cparams \<Rightarrow> BlockInfoMsg \<Rightarrow> 'f clpa_committee \<Rightarrow> 'f clpa_committee res" where
  "CLPA_AdjustByBlockInfos P b ccm =
     (if BI_BlockBodyLength b = 0 then Inr ccm
      else rbind (rfold (\<lambda>tx. graph_edge P (Tx_Sender tx) (Tx_Recipient tx)) (BI_ExcutedTxs b)
                    (CM_clpaGraph ccm))
             (\<lambda>g. Inr (ccm\<lparr>CM_clpaGraph := g\<rparr>)))"

text \<open>\<open>t0\<close> is the clock when the timer starts, \<open>t1\<close> when the time since the last run is taken,
  \<open>t2\<close> after the run; a second is \<open>10 ^ 9\<close> units.\<close>

definition clpa_due :: "('f, 'a) clpa_committee_scheme \<Rightarrow> go_time \<Rightarrow> bool" where
  "clpa_due ccm t1 \<longleftrightarrow> t1 - CM_clpaLastRunningTime ccm \<ge> CM_clpaFreq ccm * 10 ^ 9"

definition maybe_repartition ::
    "'f floatops \<Rightarrow> cparams \<Rightarrow> (nat \<Rightarrow> Vertex list) \<Rightarrow> go_time \<Rightarrow> go_time \<Rightarrow> bool
      \<Rightarrow> ('f, 'a) clpa_committee_scheme \<Rightarrow> (sends \<times> ('f, 'a) clpa_committee_scheme) res" where
  "maybe_repartition fo P orders t1 t2 started ccm =
     (if started \<and> clpa_due ccm t1
      then rbind (repartition fo P orders ccm) (\<lambda>(out, ccm).
             Inr (out, ccm\<lparr>CM_clpaLastRunningTime := t2\<rparr>))
      else Inr ([], ccm))"

definition start_timer ::
    "go_time \<Rightarrow> ('f, 'a) clpa_committee_scheme \<Rightarrow> ('f, 'a) clpa_committee_scheme" where
  "start_timer t0 ccm =
     (if CM_clpaLastRunningTime ccm = 0 then ccm\<lparr>CM_clpaLastRunningTime := t0\<rparr> else ccm)"

definition CLPA_batch ::
    "cparams \<Rightarrow> go_time \<Rightarrow> 'f clpa_committee \<Rightarrow> Transaction list
      \<Rightarrow> (sends \<times> 'f clpa_committee \<times> Transaction list) res" where
  "CLPA_batch P t0 ccm txlist =
     (if batch_full ccm txlist
      then (let ccm = start_timer t0 ccm
            in rbind (CLPA_txSending P (CM_IpNodeTable ccm) (CM_modifiedMap ccm) txlist) (\<lambda>out.
                 Inr (out, ccm\<lparr>CM_Ss := StopGap_Reset (CM_Ss ccm)\<rparr>, [])))
      else Inr ([], ccm, txlist))"

definition CLPA_row ::
    "'f floatops \<Rightarrow> cparams \<Rightarrow> (nat \<Rightarrow> Vertex list) \<Rightarrow> go_time \<Rightarrow> go_time \<Rightarrow> go_time \<Rightarrow> string list option
      \<Rightarrow> 'f clpa_committee \<times> Transaction list
      \<Rightarrow> (bool \<times> sends \<times> 'f clpa_committee \<times> Transaction list) res" where
  "CLPA_row fo P orders t0 t1 t2 row st =
     rbind (read_row P row st) (\<lambda>(ok, ccm, txlist).
       if \<not> ok then Inr (False, [], ccm, txlist)
       else rbind (CLPA_batch P t0 ccm txlist)
         (\<lambda>(out, ccm, txlist).
            rbind (maybe_repartition fo P orders t1 t2 (CM_clpaLastRunningTime ccm \<noteq> 0) ccm)
              (\<lambda>(out', ccm). Inr (CM_nowDataNum ccm = CM_dataTotalNum ccm, out @ out', ccm, txlist))))"

text \<open>The flag of a row says that the loop ends after it: all data has been read, and the row was not
  skipped by \<^verbatim>\<open>continue\<close>. An event is a record with the visiting orders and the clock readings of its
  iteration.\<close>

type_synonym clpa_event = "string list option \<times> (nat \<Rightarrow> Vertex list) \<times> go_time \<times> go_time \<times> go_time"

fun CLPA_rows ::
    "'f floatops \<Rightarrow> cparams \<Rightarrow> clpa_event list \<Rightarrow> 'f clpa_committee \<times> Transaction list
      \<Rightarrow> (sends \<times> 'f clpa_committee \<times> Transaction list) res" where
  "CLPA_rows fo P [] st = Inr ([], st)"
| "CLPA_rows fo P ((row, orders, t0, t1, t2) # rows) st =
     rbind (CLPA_row fo P orders t0 t1 t2 row st) (\<lambda>(brk, out, ccm, txlist).
       if brk then Inr (out, ccm, txlist)
       else rbind (CLPA_rows fo P rows (ccm, txlist)) (\<lambda>(rest, st). Inr (out @ rest, st)))"

text \<open>One iteration of the loop that waits for the stop signal.\<close>

definition CLPA_wait ::
    "'f floatops \<Rightarrow> cparams \<Rightarrow> (nat \<Rightarrow> Vertex list) \<Rightarrow> go_time \<Rightarrow> go_time \<Rightarrow> 'f clpa_committee
      \<Rightarrow> (sends \<times> 'f clpa_committee) res" where
  "CLPA_wait fo P orders t1 t2 ccm =
     (if GapEnough (CM_Ss ccm) then Inr ([], ccm)
      else maybe_repartition fo P orders t1 t2 True ccm)"

section \<open>The broker committee\<close>

text \<open>The state the two broker committees share. \<^verbatim>\<open>brokerTxPool\<close> is never used.\<close>

record brokering =
  BM_broker :: Broker
  BM_brokerConfirm1Pool :: "string \<rightharpoonup> Mag1Confirm"
  BM_brokerConfirm2Pool :: "string \<rightharpoonup> Mag2Confirm"

definition broker0 :: "Broker \<Rightarrow> string res" where
  "broker0 b = (case BK_BrokerAddress b of [] \<Rightarrow> Inl (Panic ''index out of range'') | a # _ \<Rightarrow> Inr a)"

text \<open>The bodies of \<^verbatim>\<open>handleBrokerType1Mes\<close> and \<^verbatim>\<open>handleBrokerType2Mes\<close> for one message: the new
  transaction names the raw one, and is confirmed under its own hash, which \<^verbatim>\<open>NewTransaction\<close>
  computed before those fields were set.\<close>

definition broker_tx :: "cparams \<Rightarrow> string \<Rightarrow> string \<Rightarrow> Transaction \<Rightarrow> Transaction" where
  "broker_tx P sender recipient ctx =
     (NewTransaction (CP_sha P) sender recipient (Tx_Value ctx) (Tx_Nonce ctx))
       \<lparr>Tx_OriginalSender := Tx_Sender ctx, Tx_FinalRecipient := Tx_Recipient ctx,
        Tx_RawTxHash := Some (Tx_TxHash ctx)\<rparr>"

definition make_tx1 ::
    "cparams \<Rightarrow> BrokerType1Meg \<Rightarrow> brokering \<times> Transaction list \<Rightarrow> brokering \<times> Transaction list" where
  "make_tx1 P meg st =
     (let ctx = BR_Tx (B1_RawMeg meg);
          tx1 = broker_tx P (Tx_Sender ctx) (B1_Broker meg) ctx;
          confirm1 = \<lparr>M1_Tx1Hash = Tx_TxHash tx1, M1_RawMeg = B1_RawMeg meg\<rparr>
      in ((fst st)\<lparr>BM_brokerConfirm1Pool := (BM_brokerConfirm1Pool (fst st))(Tx_TxHash tx1 \<mapsto> confirm1)\<rparr>,
          snd st @ [tx1]))"

definition handleBrokerType1Mes ::
    "cparams \<Rightarrow> ip_table \<Rightarrow> (string \<Rightarrow> u64 res) \<Rightarrow> BrokerType1Meg list \<Rightarrow> brokering
      \<Rightarrow> (sends \<times> brokering) res" where
  "handleBrokerType1Mes P ips fetch megs bm =
     (let (bm, tx1s) = fold (make_tx1 P) megs (bm, [])
      in rbind (Broker_txSending P ips fetch (BM_broker bm) tx1s) (\<lambda>out. Inr (out, bm)))"

definition make_tx2 ::
    "cparams \<Rightarrow> BrokerType2Meg \<Rightarrow> brokering \<times> Transaction list \<Rightarrow> brokering \<times> Transaction list" where
  "make_tx2 P mes st =
     (let ctx = BR_Tx (B2_RawMeg mes);
          tx2 = broker_tx P (B2_Broker mes) (Tx_Recipient ctx) ctx;
          confirm2 = \<lparr>M2_Tx2Hash = Tx_TxHash tx2, M2_RawMeg = B2_RawMeg mes\<rparr>
      in ((fst st)\<lparr>BM_brokerConfirm2Pool := (BM_brokerConfirm2Pool (fst st))(Tx_TxHash tx2 \<mapsto> confirm2)\<rparr>,
          snd st @ [tx2]))"

definition handleBrokerType2Mes ::
    "cparams \<Rightarrow> ip_table \<Rightarrow> (string \<Rightarrow> u64 res) \<Rightarrow> BrokerType2Meg list \<Rightarrow> brokering
      \<Rightarrow> (sends \<times> brokering) res" where
  "handleBrokerType2Mes P ips fetch mess bm =
     (let (bm, tx2s) = fold (make_tx2 P) mess (bm, [])
      in rbind (Broker_txSending P ips fetch (BM_broker bm) tx2s) (\<lambda>out. Inr (out, bm)))"

definition handleBrokerRawMag ::
    "cparams \<Rightarrow> ip_table \<Rightarrow> (string \<Rightarrow> u64 res) \<Rightarrow> BrokerRawMeg list \<Rightarrow> brokering
      \<Rightarrow> (sends \<times> brokering) res" where
  "handleBrokerRawMag P ips fetch megs bm =
     (let raws = fold (\<lambda>meg m. m(CP_digest P meg \<mapsto> meg)) megs (BK_BrokerRawMegs (BM_broker bm));
          mags = map (\<lambda>meg. \<lparr>B1_RawMeg = meg, B1_Hcurrent = 0, B1_Broker = BR_Broker meg\<rparr>) megs
      in handleBrokerType1Mes P ips fetch mags
           (bm\<lparr>BM_broker := (BM_broker bm)\<lparr>BK_BrokerRawMegs := raws\<rparr>\<rparr>))"

text \<open>One iteration of \<^verbatim>\<open>dealTxByBroker\<close>: the transactions to inject and the raw messages.\<close>

definition deal_tx ::
    "(string \<Rightarrow> u64 res) \<Rightarrow> Broker \<Rightarrow> Transaction \<Rightarrow> Transaction list \<times> BrokerRawMeg list
      \<Rightarrow> (Transaction list \<times> BrokerRawMeg list) res" where
  "deal_tx fetch b tx st =
     rbind (fetch (Tx_Recipient tx)) (\<lambda>rSid.
     rbind (fetch (Tx_Sender tx)) (\<lambda>sSid.
       if rSid \<noteq> sSid \<and> \<not> IsBroker b (Tx_Recipient tx) \<and> \<not> IsBroker b (Tx_Sender tx)
       then rbind (broker0 b) (\<lambda>a. Inr (fst st, snd st @
              [\<lparr>BR_Tx = tx, BR_Broker = a, BR_Hlock = 0, BR_Snonce = 0, BR_Bnonce = 0, BR_Signature = []\<rparr>]))
       else let tx = (if IsBroker b (Tx_Recipient tx) \<or> IsBroker b (Tx_Sender tx)
                      then tx\<lparr>Tx_HasBroker := True, Tx_SenderIsBroker := IsBroker b (Tx_Sender tx)\<rparr>
                      else tx)
            in Inr (fst st @ [tx], snd st)))"

definition dealTxByBroker ::
    "cparams \<Rightarrow> ip_table \<Rightarrow> (string \<Rightarrow> u64 res) \<Rightarrow> Transaction list \<Rightarrow> brokering
      \<Rightarrow> (Transaction list \<times> sends \<times> brokering) res" where
  "dealTxByBroker P ips fetch txs bm =
     rbind (rfold (deal_tx fetch (BM_broker bm)) txs ([], [])) (\<lambda>(itxs, raws).
       if raws \<noteq> [] then rbind (handleBrokerRawMag P ips fetch raws bm) (\<lambda>(out, bm). Inr (itxs, out, bm))
       else Inr (itxs, [], bm))"

definition note_broker_tx :: "Transaction \<Rightarrow> bytes \<Rightarrow> Broker \<Rightarrow> Broker" where
  "note_broker_tx raw h b =
     b\<lparr>BK_RawTx2BrokerTx := (BK_RawTx2BrokerTx b)(Tx_TxHash raw \<mapsto>
        (case BK_RawTx2BrokerTx b (Tx_TxHash raw) of None \<Rightarrow> [] | Some l \<Rightarrow> l) @ [h])\<rparr>"

definition confirm_tx1 ::
    "cparams \<Rightarrow> Mag1Confirm \<Rightarrow> brokering \<times> BrokerType2Meg list \<Rightarrow> (brokering \<times> BrokerType2Meg list) res" where
  "confirm_tx1 P m st =
     (let bm = fst st; b = BM_broker bm; raw = M1_RawMeg m
      in if BK_BrokerRawMegs b (CP_digest P raw) = None then Inr st
         else rbind (broker0 b) (\<lambda>a.
           Inr (bm\<lparr>BM_broker := note_broker_tx (BR_Tx raw) (M1_Tx1Hash m) b\<rparr>,
                snd st @ [\<lparr>B2_RawMeg = raw, B2_Broker = a\<rparr>])))"

definition handleTx1ConfirmMag ::
    "cparams \<Rightarrow> ip_table \<Rightarrow> (string \<Rightarrow> u64 res) \<Rightarrow> Mag1Confirm list \<Rightarrow> brokering \<Rightarrow> (sends \<times> brokering) res" where
  "handleTx1ConfirmMag P ips fetch confirms bm =
     rbind (rfold (confirm_tx1 P) confirms (bm, [])) (\<lambda>(bm, mags).
       handleBrokerType2Mes P ips fetch mags bm)"

definition handleTx2ConfirmMag :: "Mag2Confirm list \<Rightarrow> brokering \<Rightarrow> brokering" where
  "handleTx2ConfirmMag confirms bm =
     bm\<lparr>BM_broker := fold (\<lambda>m. note_broker_tx (BR_Tx (M2_RawMeg m)) (M2_Tx2Hash m)) confirms (BM_broker bm)\<rparr>"

definition createConfirm ::
    "cparams \<Rightarrow> ip_table \<Rightarrow> (string \<Rightarrow> u64 res) \<Rightarrow> Transaction list \<Rightarrow> brokering \<Rightarrow> (sends \<times> brokering) res" where
  "createConfirm P ips fetch txs bm =
     (let confirm1s = List.map_filter (\<lambda>tx. BM_brokerConfirm1Pool bm (Tx_TxHash tx)) txs;
          confirm2s = List.map_filter (\<lambda>tx. BM_brokerConfirm2Pool bm (Tx_TxHash tx)) txs
      in rbind (if confirm1s \<noteq> [] then handleTx1ConfirmMag P ips fetch confirm1s bm else Inr ([], bm))
           (\<lambda>(out, bm). Inr (out, if confirm2s \<noteq> [] then handleTx2ConfirmMag confirm2s bm else bm)))"

record broker_committee = committee +
  CM_brokering :: brokering

definition new_brokering :: "string list \<Rightarrow> int \<Rightarrow> brokering" where
  "new_brokering lines BrokerNum =
     \<lparr>BM_broker = NewBroker lines BrokerNum, BM_brokerConfirm1Pool = Map.empty,
      BM_brokerConfirm2Pool = Map.empty\<rparr>"

definition NewBrokerCommitteeMod ::
    "string list \<Rightarrow> int \<Rightarrow> ip_table \<Rightarrow> StopSignal \<Rightarrow> int \<Rightarrow> int \<Rightarrow> broker_committee" where
  "NewBrokerCommitteeMod lines BrokerNum ips Ss dataNum batchNum =
     \<lparr>CM_dataTotalNum = dataNum, CM_nowDataNum = 0, CM_batchDataNum = batchNum,
      CM_IpNodeTable = ips, CM_Ss = Ss, CM_brokering = new_brokering lines BrokerNum\<rparr>"

definition Broker_row ::
    "cparams \<Rightarrow> string list option \<Rightarrow> broker_committee \<times> Transaction list
      \<Rightarrow> (bool \<times> sends \<times> broker_committee \<times> Transaction list) res" where
  "Broker_row P row st =
     rbind (read_row P row st) (\<lambda>(ok, bcm, txlist).
       if \<not> ok then Inr (False, [], bcm, txlist)
       else if batch_full bcm txlist
       then rbind (dealTxByBroker P (CM_IpNodeTable bcm) (shard_u64 P) txlist (CM_brokering bcm))
              (\<lambda>(itx, out, bm).
            rbind (Broker_txSending P (CM_IpNodeTable bcm) (shard_u64 P) (BM_broker bm) itx) (\<lambda>out'.
              Inr (CM_nowDataNum bcm = CM_dataTotalNum bcm, out @ out',
                   bcm\<lparr>CM_brokering := bm, CM_Ss := StopGap_Reset (CM_Ss bcm)\<rparr>, [])))
       else Inr (False, [], bcm, txlist))"

fun Broker_rows ::
    "cparams \<Rightarrow> string list option list \<Rightarrow> broker_committee \<times> Transaction list
      \<Rightarrow> (sends \<times> broker_committee \<times> Transaction list) res" where
  "Broker_rows P [] st = Inr ([], st)"
| "Broker_rows P (row # rows) st =
     rbind (Broker_row P row st) (\<lambda>(brk, out, bcm, txlist).
       if brk then Inr (out, bcm, txlist)
       else rbind (Broker_rows P rows (bcm, txlist)) (\<lambda>(rest, st). Inr (out @ rest, st)))"

definition Broker_AdjustByBlockInfos ::
    "cparams \<Rightarrow> BlockInfoMsg \<Rightarrow> broker_committee \<Rightarrow> (sends \<times> broker_committee) res" where
  "Broker_AdjustByBlockInfos P b bcm =
     (if BI_BlockBodyLength b = 0 then Inr ([], bcm)
      else rbind (createConfirm P (CM_IpNodeTable bcm) (shard_u64 P)
                    (BI_Broker1Txs b @ BI_Broker2Txs b) (CM_brokering bcm))
             (\<lambda>(out, bm). Inr (out, bcm\<lparr>CM_brokering := bm\<rparr>)))"

section \<open>The broker committee with CLPA\<close>

text \<open>\<^verbatim>\<open>CLPACommitteeMod_Broker\<close> has the fields of both committees and its own copies of the broker
  functions, with \<^verbatim>\<open>fetchModifiedMap\<close> looking into \<^verbatim>\<open>modifiedMap\<close> first.\<close>

record 'f clpa_broker_committee = "'f clpa_committee" +
  CM_CBbrokering :: brokering

definition CB_fetch :: "cparams \<Rightarrow> 'f clpa_broker_committee \<Rightarrow> string \<Rightarrow> u64 res" where
  "CB_fetch P ccm = fetchModifiedMap P (CM_modifiedMap ccm)"

definition CB_txSending ::
    "cparams \<Rightarrow> 'f clpa_broker_committee \<Rightarrow> Broker \<Rightarrow> Transaction list \<Rightarrow> sends res" where
  "CB_txSending P ccm = Broker_txSending P (CM_IpNodeTable ccm) (CB_fetch P ccm)"

definition CB_handleBrokerType1Mes ::
    "cparams \<Rightarrow> 'f clpa_broker_committee \<Rightarrow> BrokerType1Meg list \<Rightarrow> brokering \<Rightarrow> (sends \<times> brokering) res" where
  "CB_handleBrokerType1Mes P ccm megs bm =
     (let (bm, tx1s) = fold (make_tx1 P) megs (bm, [])
      in rbind (CB_txSending P ccm (BM_broker bm) tx1s) (\<lambda>out. Inr (out, bm)))"

definition CB_handleBrokerType2Mes ::
    "cparams \<Rightarrow> 'f clpa_broker_committee \<Rightarrow> BrokerType2Meg list \<Rightarrow> brokering \<Rightarrow> (sends \<times> brokering) res" where
  "CB_handleBrokerType2Mes P ccm mess bm =
     (let (bm, tx2s) = fold (make_tx2 P) mess (bm, [])
      in rbind (CB_txSending P ccm (BM_broker bm) tx2s) (\<lambda>out. Inr (out, bm)))"

definition CB_handleBrokerRawMag ::
    "cparams \<Rightarrow> 'f clpa_broker_committee \<Rightarrow> BrokerRawMeg list \<Rightarrow> brokering \<Rightarrow> (sends \<times> brokering) res" where
  "CB_handleBrokerRawMag P ccm megs bm =
     (let raws = fold (\<lambda>meg m. m(CP_digest P meg \<mapsto> meg)) megs (BK_BrokerRawMegs (BM_broker bm));
          mags = map (\<lambda>meg. \<lparr>B1_RawMeg = meg, B1_Hcurrent = 0, B1_Broker = BR_Broker meg\<rparr>) megs
      in CB_handleBrokerType1Mes P ccm mags (bm\<lparr>BM_broker := (BM_broker bm)\<lparr>BK_BrokerRawMegs := raws\<rparr>\<rparr>))"

definition CB_handleTx1ConfirmMag ::
    "cparams \<Rightarrow> 'f clpa_broker_committee \<Rightarrow> Mag1Confirm list \<Rightarrow> brokering \<Rightarrow> (sends \<times> brokering) res" where
  "CB_handleTx1ConfirmMag P ccm confirms bm =
     rbind (rfold (confirm_tx1 P) confirms (bm, [])) (\<lambda>(bm, mags). CB_handleBrokerType2Mes P ccm mags bm)"

definition CB_handleTx2ConfirmMag :: "Mag2Confirm list \<Rightarrow> brokering \<Rightarrow> brokering" where
  "CB_handleTx2ConfirmMag confirms bm =
     bm\<lparr>BM_broker := fold (\<lambda>m. note_broker_tx (BR_Tx (M2_RawMeg m)) (M2_Tx2Hash m)) confirms (BM_broker bm)\<rparr>"

definition CB_dealTxByBroker ::
    "cparams \<Rightarrow> 'f clpa_broker_committee \<Rightarrow> Transaction list \<Rightarrow> (Transaction list \<times> sends \<times> brokering) res" where
  "CB_dealTxByBroker P ccm txs =
     (let bm = CM_CBbrokering ccm in
      rbind (rfold (deal_tx (CB_fetch P ccm) (BM_broker bm)) txs ([], [])) (\<lambda>(itxs, raws).
        if raws \<noteq> [] then rbind (CB_handleBrokerRawMag P ccm raws bm) (\<lambda>(out, bm). Inr (itxs, out, bm))
        else Inr (itxs, [], bm)))"

definition CB_createConfirm ::
    "cparams \<Rightarrow> 'f clpa_broker_committee \<Rightarrow> Transaction list \<Rightarrow> (sends \<times> brokering) res" where
  "CB_createConfirm P ccm txs =
     (let bm = CM_CBbrokering ccm;
          confirm1s = List.map_filter (\<lambda>tx. BM_brokerConfirm1Pool bm (Tx_TxHash tx)) txs;
          confirm2s = List.map_filter (\<lambda>tx. BM_brokerConfirm2Pool bm (Tx_TxHash tx)) txs
      in rbind (if confirm1s \<noteq> [] then CB_handleTx1ConfirmMag P ccm confirm1s bm else Inr ([], bm))
           (\<lambda>(out, bm). Inr (out, if confirm2s \<noteq> [] then CB_handleTx2ConfirmMag confirm2s bm else bm)))"

definition NewCLPACommitteeMod_Broker ::
    "'f floatops \<Rightarrow> cparams \<Rightarrow> string list \<Rightarrow> int \<Rightarrow> ip_table \<Rightarrow> StopSignal \<Rightarrow> int \<Rightarrow> int \<Rightarrow> int
      \<Rightarrow> 'f clpa_broker_committee res" where
  "NewCLPACommitteeMod_Broker fo P lines BrokerNum ips Ss dataNum batchNum clpaFrequency =
     rbind (fresh_graph fo P) (\<lambda>cg. Inr
       \<lparr>CM_dataTotalNum = dataNum, CM_nowDataNum = 0, CM_batchDataNum = batchNum,
        CM_IpNodeTable = ips, CM_Ss = Ss, CM_clpaGraph = cg, CM_modifiedMap = [],
        CM_clpaLastRunningTime = 0, CM_clpaFreq = clpaFrequency,
        CM_CBbrokering = new_brokering lines BrokerNum\<rparr>)"

text \<open>\<^verbatim>\<open>dealTxByBroker\<close> followed by \<^verbatim>\<open>txSending\<close>, as \<^verbatim>\<open>TxHandling\<close> and \<^verbatim>\<open>HandleOtherMessage\<close> do.\<close>

definition CB_deal_and_send ::
    "cparams \<Rightarrow> Transaction list \<Rightarrow> 'f clpa_broker_committee \<Rightarrow> (sends \<times> 'f clpa_broker_committee) res" where
  "CB_deal_and_send P txs ccm =
     rbind (CB_dealTxByBroker P ccm txs) (\<lambda>(itx, out, bm).
     rbind (CB_txSending P ccm (BM_broker bm) itx) (\<lambda>out'.
       Inr (out @ out', ccm\<lparr>CM_CBbrokering := bm\<rparr>)))"

definition CB_HandleOtherMessage ::
    "cparams \<Rightarrow> net_msg \<Rightarrow> 'f clpa_broker_committee \<Rightarrow> (sends \<times> 'f clpa_broker_committee) res" where
  "CB_HandleOtherMessage P msg ccm =
     (case msg of MInner2CrossTx itct \<Rightarrow> CB_deal_and_send P (I2C_Txs itct) ccm | _ \<Rightarrow> Inr ([], ccm))"

definition CB_batch ::
    "cparams \<Rightarrow> go_time \<Rightarrow> 'f clpa_broker_committee \<Rightarrow> Transaction list
      \<Rightarrow> (sends \<times> 'f clpa_broker_committee \<times> Transaction list) res" where
  "CB_batch P t0 ccm txlist =
     (if batch_full ccm txlist
      then (let ccm = start_timer t0 ccm
            in rbind (CB_deal_and_send P txlist ccm) (\<lambda>(out, ccm).
                 Inr (out, ccm\<lparr>CM_Ss := StopGap_Reset (CM_Ss ccm)\<rparr>, [])))
      else Inr ([], ccm, txlist))"

definition CB_row ::
    "'f floatops \<Rightarrow> cparams \<Rightarrow> (nat \<Rightarrow> Vertex list) \<Rightarrow> go_time \<Rightarrow> go_time \<Rightarrow> go_time \<Rightarrow> string list option
      \<Rightarrow> 'f clpa_broker_committee \<times> Transaction list
      \<Rightarrow> (bool \<times> sends \<times> 'f clpa_broker_committee \<times> Transaction list) res" where
  "CB_row fo P orders t0 t1 t2 row st =
     rbind (read_row P row st) (\<lambda>(ok, ccm, txlist).
       if \<not> ok then Inr (False, [], ccm, txlist)
       else rbind (CB_batch P t0 ccm txlist)
         (\<lambda>(out, ccm, txlist).
            rbind (maybe_repartition fo P orders t1 t2 (CM_clpaLastRunningTime ccm \<noteq> 0) ccm)
              (\<lambda>(out', ccm). Inr (CM_nowDataNum ccm = CM_dataTotalNum ccm, out @ out', ccm, txlist))))"

fun CB_rows ::
    "'f floatops \<Rightarrow> cparams \<Rightarrow> clpa_event list \<Rightarrow> 'f clpa_broker_committee \<times> Transaction list
      \<Rightarrow> (sends \<times> 'f clpa_broker_committee \<times> Transaction list) res" where
  "CB_rows fo P [] st = Inr ([], st)"
| "CB_rows fo P ((row, orders, t0, t1, t2) # rows) st =
     rbind (CB_row fo P orders t0 t1 t2 row st) (\<lambda>(brk, out, ccm, txlist).
       if brk then Inr (out, ccm, txlist)
       else rbind (CB_rows fo P rows (ccm, txlist)) (\<lambda>(rest, st). Inr (out @ rest, st)))"

definition CB_wait ::
    "'f floatops \<Rightarrow> cparams \<Rightarrow> (nat \<Rightarrow> Vertex list) \<Rightarrow> go_time \<Rightarrow> go_time \<Rightarrow> 'f clpa_broker_committee
      \<Rightarrow> (sends \<times> 'f clpa_broker_committee) res" where
  "CB_wait fo P orders t1 t2 ccm =
     (if GapEnough (CM_Ss ccm) then Inr ([], ccm)
      else maybe_repartition fo P orders t1 t2 True ccm)"

definition CB_AdjustByBlockInfos ::
    "cparams \<Rightarrow> BlockInfoMsg \<Rightarrow> 'f clpa_broker_committee \<Rightarrow> (sends \<times> 'f clpa_broker_committee) res" where
  "CB_AdjustByBlockInfos P b ccm =
     (if BI_BlockBodyLength b = 0 then Inr ([], ccm)
      else rbind (CB_createConfirm P ccm (BI_Broker1Txs b @ BI_Broker2Txs b)) (\<lambda>(out, bm).
           rbind (rfold (\<lambda>tx g. if Tx_HasBroker tx then Inr g
                                else graph_edge P (Tx_Sender tx) (Tx_Recipient tx) g)
                    (BI_ExcutedTxs b) (CM_clpaGraph ccm)) (\<lambda>g.
           rbind (rfold (\<lambda>tx. graph_edge P (Tx_OriginalSender tx) (Tx_FinalRecipient tx))
                    (BI_Broker1Txs b) g) (\<lambda>g.
             Inr (out, ccm\<lparr>CM_CBbrokering := bm, CM_clpaGraph := g\<rparr>)))))"

end
