(* ===== verification/CommitteeProps.thy ===== *)
theory CommitteeProps
  imports Committee PartitionProps
begin

text \<open>
  Correctness of the committees. The locale \<open>injector\<close> is what the injecting loop relies on: for
  the transactions it is given, the routing function returns one of the shards. Its lemma, that
  every transaction reaches the leader of its shard exactly once and in order, is used for the
  three routings of the program. The relay committee sends what it reads batch by batch; the CLPA
  committee keeps its graph well-formed and its map inside the range of shards in every reachable
  state; the broker committee replaces a cross-shard transaction by two that meet at a broker.
\<close>

section \<open>Injection\<close>

definition num_shards :: "cparams \<Rightarrow> nat" where
  "num_shards P = unat (of_int (CP_ShardNum P) :: u64)"

text \<open>What a list of messages injects into a shard.\<close>

definition inj_txs :: "u64 \<Rightarrow> net_msg \<Rightarrow> Transaction list" where
  "inj_txs sid m = (case m of MInject it \<Rightarrow> if IT_ToShardID it = sid then IT_Txs it else [] | _ \<Rightarrow> [])"

definition delivered :: "u64 \<Rightarrow> sends \<Rightarrow> Transaction list" where
  "delivered sid out = concat (map (inj_txs sid \<circ> snd) out)"

definition to_leaders :: "ip_table \<Rightarrow> sends \<Rightarrow> bool" where
  "to_leaders ips out \<longleftrightarrow> (\<forall>(ip, m)\<in>set out. \<exists>it. m = MInject it \<and> ip = ip_of ips (IT_ToShardID it) 0)"

lemma delivered_simps [simp]:
  "delivered sid [] = []" "delivered sid (out @ out') = delivered sid out @ delivered sid out'"
  by (simp_all add: delivered_def)

lemma to_leaders_simps [simp]:
  "to_leaders ips []" "to_leaders ips (out @ out') \<longleftrightarrow> to_leaders ips out \<and> to_leaders ips out'"
  unfolding to_leaders_def by (simp, simp only: set_append ball_Un)

lemma concat_single:
  "distinct ks \<Longrightarrow> concat (map (\<lambda>k. if k = j then f k else []) ks) = (if j \<in> set ks then f j else [])"
  by (induction ks) auto

lemma delivered_flush:
  "delivered sid (flush P ips st) = (if unat sid < num_shards P then st sid else [])"
proof -
  define n where "n = num_shards P"
  have n: "n \<le> 2 ^ 64" using unat_u64_bound [of "of_int (CP_ShardNum P)"] by (simp add: n_def num_shards_def)
  have eq: "(of_nat k = sid) = (k = unat sid)" if "k < n" for k
    using that n unat_of_nat_u64 [of k] by auto
  have "delivered sid (flush P ips st) =
      concat (map (\<lambda>k. if of_nat k = sid then st (of_nat k) else []) [0..<n])"
    by (simp add: delivered_def flush_def inj_txs_def n_def num_shards_def comp_def cong: if_cong)
  also have "\<dots> = concat (map (\<lambda>k. if k = unat sid then st (of_nat k) else []) [0..<n])"
    by (rule arg_cong [of _ _ concat], rule map_cong) (use eq in auto)
  also have "\<dots> = (if unat sid < n then st sid else [])"
    by (subst concat_single) auto
  finally show ?thesis by (simp add: n_def)
qed

lemma to_leaders_flush [simp]: "to_leaders ips (flush P ips st)"
  by (auto simp: to_leaders_def flush_def)

locale injector =
  fixes P :: cparams and ips :: ip_table
    and route :: "Transaction \<Rightarrow> u64 res" and good :: "Transaction \<Rightarrow> bool"
  assumes good_speed: "good tx \<Longrightarrow> CP_InjectSpeed P \<noteq> 0"
    and good_route: "good tx \<Longrightarrow> \<exists>s. route tx = Inr s \<and> unat s < num_shards P"
begin

lemma inject_loop_delivers:
  assumes "\<forall>tx\<in>set txs. good tx" and "idx = 0 \<Longrightarrow> st = (\<lambda>_. [])" and "idx > 0 \<Longrightarrow> CP_InjectSpeed P \<noteq> 0"
    and "\<forall>sid. \<not> unat sid < num_shards P \<longrightarrow> st sid = []"
  shows "\<exists>out. inject_loop P ips route idx txs st = Inr out \<and> to_leaders ips out
           \<and> (\<forall>sid. delivered sid out = st sid @ filter (\<lambda>tx. route tx = Inr sid) txs)"
  using assms
proof (induction txs arbitrary: idx st)
  case Nil
  then show ?case by (cases "idx = 0") (auto simp: flush_now_def delivered_flush)
next
  case (Cons tx txs)
  from Cons.prems(1) have good: "good tx" by simp
  obtain s where s: "route tx = Inr s" "unat s < num_shards P" using good_route [OF good] by blast
  obtain fl where fl: "flush_now P idx False = Inr fl"
    using good_speed [OF good] by (cases "idx > 0") (auto simp: flush_now_def)
  define out where "out = (if fl then flush P ips st else [])"
  define st0 where "st0 = (if fl then (\<lambda>_. []) else st)"
  have "\<exists>rest. inject_loop P ips route (idx + 1) txs (st0(s := st0 s @ [tx])) = Inr rest
      \<and> to_leaders ips rest
      \<and> (\<forall>sid. delivered sid rest = (st0(s := st0 s @ [tx])) sid @ filter (\<lambda>tx. route tx = Inr sid) txs)"
    using Cons.prems s(2) good_speed [OF good] by (intro Cons.IH) (auto simp: st0_def)
  then obtain rest where rest: "inject_loop P ips route (idx + 1) txs (st0(s := st0 s @ [tx])) = Inr rest"
    "to_leaders ips rest"
    "\<forall>sid. delivered sid rest = (st0(s := st0 s @ [tx])) sid @ filter (\<lambda>tx. route tx = Inr sid) txs"
    by blast
  have pre: "delivered sid out @ st0 sid = st sid" for sid
    using Cons.prems(4) by (simp add: out_def st0_def delivered_flush)
  have "inject_loop P ips route idx (tx # txs) st = Inr (out @ rest)"
    using fl s(1) rest(1) by (simp add: out_def [symmetric] st0_def [symmetric] Let_def)
  moreover have "delivered sid (out @ rest) = st sid @ filter (\<lambda>tx. route tx = Inr sid) (tx # txs)" for sid
    using rest(3) pre [of sid] s(1) by auto
  moreover have "to_leaders ips (out @ rest)" using rest(2) by (simp add: out_def)
  ultimately show ?case by blast
qed

lemma inject_delivers:
  assumes "\<forall>tx\<in>set txs. good tx"
  shows "\<exists>out. inject_loop P ips route 0 txs (\<lambda>_. []) = Inr out \<and> to_leaders ips out
           \<and> (\<forall>sid. delivered sid out = filter (\<lambda>tx. route tx = Inr sid) txs)"
  using inject_loop_delivers [OF assms, of 0 "\<lambda>_. []"] by simp

end

text \<open>The parameters of the program, and the three routings.\<close>

definition params_ok :: "cparams \<Rightarrow> bool" where
  "params_ok P \<longleftrightarrow> 0 < CP_ShardNum P \<and> CP_ShardNum P < 2 ^ 63 \<and> CP_InjectSpeed P \<noteq> 0"

definition map_in_range :: "cparams \<Rightarrow> (string, u64) gomap \<Rightarrow> bool" where
  "map_in_range P m \<longleftrightarrow> (\<forall>e\<in>set m. unat (snd e) < num_shards P)"

lemma num_shards_eq: "params_ok P \<Longrightarrow> num_shards P = nat (CP_ShardNum P)"
  by (simp add: params_ok_def num_shards_def unat_eq_nat_uint unsigned_of_int take_bit_int_eq_self)

lemma unat_shard: "params_ok P \<Longrightarrow> 0 \<le> s \<Longrightarrow> s < CP_ShardNum P \<Longrightarrow> unat (of_int s :: u64) = nat s"
  by (simp add: params_ok_def unat_eq_nat_uint unsigned_of_int take_bit_int_eq_self)

lemma shard_u64_total:
  assumes "params_ok P" and "valid_addr a"
  shows "\<exists>s. shard_u64 P a = Inr s \<and> unat s < num_shards P"
proof -
  have pos: "0 < CP_ShardNum P" using assms(1) by (simp add: params_ok_def)
  obtain k where k: "Addr2Shard (CP_ShardNum P) a = Inr k" using Addr2Shard_total [OF pos assms(2)] by blast
  with Addr2Shard_bounds [OF pos k] assms(1) show ?thesis
    by (simp add: shard_u64_def num_shards_eq unat_shard)
qed

lemma fetchModifiedMap_total:
  assumes "params_ok P" and "valid_addr a" and "map_in_range P m"
  shows "\<exists>s. fetchModifiedMap P m a = Inr s \<and> unat s < num_shards P"
  using assms shard_u64_total [OF assms(1,2)]
  by (fastforce simp: fetchModifiedMap_def map_in_range_def split: option.splits dest: map_of_SomeD)

interpretation relay_inj: injector P ips "\<lambda>tx. shard_u64 P (Tx_Sender tx)"
  "\<lambda>tx. params_ok P \<and> valid_addr (Tx_Sender tx)" for P ips
  by unfold_locales (simp add: params_ok_def, blast intro: shard_u64_total)

interpretation clpa_inj: injector P ips "\<lambda>tx. fetchModifiedMap P m (Tx_Sender tx)"
  "\<lambda>tx. params_ok P \<and> map_in_range P m \<and> valid_addr (Tx_Sender tx)" for P ips m
  by unfold_locales (simp add: params_ok_def, blast intro: fetchModifiedMap_total)

definition fetch_total :: "cparams \<Rightarrow> (string \<Rightarrow> u64 res) \<Rightarrow> bool" where
  "fetch_total P fetch \<longleftrightarrow> params_ok P \<and> (\<forall>a. valid_addr a \<longrightarrow> (\<exists>s. fetch a = Inr s \<and> unat s < num_shards P))"

interpretation broker_inj: injector P ips "broker_route fetch b"
  "\<lambda>tx. fetch_total P fetch \<and> valid_addr (Tx_Sender tx) \<and> valid_addr (Tx_Recipient tx)" for P ips fetch b
proof unfold_locales
  fix tx :: Transaction
  assume a: "fetch_total P fetch \<and> valid_addr (Tx_Sender tx) \<and> valid_addr (Tx_Recipient tx)"
  then show "CP_InjectSpeed P \<noteq> 0" by (simp add: fetch_total_def params_ok_def)
  from a obtain s r where "fetch (Tx_Sender tx) = Inr s" "unat s < num_shards P"
    "fetch (Tx_Recipient tx) = Inr r" "unat r < num_shards P" unfolding fetch_total_def by blast
  then show "\<exists>s. broker_route fetch b tx = Inr s \<and> unat s < num_shards P"
    by (simp add: broker_route_def)
qed

section \<open>The relay committee\<close>

text \<open>The transactions that the loop takes from the records: it stops at the end of the file, after
  \<open>n\<close> records and when \<open>tot\<close> transactions have been read.\<close>

fun taken :: "cparams \<Rightarrow> int \<Rightarrow> nat \<Rightarrow> int \<Rightarrow> string list option list \<Rightarrow> Transaction list" where
  "taken P tot 0 now rows = []"
| "taken P tot (Suc n) now [] = []"
| "taken P tot (Suc n) now (row # rows) =
     (case row of
        None \<Rightarrow> []
      | Some data \<Rightarrow>
          (case data2tx P data (of_int now) of
             Inr (Some tx) \<Rightarrow> tx # (if now + 1 = tot then [] else taken P tot n (now + 1) rows)
           | _ \<Rightarrow> (if now = tot then [] else taken P tot n now rows)))"

text \<open>Every record is readable, and what it holds has a sender whose shard is defined.\<close>

definition row_ok :: "cparams \<Rightarrow> string list option \<Rightarrow> bool" where
  "row_ok P row \<longleftrightarrow> (\<exists>data. row = Some data \<and>
     (\<forall>nonce. \<exists>mtx. data2tx P data nonce = Inr mtx \<and> (\<forall>tx. mtx = Some tx \<longrightarrow> valid_addr (Tx_Sender tx))))"

abbreviation relay_shard :: "cparams \<Rightarrow> u64 \<Rightarrow> Transaction \<Rightarrow> bool" where
  "relay_shard P sid tx \<equiv> shard_u64 P (Tx_Sender tx) = Inr sid"

lemma Relay_row_sends:
  assumes "params_ok P" and "row_ok P row" and "\<forall>tx\<in>set txlist. valid_addr (Tx_Sender tx)"
  obtains out cm' txlist' sent mtx data where "row = Some data"
    "data2tx P data (of_int (CM_nowDataNum cm)) = Inr mtx"
    "Relay_row P row (cm, txlist) = Inr (out, cm', txlist')"
    "sent @ txlist' = txlist @ (case mtx of None \<Rightarrow> [] | Some tx \<Rightarrow> [tx])"
    "CM_dataTotalNum cm' = CM_dataTotalNum cm"
    "CM_IpNodeTable cm' = CM_IpNodeTable cm"
    "CM_nowDataNum cm' = CM_nowDataNum cm + (case mtx of None \<Rightarrow> 0 | Some tx \<Rightarrow> 1)"
    "\<forall>tx\<in>set txlist'. valid_addr (Tx_Sender tx)"
    "to_leaders (CM_IpNodeTable cm) out"
    "\<forall>sid. delivered sid out = filter (relay_shard P sid) sent"
proof -
  from assms(2) obtain data mtx where row: "row = Some data"
    and mtx: "data2tx P data (of_int (CM_nowDataNum cm)) = Inr mtx"
    and good: "\<forall>tx. mtx = Some tx \<longrightarrow> valid_addr (Tx_Sender tx)"
    unfolding row_ok_def by blast
  define cm1 where "cm1 = (case mtx of None \<Rightarrow> cm | Some tx \<Rightarrow> cm\<lparr>CM_nowDataNum := CM_nowDataNum cm + 1\<rparr>)"
  define txs where "txs = txlist @ (case mtx of None \<Rightarrow> [] | Some tx \<Rightarrow> [tx])"
  have read: "read_row P row (cm, txlist) = Inr (mtx \<noteq> None, cm1, txs)"
    using mtx by (simp add: read_row_def row cm1_def txs_def split: option.splits)
  have txs_ok: "\<forall>tx\<in>set txs. valid_addr (Tx_Sender tx)"
    using assms(3) good by (auto simp: txs_def split: option.splits)
  have cm1: "CM_dataTotalNum cm1 = CM_dataTotalNum cm" "CM_IpNodeTable cm1 = CM_IpNodeTable cm"
    "CM_nowDataNum cm1 = CM_nowDataNum cm + (case mtx of None \<Rightarrow> 0 | Some tx \<Rightarrow> 1)"
    by (simp_all add: cm1_def split: option.splits)
  show ?thesis
  proof (cases "batch_full cm1 txs")
    case True
    from relay_inj.inject_delivers [of txs P "CM_IpNodeTable cm1"] txs_ok assms(1)
    obtain out where out: "Relay_txSending P (CM_IpNodeTable cm1) txs = Inr out"
      "to_leaders (CM_IpNodeTable cm1) out" "\<forall>sid. delivered sid out = filter (relay_shard P sid) txs"
      by (auto simp: Relay_txSending_def)
    show ?thesis
      by (rule that [OF row mtx, of out "cm1\<lparr>CM_Ss := StopGap_Reset (CM_Ss cm1)\<rparr>" "[]" txs])
        (use read True out cm1 in \<open>simp_all add: Relay_row_def txs_def\<close>)
  next
    case False
    show ?thesis
      by (rule that [OF row mtx, of "[]" cm1 txs "[]"])
        (use read False cm1 txs_ok in \<open>simp_all add: Relay_row_def txs_def\<close>)
  qed
qed

lemma Relay_rows_sends:
  assumes "params_ok P" and "\<forall>row\<in>set rows. row_ok P row" and "\<forall>tx\<in>set txlist. valid_addr (Tx_Sender tx)"
  shows "\<exists>out cm' left sent. Relay_rows P n rows (cm, txlist) = Inr (out, cm', left)
      \<and> sent @ left = txlist @ taken P (CM_dataTotalNum cm) n (CM_nowDataNum cm) rows
      \<and> to_leaders (CM_IpNodeTable cm) out \<and> CM_IpNodeTable cm' = CM_IpNodeTable cm
      \<and> (\<forall>sid. delivered sid out = filter (relay_shard P sid) sent)"
  using assms
proof (induction P n rows "(cm, txlist)" arbitrary: cm txlist rule: Relay_rows.induct)
  case (1 P rows)
  then show ?case by (intro exI [of _ "[]"] exI) simp
next
  case (2 P n)
  then show ?case by (intro exI [of _ "[]"] exI) simp
next
  case (3 P n row rows)
  have ok: "row_ok P row" "\<forall>row\<in>set rows. row_ok P row" using "3.prems"(2) by simp_all
  obtain out cm' txlist' sent mtx data where r: "row = Some data"
    "data2tx P data (of_int (CM_nowDataNum cm)) = Inr mtx"
    "Relay_row P row (cm, txlist) = Inr (out, cm', txlist')"
    "sent @ txlist' = txlist @ (case mtx of None \<Rightarrow> [] | Some tx \<Rightarrow> [tx])"
    "CM_dataTotalNum cm' = CM_dataTotalNum cm"
    "CM_IpNodeTable cm' = CM_IpNodeTable cm"
    "CM_nowDataNum cm' = CM_nowDataNum cm + (case mtx of None \<Rightarrow> 0 | Some tx \<Rightarrow> 1)"
    "\<forall>tx\<in>set txlist'. valid_addr (Tx_Sender tx)"
    "to_leaders (CM_IpNodeTable cm) out"
    "\<forall>sid. delivered sid out = filter (relay_shard P sid) sent"
    by (rule Relay_row_sends [OF "3.prems"(1) ok(1) "3.prems"(3), where cm = cm]) (rule that)
  show ?case
  proof (cases "CM_nowDataNum cm' = CM_dataTotalNum cm'")
    case True
    have "taken P (CM_dataTotalNum cm) (Suc n) (CM_nowDataNum cm) (row # rows) =
        (case mtx of None \<Rightarrow> [] | Some tx \<Rightarrow> [tx])"
      using True r(1,2,5,7) by (simp split: option.splits)
    with r True show ?thesis
      by (intro exI [of _ out] exI [of _ cm'] exI [of _ txlist'] exI [of _ sent]) simp
  next
    case False
    have tk: "taken P (CM_dataTotalNum cm) (Suc n) (CM_nowDataNum cm) (row # rows) =
        (case mtx of None \<Rightarrow> [] | Some tx \<Rightarrow> [tx]) @ taken P (CM_dataTotalNum cm') n (CM_nowDataNum cm') rows"
      using False r(1,2,5,7) by (simp split: option.splits)
    have "\<exists>out2 cm2 left sent2. Relay_rows P n rows (cm', txlist') = Inr (out2, cm2, left)
      \<and> sent2 @ left = txlist' @ taken P (CM_dataTotalNum cm') n (CM_nowDataNum cm') rows
      \<and> to_leaders (CM_IpNodeTable cm') out2 \<and> CM_IpNodeTable cm2 = CM_IpNodeTable cm'
      \<and> (\<forall>sid. delivered sid out2 = filter (relay_shard P sid) sent2)"
      using False by (intro "3.hyps" [OF _ "3.prems"(1) ok(2) r(8)])
    then obtain out2 cm2 left sent2 where r2: "Relay_rows P n rows (cm', txlist') = Inr (out2, cm2, left)"
      "sent2 @ left = txlist' @ taken P (CM_dataTotalNum cm') n (CM_nowDataNum cm') rows"
      "to_leaders (CM_IpNodeTable cm') out2" "CM_IpNodeTable cm2 = CM_IpNodeTable cm'"
      "\<forall>sid. delivered sid out2 = filter (relay_shard P sid) sent2" by blast
    have "(sent @ sent2) @ left = txlist @ taken P (CM_dataTotalNum cm) (Suc n) (CM_nowDataNum cm) (row # rows)"
      using r(4) r2(2) tk by (metis append.assoc)
    then show ?thesis
      using r r2 False
      by (intro exI [of _ "out @ out2"] exI [of _ cm2] exI [of _ left] exI [of _ "sent @ sent2"]) simp
  qed
qed


section \<open>The CLPA committee\<close>

definition com_ok :: "cparams \<Rightarrow> ('f, 'a) clpa_committee_scheme \<Rightarrow> bool" where
  "com_ok P c \<longleftrightarrow> clpa_ok (CM_clpaGraph c) \<and> CS_ShardNum (CM_clpaGraph c) = CP_ShardNum P
     \<and> map_in_range P (CM_modifiedMap c)"

definition edge_ok :: "string \<Rightarrow> string \<Rightarrow> bool" where
  "edge_ok a b \<longleftrightarrow> valid_addr a \<and> valid_addr b \<and> a \<noteq> b"

lemma zero_CLPAState_eq: "zero_CLPAState fo = zero_CLPA (F_of_int fo 0)"
  by (simp add: zero_CLPAState_def zero_CLPA_def)

lemma fresh_graph_ok:
  assumes "params_ok P" and "\<forall>v s. gget pm v = Some s \<longrightarrow> 0 \<le> s \<and> s < CP_ShardNum P"
  shows "\<exists>cg. fresh_graph fo P = Inr cg \<and> CS_ShardNum cg = CP_ShardNum P \<and> CS_PartitionMap cg = []
           \<and> clpa_ok (cg\<lparr>CS_PartitionMap := pm\<rparr>)"
  unfolding fresh_graph_def zero_CLPAState_eq
  by (rule Init_CLPAState_ok) (use assms in \<open>simp_all add: params_ok_def\<close>)

lemma graph_edge_ok:
  assumes "params_ok P" and "edge_ok a b" and "clpa_ok g \<and> CS_ShardNum g = CP_ShardNum P"
  shows "\<exists>g'. graph_edge P a b g = Inr g' \<and> clpa_ok g' \<and> CS_ShardNum g' = CP_ShardNum P"
  using CLPA_AddEdge_ok [of g "CP_ShardNum P" "\<lparr>V_Addr = a\<rparr>" "\<lparr>V_Addr = b\<rparr>"] assms
  by (simp add: graph_edge_def edge_ok_def params_ok_def)

lemma graph_edges_ok:
  assumes "params_ok P" and "\<forall>tx\<in>set txs. edge_ok (f tx) (h tx)"
    and "clpa_ok g \<and> CS_ShardNum g = CP_ShardNum P"
  shows "\<exists>g'. rfold (\<lambda>tx. graph_edge P (f tx) (h tx)) txs g = Inr g' \<and> clpa_ok g'
           \<and> CS_ShardNum g' = CP_ShardNum P"
  using assms by (intro rfold_total) (auto intro: graph_edge_ok)

lemma seed_entries:
  "gget (seed_partition m pm) v = Some s \<Longrightarrow> gget pm v = Some s \<or> (\<exists>e\<in>set m. s = sint (snd e))"
  unfolding seed_partition_def
proof (induction m arbitrary: pm)
  case Nil
  then show ?case by simp
next
  case (Cons e m)
  then show ?case by (cases e) (fastforce split: if_splits)
qed

lemma set_gput: "set (gput k x m) \<subseteq> insert (k, x) (set m)"
  by (induction m) auto

lemma map_in_range_fold:
  "map_in_range P new \<Longrightarrow> map_in_range P m \<Longrightarrow> map_in_range P (fold (\<lambda>(key, val). gput key val) new m)"
proof (induction new arbitrary: m)
  case Nil
  then show ?case by simp
next
  case (Cons e new)
  have "map_in_range P (gput (fst e) (snd e) m)"
    using Cons.prems set_gput [of "fst e" "snd e" m] by (auto simp: map_in_range_def)
  with Cons show ?case by (simp add: map_in_range_def case_prod_beta)
qed

lemma sint_of_nat_63: "n < 2 ^ 63 \<Longrightarrow> sint (of_nat n :: u64) = int n"
  by (simp add: signed_of_nat signed_take_bit_int_eq_self)

lemma sint_small: "unat (w :: u64) < 2 ^ 63 \<Longrightarrow> sint w = int (unat w)"
  using sint_of_nat_63 [of "unat w"] by simp

lemma seed_in_range:
  assumes "params_ok P" and "map_in_range P m" and "gget (seed_partition m []) v = Some s"
  shows "0 \<le> s \<and> s < CP_ShardNum P"
proof -
  from seed_entries [OF assms(3)] obtain e where e: "e \<in> set m" "s = sint (snd e)" by auto
  have "unat (snd e) < nat (CP_ShardNum P)"
    using assms(2) e(1) by (simp add: map_in_range_def num_shards_eq [OF assms(1)])
  moreover have "nat (CP_ShardNum P) < 2 ^ 63" using assms(1) by (simp add: params_ok_def nat_less_iff)
  ultimately have "unat (snd e) < nat (CP_ShardNum P)" "unat (snd e) < 2 ^ 63" by (auto elim: less_trans)
  with sint_small [of "snd e"] e(2) have "s = int (unat (snd e))" "unat (snd e) < nat (CP_ShardNum P)"
    by simp_all
  then show ?thesis by linarith
qed

lemma clpaReset_ok:
  assumes "params_ok P" and "map_in_range P (CM_modifiedMap c)"
  shows "\<exists>c'. clpaReset fo P c = Inr c' \<and> com_ok P c' \<and> CM_modifiedMap c' = CM_modifiedMap c
           \<and> CM_IpNodeTable c' = CM_IpNodeTable c"
proof -
  from fresh_graph_ok [OF assms(1), of "seed_partition (CM_modifiedMap c) []" fo] seed_in_range [OF assms]
  obtain cg where cg: "fresh_graph fo P = Inr cg" "CS_ShardNum cg = CP_ShardNum P" "CS_PartitionMap cg = []"
    "clpa_ok (cg\<lparr>CS_PartitionMap := seed_partition (CM_modifiedMap c) []\<rparr>)" by blast
  then show ?thesis using assms(2) by (simp add: clpaReset_def com_ok_def)
qed

definition orders_ok :: "(nat \<Rightarrow> Vertex list) \<Rightarrow> ('f, 'a) clpa_committee_scheme \<Rightarrow> bool" where
  "orders_ok orders c \<longleftrightarrow> (\<forall>i. set (orders i) = vertices (CM_clpaGraph c))"

lemma repartition_ok:
  fixes fo :: "'f floatops" and c :: "('f, 'a) clpa_committee_scheme"
  assumes "params_ok P" and "com_ok P c" and "orders_ok orders c"
  shows "\<exists>out c' mmap. repartition fo P orders c = Inr (out, c') \<and> com_ok P c'
           \<and> out = clpaMapSend P (CM_IpNodeTable c) mmap \<and> map_in_range P mmap"
proof -
  define g where "g = CM_clpaGraph c"
  have g: "clpa_ok g" "CS_ShardNum g = CP_ShardNum P" and m: "map_in_range P (CM_modifiedMap c)"
    using assms(2) by (simp_all add: com_ok_def g_def)
  obtain mmap cross g' where run: "CLPA_Partition fo orders g = Inr (mmap, cross, g')"
    and wf: "wf_map mmap"
    and g': "clpa_ok g'" "CS_NetGraph g' = CS_NetGraph g" "CS_ShardNum g' = CS_ShardNum g"
    and res: "\<And>v s. gget mmap (V_Addr v) = Some s \<Longrightarrow> v \<in> vertices g \<and> s = of_int (part g' v)"
    using partition_run [OF g(1), of orders fo] assms(3) unfolding orders_ok_def g_def by blast
  have "unat s < num_shards P" if "(a, s) \<in> set mmap" for a s
  proof -
    have "gget mmap (V_Addr \<lparr>V_Addr = a\<rparr>) = Some s" using that wf by (simp add: gget_set)
    from res [OF this] have s: "\<lparr>V_Addr = a\<rparr> \<in> vertices g'" "s = of_int (part g' \<lparr>V_Addr = a\<rparr>)"
      by (simp_all add: g'(2))
    have "shards_ok g'" using g'(1) by (simp add: clpa_ok_def)
    from part_in_range [OF this s(1)] show ?thesis
      using g'(3) g(2) s(2) by (simp add: unat_shard [OF assms(1)] num_shards_eq [OF assms(1)])
  qed
  then have mm: "map_in_range P mmap" by (auto simp: map_in_range_def)
  define c1 where "c1 = c\<lparr>CM_clpaGraph := g',
      CM_modifiedMap := fold (\<lambda>(key, val). gput key val) mmap (CM_modifiedMap c)\<rparr>"
  have "map_in_range P (CM_modifiedMap c1)" using map_in_range_fold [OF mm m] by (simp add: c1_def)
  from clpaReset_ok [OF assms(1) this, of fo] obtain c' where c': "clpaReset fo P c1 = Inr c'" "com_ok P c'"
    "CM_IpNodeTable c' = CM_IpNodeTable c1" by blast
  have "repartition fo P orders c = Inr (clpaMapSend P (CM_IpNodeTable c) mmap, c')"
    using run c' by (simp add: repartition_def g_def [symmetric] Let_def c1_def)
  with c' mm show ?thesis by blast
qed

lemma maybe_repartition_ok:
  assumes "params_ok P" and "com_ok P c" and "orders_ok orders c"
  shows "\<exists>out c'. maybe_repartition fo P orders t1 t2 started c = Inr (out, c') \<and> com_ok P c'"
proof (cases "started \<and> clpa_due c t1")
  case True
  from repartition_ok [OF assms, of fo] obtain out c' where
    "repartition fo P orders c = Inr (out, c')" "com_ok P c'" by blast
  with True show ?thesis by (simp add: maybe_repartition_def com_ok_def)
next
  case False
  then show ?thesis using assms(2) by (auto simp: maybe_repartition_def)
qed

lemma adjust_ok:
  assumes "params_ok P" and "com_ok P c" and "\<forall>tx\<in>set (BI_ExcutedTxs b). edge_ok (Tx_Sender tx) (Tx_Recipient tx)"
  shows "\<exists>c'. CLPA_AdjustByBlockInfos P b c = Inr c' \<and> com_ok P c'"
proof (cases "BI_BlockBodyLength b = 0")
  case True
  then show ?thesis using assms(2) by (simp add: CLPA_AdjustByBlockInfos_def)
next
  case False
  from graph_edges_ok [OF assms(1,3), of "CM_clpaGraph c"] assms(2) obtain g where
    "rfold (\<lambda>tx. graph_edge P (Tx_Sender tx) (Tx_Recipient tx)) (BI_ExcutedTxs b) (CM_clpaGraph c) = Inr g"
    "clpa_ok g" "CS_ShardNum g = CP_ShardNum P" by (auto simp: com_ok_def)
  with False assms(2) show ?thesis by (simp add: CLPA_AdjustByBlockInfos_def com_ok_def)
qed

text \<open>The states the committee can reach: the records of the data file, the reports of the shards,
  the waiting loop and the other users of the stop signal come in any order.\<close>

inductive com_reach :: "'f floatops \<Rightarrow> cparams \<Rightarrow> 'f clpa_committee \<Rightarrow> bool" for fo P where
  new: "NewCLPACommitteeModule fo P ips Ss dn bn freq = Inr c \<Longrightarrow> com_reach fo P c"
| adjust: "com_reach fo P c \<Longrightarrow> \<forall>tx\<in>set (BI_ExcutedTxs b). edge_ok (Tx_Sender tx) (Tx_Recipient tx) \<Longrightarrow>
    CLPA_AdjustByBlockInfos P b c = Inr c' \<Longrightarrow> com_reach fo P c'"
| row: "com_reach fo P c \<Longrightarrow> orders_ok orders c \<Longrightarrow>
    CLPA_row fo P orders t0 t1 t2 r (c, txs) = Inr (brk, out, c', txs') \<Longrightarrow> com_reach fo P c'"
| wait: "com_reach fo P c \<Longrightarrow> orders_ok orders c \<Longrightarrow>
    CLPA_wait fo P orders t1 t2 c = Inr (out, c') \<Longrightarrow> com_reach fo P c'"
| signal: "com_reach fo P c \<Longrightarrow> com_reach fo P (c\<lparr>CM_Ss := ss\<rparr>)"

lemma com_ok_cong:
  "CM_clpaGraph c' = CM_clpaGraph c \<Longrightarrow> CM_modifiedMap c' = CM_modifiedMap c \<Longrightarrow> com_ok P c \<Longrightarrow> com_ok P c'"
  by (simp add: com_ok_def)

lemma read_row_keeps:
  "read_row P r (c, txs) = Inr (ok, c1, txs1) \<Longrightarrow>
     CM_clpaGraph c1 = CM_clpaGraph c \<and> CM_modifiedMap c1 = CM_modifiedMap c"
  by (auto simp: read_row_def rbind_eq_Inr split: option.splits)

lemma CLPA_batch_keeps:
  "CLPA_batch P t0 c txs = Inr (out, c1, txs1) \<Longrightarrow>
     CM_clpaGraph c1 = CM_clpaGraph c \<and> CM_modifiedMap c1 = CM_modifiedMap c"
  by (auto simp: CLPA_batch_def Let_def start_timer_def rbind_eq_Inr split: if_splits)

lemma CLPA_row_ok:
  assumes "params_ok P" and "com_ok P c" and "orders_ok orders c"
    and run: "CLPA_row fo P orders t0 t1 t2 r (c, txs) = Inr (brk, out, c', txs')"
  shows "com_ok P c'"
proof -
  from run obtain ok c1 txs1 where read: "read_row P r (c, txs) = Inr (ok, c1, txs1)"
    and rest: "(if \<not> ok then Inr (False, [], c1, txs1)
       else rbind (CLPA_batch P t0 c1 txs1) (\<lambda>(out, c1, txs1).
            rbind (maybe_repartition fo P orders t1 t2 (CM_clpaLastRunningTime c1 \<noteq> 0) c1)
              (\<lambda>(out', c1). Inr (CM_nowDataNum c1 = CM_dataTotalNum c1, out @ out', c1, txs1))))
       = Inr (brk, out, c', txs')"
    by (auto simp: CLPA_row_def rbind_eq_Inr)
  note c1 = read_row_keeps [OF read]
  show ?thesis
  proof (cases ok)
    case False
    then show ?thesis using rest c1 assms(2) by (auto intro: com_ok_cong)
  next
    case True
    with rest obtain out2 c2 txs2 out3 where b: "CLPA_batch P t0 c1 txs1 = Inr (out2, c2, txs2)"
      and m: "maybe_repartition fo P orders t1 t2 (CM_clpaLastRunningTime c2 \<noteq> 0) c2 = Inr (out3, c')"
      by (auto simp: rbind_eq_Inr)
    have "com_ok P c2" "orders_ok orders c2"
      using assms(2,3) c1 CLPA_batch_keeps [OF b] by (simp_all add: com_ok_def orders_ok_def)
    from maybe_repartition_ok [OF assms(1) this, of fo t1 t2 "CM_clpaLastRunningTime c2 \<noteq> 0"] m
    show ?thesis by auto
  qed
qed

lemma com_reach_ok:
  assumes "params_ok P" and "com_reach fo P c"
  shows "com_ok P c"
  using assms(2)
proof (induction rule: com_reach.induct)
  case (new ips Ss dn bn freq c)
  from fresh_graph_ok [OF assms(1), of "[]" fo] obtain cg where
    cg: "fresh_graph fo P = Inr cg" "CS_ShardNum cg = CP_ShardNum P" "CS_PartitionMap cg = []"
    "clpa_ok (cg\<lparr>CS_PartitionMap := []\<rparr>)" by auto
  have "cg\<lparr>CS_PartitionMap := CS_PartitionMap cg\<rparr> = cg" by simp
  with cg(3,4) have "clpa_ok cg" by metis
  with new cg show ?case by (auto simp: NewCLPACommitteeModule_def com_ok_def map_in_range_def)
next
  case (adjust c b c')
  from adjust_ok [OF assms(1) adjust.IH adjust.hyps(2)] adjust.hyps(3) show ?case by auto
next
  case (row c orders t0 t1 t2 r txs brk out c' txs')
  show ?case by (rule CLPA_row_ok [OF assms(1) row.IH row.hyps(2,3)])
next
  case (wait c orders t1 t2 out c')
  obtain o2 c2 where "maybe_repartition fo P orders t1 t2 True c = Inr (o2, c2)" "com_ok P c2"
    using maybe_repartition_ok [OF assms(1) wait.IH wait.hyps(2)] by blast
  with wait.hyps(3) wait.IH show ?case by (simp add: CLPA_wait_def split: if_splits)
next
  case (signal c ss)
  then show ?case by (simp add: com_ok_def)
qed


section \<open>The broker committees\<close>

text \<open>A transaction between two shards in which no broker takes part.\<close>

definition cross :: "(string \<Rightarrow> u64 res) \<Rightarrow> Broker \<Rightarrow> Transaction \<Rightarrow> bool" where
  "cross fetch b tx \<longleftrightarrow> fetch (Tx_Recipient tx) \<noteq> fetch (Tx_Sender tx)
     \<and> \<not> IsBroker b (Tx_Recipient tx) \<and> \<not> IsBroker b (Tx_Sender tx)"

definition flagged :: "Broker \<Rightarrow> Transaction \<Rightarrow> Transaction" where
  "flagged b tx = (if IsBroker b (Tx_Recipient tx) \<or> IsBroker b (Tx_Sender tx)
     then tx\<lparr>Tx_HasBroker := True, Tx_SenderIsBroker := IsBroker b (Tx_Sender tx)\<rparr> else tx)"

definition raw_meg :: "string \<Rightarrow> Transaction \<Rightarrow> BrokerRawMeg" where
  "raw_meg a tx = \<lparr>BR_Tx = tx, BR_Broker = a, BR_Hlock = 0, BR_Snonce = 0, BR_Bnonce = 0, BR_Signature = []\<rparr>"

definition tx1_of :: "cparams \<Rightarrow> string \<Rightarrow> Transaction \<Rightarrow> Transaction" where
  "tx1_of P a tx = broker_tx P (Tx_Sender tx) a tx"

definition tx2_of :: "cparams \<Rightarrow> string \<Rightarrow> Transaction \<Rightarrow> Transaction" where
  "tx2_of P a tx = broker_tx P a (Tx_Recipient tx) tx"

definition addrs_ok :: "Transaction \<Rightarrow> bool" where
  "addrs_ok tx \<longleftrightarrow> valid_addr (Tx_Sender tx) \<and> valid_addr (Tx_Recipient tx)"

lemma broker_tx_fields [simp]:
  "Tx_Sender (broker_tx P s r tx) = s" "Tx_Recipient (broker_tx P s r tx) = r"
  "Tx_Value (broker_tx P s r tx) = Tx_Value tx"
  by (simp_all add: broker_tx_def NewTransaction_def Let_def)

lemma deal_txs:
  assumes "fetch_total P fetch" and "BK_BrokerAddress b = a # as" and "\<forall>tx\<in>set txs. addrs_ok tx"
  shows "rfold (deal_tx fetch b) txs (itxs, raws) =
     Inr (itxs @ map (flagged b) (filter (\<lambda>tx. \<not> cross fetch b tx) txs),
          raws @ map (raw_meg a) (filter (cross fetch b) txs))"
  using assms(3)
proof (induction txs arbitrary: itxs raws)
  case Nil
  then show ?case by simp
next
  case (Cons tx txs)
  then have "addrs_ok tx" by simp
  then obtain r s where "fetch (Tx_Recipient tx) = Inr r" "fetch (Tx_Sender tx) = Inr s"
    using assms(1) unfolding fetch_total_def addrs_ok_def by blast
  then have "deal_tx fetch b tx (itxs, raws) =
      (if cross fetch b tx then Inr (itxs, raws @ [raw_meg a tx]) else Inr (itxs @ [flagged b tx], raws))"
    using assms(2) by (simp add: deal_tx_def cross_def broker0_def raw_meg_def flagged_def Let_def)
  with Cons show ?case by (cases "cross fetch b tx") simp_all
qed

lemma fold_make_tx1:
  "\<exists>pool. fold (make_tx1 P) megs (bm, acc) =
     (bm\<lparr>BM_brokerConfirm1Pool := pool\<rparr>, acc @ map (\<lambda>m. tx1_of P (B1_Broker m) (BR_Tx (B1_RawMeg m))) megs)"
proof (induction megs arbitrary: bm acc)
  case Nil
  then show ?case by (intro exI [of _ "BM_brokerConfirm1Pool bm"]) simp
next
  case (Cons m megs)
  define bm1 where "bm1 = fst (make_tx1 P m (bm, acc))"
  have step: "make_tx1 P m (bm, acc) = (bm1, acc @ [tx1_of P (B1_Broker m) (BR_Tx (B1_RawMeg m))])"
    "\<exists>pool. bm1 = bm\<lparr>BM_brokerConfirm1Pool := pool\<rparr>"
    by (auto simp: bm1_def make_tx1_def Let_def tx1_of_def)
  with Cons.IH [of bm1 "acc @ [tx1_of P (B1_Broker m) (BR_Tx (B1_RawMeg m))]"] show ?case by auto
qed

lemma tx1_route:
  assumes "cross fetch b tx" and "fetch_total P fetch" and "addrs_ok tx"
  shows "broker_route fetch b (tx1_of P a tx) = fetch (Tx_Sender tx)"
proof -
  obtain s where "fetch (Tx_Sender tx) = Inr s"
    using assms(2,3) unfolding fetch_total_def addrs_ok_def by blast
  then show ?thesis using assms(1) by (simp add: broker_route_def tx1_of_def cross_def)
qed

lemma deal_delivers:
  assumes "fetch_total P fetch" and "BK_BrokerAddress (BM_broker bm) = a # as" and "valid_addr a"
    and "\<forall>tx\<in>set txs. addrs_ok tx"
  defines "X \<equiv> filter (cross fetch (BM_broker bm)) txs"
  shows "\<exists>out bm'. dealTxByBroker P ips fetch txs bm =
           Inr (map (flagged (BM_broker bm)) (filter (\<lambda>tx. \<not> cross fetch (BM_broker bm) tx) txs), out, bm')
         \<and> to_leaders ips out
         \<and> (\<forall>sid. delivered sid out = map (tx1_of P a) (filter (\<lambda>tx. fetch (Tx_Sender tx) = Inr sid) X))"
proof (cases "X = []")
  case True
  then show ?thesis
    using deal_txs [OF assms(1,2,4), of "[]" "[]"]
    by (intro exI [of _ "[]"] exI [of _ bm]) (simp add: dealTxByBroker_def X_def)
next
  case False
  define bm0 where "bm0 = bm\<lparr>BM_broker := (BM_broker bm)\<lparr>BK_BrokerRawMegs :=
      fold (\<lambda>meg m. m(CP_digest P meg \<mapsto> meg)) (map (raw_meg a) X) (BK_BrokerRawMegs (BM_broker bm))\<rparr>\<rparr>"
  define megs where "megs = map (\<lambda>meg. \<lparr>B1_RawMeg = meg, B1_Hcurrent = 0, B1_Broker = BR_Broker meg\<rparr>)
      (map (raw_meg a) X)"
  obtain pool where fold: "fold (make_tx1 P) megs (bm0, []) =
      (bm0\<lparr>BM_brokerConfirm1Pool := pool\<rparr>, map (tx1_of P a) X)"
    using fold_make_tx1 [of P megs bm0 "[]"] by (auto simp: megs_def raw_meg_def comp_def)
  define bm1 where "bm1 = bm0\<lparr>BM_brokerConfirm1Pool := pool\<rparr>"
  have X: "\<forall>tx\<in>set X. cross fetch (BM_broker bm) tx \<and> addrs_ok tx"
    using assms(4) by (simp add: X_def)
  have isb: "IsBroker (BM_broker bm1) = IsBroker (BM_broker bm)"
    by (auto simp: bm1_def bm0_def IsBroker_def)
  then have route: "broker_route fetch (BM_broker bm1) = broker_route fetch (BM_broker bm)"
    by (auto simp: broker_route_def)
  have good: "\<forall>tx\<in>set (map (tx1_of P a) X).
      fetch_total P fetch \<and> valid_addr (Tx_Sender tx) \<and> valid_addr (Tx_Recipient tx)"
    using X assms(1,3) by (auto simp: tx1_of_def addrs_ok_def)
  from broker_inj.inject_delivers [OF good, of ips "BM_broker bm1"] obtain out where
    out: "Broker_txSending P ips fetch (BM_broker bm1) (map (tx1_of P a) X) = Inr out"
    "to_leaders ips out"
    "\<forall>sid. delivered sid out = filter (\<lambda>tx. broker_route fetch (BM_broker bm) tx = Inr sid) (map (tx1_of P a) X)"
    by (auto simp: Broker_txSending_def route)
  have "filter (\<lambda>tx. broker_route fetch (BM_broker bm) tx = Inr sid) (map (tx1_of P a) X) =
      map (tx1_of P a) (filter (\<lambda>tx. fetch (Tx_Sender tx) = Inr sid) X)" for sid
    unfolding filter_map comp_def
    by (rule arg_cong [of _ _ "map _"], rule filter_cong) (use X tx1_route [OF _ assms(1)] in auto)
  moreover have "handleBrokerRawMag P ips fetch (map (raw_meg a) X) bm = Inr (out, bm1)"
    using fold out(1) unfolding handleBrokerRawMag_def handleBrokerType1Mes_def Let_def
      bm0_def [symmetric] megs_def [symmetric] by (simp add: bm1_def)
  ultimately show ?thesis
    using deal_txs [OF assms(1,2,4), of "[]" "[]"] False out(2,3)
    by (intro exI [of _ out] exI [of _ bm1]) (simp add: dealTxByBroker_def X_def)
qed

text \<open>How the broker committee divides a batch. Transactions inside a shard and those in which
  a broker takes part are returned for injection, the latter flagged, in order; for every other
  transaction its first half, from the sender to the broker with the same value, is sent to the
  shard of the sender, exactly once.\<close>

theorem dealTxByBroker_splits:
  assumes "fetch_total P fetch" and "BK_BrokerAddress (BM_broker bm) = a # as" and "valid_addr a"
    and "\<forall>tx\<in>set txs. addrs_ok tx"
  shows "\<exists>out bm'. dealTxByBroker P ips fetch txs bm =
           Inr (map (flagged (BM_broker bm)) (filter (\<lambda>tx. \<not> cross fetch (BM_broker bm) tx) txs), out, bm')
         \<and> to_leaders ips out
         \<and> (\<forall>sid. delivered sid out =
               map (\<lambda>tx. broker_tx P (Tx_Sender tx) a tx)
                 (filter (\<lambda>tx. fetch (Tx_Sender tx) = Inr sid) (filter (cross fetch (BM_broker bm)) txs)))"
  using deal_delivers [OF assms, of ips] unfolding tx1_of_def .

lemma send_one:
  assumes "fetch_total P fetch" and "valid_addr (Tx_Sender tx)" "valid_addr (Tx_Recipient tx)"
  shows "\<exists>out. Broker_txSending P ips fetch b [tx] = Inr out \<and> to_leaders ips out
           \<and> (\<forall>sid. delivered sid out = (if broker_route fetch b tx = Inr sid then [tx] else []))"
  using broker_inj.inject_delivers [of "[tx]" P fetch ips b] assms
  by (simp add: Broker_txSending_def del: inject_loop.simps cong: if_cong)

text \<open>The states after the raw transaction, after its first and after its second half.\<close>

definition after_raw :: "cparams \<Rightarrow> string \<Rightarrow> Transaction \<Rightarrow> brokering \<Rightarrow> brokering" where
  "after_raw P a tx bm = bm\<lparr>
     BM_broker := (BM_broker bm)\<lparr>BK_BrokerRawMegs :=
       (BK_BrokerRawMegs (BM_broker bm))(CP_digest P (raw_meg a tx) \<mapsto> raw_meg a tx)\<rparr>,
     BM_brokerConfirm1Pool := (BM_brokerConfirm1Pool bm)(Tx_TxHash (tx1_of P a tx) \<mapsto>
       \<lparr>M1_Tx1Hash = Tx_TxHash (tx1_of P a tx), M1_RawMeg = raw_meg a tx\<rparr>)\<rparr>"

definition after_tx1 :: "cparams \<Rightarrow> string \<Rightarrow> Transaction \<Rightarrow> brokering \<Rightarrow> brokering" where
  "after_tx1 P a tx bm = bm\<lparr>
     BM_broker := note_broker_tx tx (Tx_TxHash (tx1_of P a tx)) (BM_broker bm),
     BM_brokerConfirm2Pool := (BM_brokerConfirm2Pool bm)(Tx_TxHash (tx2_of P a tx) \<mapsto>
       \<lparr>M2_Tx2Hash = Tx_TxHash (tx2_of P a tx), M2_RawMeg = raw_meg a tx\<rparr>)\<rparr>"

lemma deal_one:
  assumes "fetch_total P fetch" and "BK_BrokerAddress (BM_broker bm) = a # as" and "valid_addr a"
    and "addrs_ok tx" and "cross fetch (BM_broker bm) tx"
  shows "\<exists>out. dealTxByBroker P ips fetch [tx] bm = Inr ([], out, after_raw P a tx bm) \<and> to_leaders ips out
           \<and> (\<forall>sid. delivered sid out = (if fetch (Tx_Sender tx) = Inr sid then [tx1_of P a tx] else []))"
proof -
  define b1 where "b1 = BM_broker (after_raw P a tx bm)"
  have "cross fetch b1 tx"
    using assms(5) by (simp add: cross_def IsBroker_def b1_def after_raw_def)
  then have route: "broker_route fetch b1 (tx1_of P a tx) = fetch (Tx_Sender tx)"
    using tx1_route assms(1,4) by blast
  from send_one [OF assms(1), of "tx1_of P a tx" ips b1] assms(3,4) route obtain out where
    out: "Broker_txSending P ips fetch b1 [tx1_of P a tx] = Inr out" "to_leaders ips out"
    "\<forall>sid. delivered sid out = (if fetch (Tx_Sender tx) = Inr sid then [tx1_of P a tx] else [])"
    by (auto simp: tx1_of_def addrs_ok_def)
  have "dealTxByBroker P ips fetch [tx] bm = Inr ([], out, after_raw P a tx bm)"
    using deal_txs [OF assms(1,2), of "[tx]" "[]" "[]"] assms(4,5) out(1)
    by (simp add: dealTxByBroker_def handleBrokerRawMag_def handleBrokerType1Mes_def make_tx1_def Let_def
        raw_meg_def b1_def after_raw_def tx1_of_def)
  with out show ?thesis by blast
qed

lemma confirm_one:
  assumes "fetch_total P fetch" and "BK_BrokerAddress (BM_broker bm) = a # as" and "valid_addr a"
    and "addrs_ok tx"
    and raw: "BK_BrokerRawMegs (BM_broker bm) (CP_digest P (raw_meg a tx)) \<noteq> None"
    and p1: "BM_brokerConfirm1Pool bm (Tx_TxHash t) =
          Some \<lparr>M1_Tx1Hash = Tx_TxHash (tx1_of P a tx), M1_RawMeg = raw_meg a tx\<rparr>"
    and p2: "BM_brokerConfirm2Pool bm (Tx_TxHash t) = None"
  shows "\<exists>out. createConfirm P ips fetch [t] bm = Inr (out, after_tx1 P a tx bm) \<and> to_leaders ips out
           \<and> (\<forall>sid. delivered sid out = (if fetch (Tx_Recipient tx) = Inr sid then [tx2_of P a tx] else []))"
proof -
  define b1 where "b1 = BM_broker (after_tx1 P a tx bm)"
  have "IsBroker b1 a"
    using assms(2) by (simp add: IsBroker_def b1_def after_tx1_def note_broker_tx_def)
  then have route: "broker_route fetch b1 (tx2_of P a tx) = fetch (Tx_Recipient tx)"
    using assms(1,3) unfolding fetch_total_def by (auto simp: broker_route_def tx2_of_def)
  from send_one [OF assms(1), of "tx2_of P a tx" ips b1] assms(3,4) route obtain out where
    out: "Broker_txSending P ips fetch b1 [tx2_of P a tx] = Inr out" "to_leaders ips out"
    "\<forall>sid. delivered sid out = (if fetch (Tx_Recipient tx) = Inr sid then [tx2_of P a tx] else [])"
    by (auto simp: tx2_of_def addrs_ok_def)
  have "createConfirm P ips fetch [t] bm = Inr (out, after_tx1 P a tx bm)"
    using raw p1 p2 assms(2) out(1)
    by (auto simp: createConfirm_def List.map_filter_simps handleTx1ConfirmMag_def confirm_tx1_def broker0_def
        handleBrokerType2Mes_def make_tx2_def Let_def b1_def after_tx1_def tx2_of_def raw_meg_def)
  with out show ?thesis by blast
qed

text \<open>C21: a transfer through a broker completes. For a transaction between two shards, handing it
  to the committee sends the half from the sender to the broker to the sender's shard; the report
  that this half was executed sends the half from the broker to the recipient to the recipient's
  shard; after the report of the second half nothing more is sent and both hashes are on record
  for the raw transaction. The hashes of the halves are assumed to differ from each other and from
  those already waiting.\<close>

theorem broker_transfer_completes:
  assumes "fetch_total P fetch" and "BK_BrokerAddress (BM_broker bm) = a # as" and "valid_addr a"
    and "addrs_ok tx" and "cross fetch (BM_broker bm) tx"
    and "Tx_TxHash t1 = Tx_TxHash (broker_tx P (Tx_Sender tx) a tx)"
    and "Tx_TxHash t2 = Tx_TxHash (broker_tx P a (Tx_Recipient tx) tx)"
    and "Tx_TxHash t1 \<noteq> Tx_TxHash t2"
    and "BM_brokerConfirm2Pool bm (Tx_TxHash t1) = None" and "BM_brokerConfirm1Pool bm (Tx_TxHash t2) = None"
    and "BK_RawTx2BrokerTx (BM_broker bm) (Tx_TxHash tx) = None"
  shows "\<exists>out1 out2 bm1 bm2 bm3.
      dealTxByBroker P ips fetch [tx] bm = Inr ([], out1, bm1)
    \<and> createConfirm P ips fetch [t1] bm1 = Inr (out2, bm2)
    \<and> createConfirm P ips fetch [t2] bm2 = Inr ([], bm3)
    \<and> (\<forall>sid. delivered sid out1 =
          (if fetch (Tx_Sender tx) = Inr sid then [broker_tx P (Tx_Sender tx) a tx] else []))
    \<and> (\<forall>sid. delivered sid out2 =
          (if fetch (Tx_Recipient tx) = Inr sid then [broker_tx P a (Tx_Recipient tx) tx] else []))
    \<and> BK_RawTx2BrokerTx (BM_broker bm3) (Tx_TxHash tx) = Some [Tx_TxHash t1, Tx_TxHash t2]"
proof -
  note h = assms(6,7) [folded tx1_of_def tx2_of_def]
  define bm1 where "bm1 = after_raw P a tx bm"
  define bm2 where "bm2 = after_tx1 P a tx bm1"
  define bm3 where "bm3 = bm2\<lparr>BM_broker := note_broker_tx tx (Tx_TxHash t2) (BM_broker bm2)\<rparr>"
  from deal_one [OF assms(1-5), of ips] obtain out1 where o1:
    "dealTxByBroker P ips fetch [tx] bm = Inr ([], out1, bm1)"
    "\<forall>sid. delivered sid out1 = (if fetch (Tx_Sender tx) = Inr sid then [tx1_of P a tx] else [])"
    unfolding bm1_def by blast
  have "\<exists>out. createConfirm P ips fetch [t1] bm1 = Inr (out, bm2) \<and> to_leaders ips out
           \<and> (\<forall>sid. delivered sid out = (if fetch (Tx_Recipient tx) = Inr sid then [tx2_of P a tx] else []))"
    unfolding bm2_def
    by (rule confirm_one [OF assms(1) _ assms(3,4), of _ as])
      (use assms(2,9) h in \<open>simp_all add: bm1_def after_raw_def\<close>)
  then obtain out2 where o2: "createConfirm P ips fetch [t1] bm1 = Inr (out2, bm2)"
    "\<forall>sid. delivered sid out2 = (if fetch (Tx_Recipient tx) = Inr sid then [tx2_of P a tx] else [])" by blast
  have "BM_brokerConfirm1Pool bm2 (Tx_TxHash t2) = None"
    using assms(8,10) h by (simp add: bm2_def bm1_def after_tx1_def after_raw_def)
  moreover have "BM_brokerConfirm2Pool bm2 (Tx_TxHash t2) =
      Some \<lparr>M2_Tx2Hash = Tx_TxHash t2, M2_RawMeg = raw_meg a tx\<rparr>"
    using h by (simp add: bm2_def after_tx1_def)
  ultimately have o3: "createConfirm P ips fetch [t2] bm2 = Inr ([], bm3)"
    by (simp add: createConfirm_def List.map_filter_simps handleTx2ConfirmMag_def bm3_def raw_meg_def)
  have "BK_RawTx2BrokerTx (BM_broker bm3) (Tx_TxHash tx) = Some [Tx_TxHash t1, Tx_TxHash t2]"
    using assms(11) h by (simp add: bm3_def bm2_def bm1_def after_tx1_def after_raw_def note_broker_tx_def)
  with o1 o2 o3 show ?thesis unfolding tx1_of_def tx2_of_def by blast
qed

section \<open>The copies in the broker committee with CLPA\<close>

text \<open>The broker functions \<^verbatim>\<open>CLPACommitteeMod_Broker\<close> has copied do what those of the broker committee do,
  with its own assignment of addresses to shards; what is shown above for any assignment holds for
  them.\<close>

lemma CB_copies:
  "CB_handleBrokerType1Mes P ccm = handleBrokerType1Mes P (CM_IpNodeTable ccm) (CB_fetch P ccm)"
  "CB_handleBrokerType2Mes P ccm = handleBrokerType2Mes P (CM_IpNodeTable ccm) (CB_fetch P ccm)"
  "CB_handleBrokerRawMag P ccm = handleBrokerRawMag P (CM_IpNodeTable ccm) (CB_fetch P ccm)"
  "CB_handleTx1ConfirmMag P ccm = handleTx1ConfirmMag P (CM_IpNodeTable ccm) (CB_fetch P ccm)"
  "CB_handleTx2ConfirmMag = handleTx2ConfirmMag"
  by (simp_all add: fun_eq_iff CB_handleBrokerType1Mes_def CB_handleBrokerType2Mes_def CB_handleBrokerRawMag_def
      CB_handleTx1ConfirmMag_def CB_handleTx2ConfirmMag_def handleBrokerType1Mes_def handleBrokerType2Mes_def
      handleBrokerRawMag_def handleTx1ConfirmMag_def handleTx2ConfirmMag_def CB_txSending_def Let_def)

lemma CB_dealTxByBroker_eq:
  "CB_dealTxByBroker P ccm txs = dealTxByBroker P (CM_IpNodeTable ccm) (CB_fetch P ccm) txs (CM_CBbrokering ccm)"
  unfolding CB_dealTxByBroker_def dealTxByBroker_def CB_copies Let_def ..

lemma CB_createConfirm_eq:
  "CB_createConfirm P ccm txs = createConfirm P (CM_IpNodeTable ccm) (CB_fetch P ccm) txs (CM_CBbrokering ccm)"
  unfolding CB_createConfirm_def createConfirm_def CB_copies Let_def ..

section \<open>Witnesses\<close>

definition demo_params :: cparams where
  "demo_params = \<lparr>CP_ShardNum = 2, CP_InjectSpeed = 1, CP_TxInputCount = 3,
     CP_sha = (\<lambda>tx. Tx_Sender tx @ Tx_Recipient tx), CP_digest = (\<lambda>m. Tx_TxHash (BR_Tx m))\<rparr>"

lemma demo_params_ok: "params_ok demo_params"
  by (simp add: params_ok_def demo_params_def)

text \<open>Records with the columns of the data set: sender and recipient in columns 3 and 4, the
  contract flags in 6 and 7, the value in 8.\<close>

definition demo_row :: "string \<Rightarrow> string \<Rightarrow> string list option" where
  "demo_row s r = Some [[], [], [], ''0x'' @ s, ''0x'' @ r, [], ''0'', ''0'', ''7'']"

lemma demo_row_tx:
  assumes "length s > 14" and "length r > 14" and "s \<noteq> r"
  shows "data2tx demo_params (the (demo_row s r)) nonce =
           Inr (Some (NewTransaction (CP_sha demo_params) s r 7 nonce))"
  using assms by (simp add: data2tx_def demo_row_def field_def SetString10_def digit_def)

lemma demo_row_ok:
  assumes "length s > 14" and "length r > 14" and "s \<noteq> r" and "valid_addr s"
  shows "row_ok demo_params (demo_row s r)"
  using demo_row_tx [OF assms(1-3)] assms(4)
  by (auto simp: row_ok_def demo_row_def NewTransaction_def Let_def)

abbreviation addr_a :: string where "addr_a \<equiv> ''00000000000000000000''"
abbreviation addr_b :: string where "addr_b \<equiv> ''00000000000000000001''"

lemma demo_addrs: "valid_addr addr_a" "valid_addr addr_b"
  by (simp_all add: valid_addr_def hexval_def)



abbreviation addr_c :: string where "addr_c \<equiv> ''00000000000000000002''"

definition demo_transfer :: Transaction where
  "demo_transfer = NewTransaction (CP_sha demo_params) addr_a addr_b 7 0"

definition demo_brokering :: brokering where
  "demo_brokering = new_brokering [addr_c] 1"

lemma demo_fetch: "fetch_total demo_params (shard_u64 demo_params)"
  using demo_params_ok shard_u64_total by (simp add: fetch_total_def)

lemma demo_brokers: "BK_BrokerAddress (BM_broker demo_brokering) = addr_c # []"
  by (simp add: demo_brokering_def new_brokering_def NewBroker_def initBrokerAddr_def)

lemma demo_transfer_fields:
  "Tx_Sender demo_transfer = addr_a" "Tx_Recipient demo_transfer = addr_b"
  by (simp_all add: demo_transfer_def NewTransaction_def Let_def)

lemma demo_shard_of: "shard_u64 demo_params addr_a = Inr 0" "shard_u64 demo_params addr_b = Inr 1"
  by (simp_all add: shard_u64_def demo_params_def Addr2Shard_eq valid_addr_def addr_num_def hexval_def)

lemma demo_cross: "cross (shard_u64 demo_params) (BM_broker demo_brokering) demo_transfer"
  using demo_brokers
  by (simp add: cross_def demo_transfer_fields demo_shard_of IsBroker_def)

lemma demo_valid: "valid_addr addr_c" "addrs_ok demo_transfer"
  using demo_addrs by (simp_all add: addrs_ok_def demo_transfer_fields) (simp add: valid_addr_def hexval_def)

theorem dealTxByBroker_splits_witness:
  "\<exists>out bm'. dealTxByBroker demo_params [] (shard_u64 demo_params) [demo_transfer] demo_brokering = Inr ([], out, bm')
     \<and> delivered 0 out = [broker_tx demo_params addr_a addr_c demo_transfer]"
proof -
  have "\<forall>tx\<in>set [demo_transfer]. addrs_ok tx" using demo_valid by simp
  from dealTxByBroker_splits [OF demo_fetch demo_brokers demo_valid(1) this, of "[]"]
  show ?thesis using demo_cross by (auto simp: demo_transfer_fields demo_shard_of)
qed

lemma demo_hashes:
  "Tx_TxHash (broker_tx demo_params addr_a addr_c demo_transfer) \<noteq>
   Tx_TxHash (broker_tx demo_params addr_c addr_b demo_transfer)"
  by (simp add: broker_tx_def NewTransaction_def Let_def demo_params_def)

theorem broker_transfer_completes_witness:
  "\<exists>out1 out2 bm1 bm2 bm3.
      dealTxByBroker demo_params [] (shard_u64 demo_params) [demo_transfer] demo_brokering = Inr ([], out1, bm1)
    \<and> createConfirm demo_params [] (shard_u64 demo_params)
         [broker_tx demo_params addr_a addr_c demo_transfer] bm1 = Inr (out2, bm2)
    \<and> createConfirm demo_params [] (shard_u64 demo_params)
         [broker_tx demo_params addr_c addr_b demo_transfer] bm2 = Inr ([], bm3)
    \<and> delivered 1 out2 = [broker_tx demo_params addr_c addr_b demo_transfer]"
proof -
  let ?t1 = "broker_tx demo_params addr_a addr_c demo_transfer"
  let ?t2 = "broker_tx demo_params addr_c addr_b demo_transfer"
  have "BM_brokerConfirm2Pool demo_brokering (Tx_TxHash ?t1) = None"
    "BM_brokerConfirm1Pool demo_brokering (Tx_TxHash ?t2) = None"
    "BK_RawTx2BrokerTx (BM_broker demo_brokering) (Tx_TxHash demo_transfer) = None"
    by (simp_all add: demo_brokering_def new_brokering_def NewBroker_def)
  from broker_transfer_completes [OF demo_fetch demo_brokers demo_valid demo_cross _ _ _ this, of "[]"] demo_hashes
  obtain out1 out2 bm1 bm2 bm3 where
    "dealTxByBroker demo_params [] (shard_u64 demo_params) [demo_transfer] demo_brokering = Inr ([], out1, bm1)"
    "createConfirm demo_params [] (shard_u64 demo_params) [?t1] bm1 = Inr (out2, bm2)"
    "createConfirm demo_params [] (shard_u64 demo_params) [?t2] bm2 = Inr ([], bm3)"
    "\<forall>sid. delivered sid out2 = (if shard_u64 demo_params addr_b = Inr sid then [?t2] else [])"
    by (auto simp: demo_transfer_fields)
  moreover have "shard_u64 demo_params addr_b = Inr 1" by (rule demo_shard_of)
  ultimately show ?thesis by auto
qed

end
