(* ===== verification/Measure.thy ===== *)
theory Measure
  imports Messages Partition
begin

text \<open>
  The measuring modules of the supervisor (\<^verbatim>\<open>src/supervisor/measure\<close>): throughput, confirmation
  latency, rate of cross-shard transactions and number of transactions, each once for the relay and
  once for the broker scheme. A module collects one entry per epoch from the reports of the shards
  and computes its result at the end.

  \<^item> \<^verbatim>\<open>float64\<close> arithmetic is the record \<open>floatops\<close>; the constant 0.5 is the quotient of 1 and 2.
  \<^item> A \<^verbatim>\<open>time.Time\<close> counts nanoseconds since Go's zero instant. \<^verbatim>\<open>Time.Sub\<close> saturates at the range of a
    \<^verbatim>\<open>time.Duration\<close>, sums of durations wrap.
  \<^item> The maps of hashes are only looked up and stored to.
\<close>

section \<open>Times, slices and constants\<close>

definition time_Sub :: "go_time \<Rightarrow> go_time \<Rightarrow> int" where
  "time_Sub t u = max (- (2 ^ 63)) (min (2 ^ 63 - 1) (t - u))"

definition dur_add :: "int \<Rightarrow> int \<Rightarrow> int" where
  "dur_add d d' = signed_take_bit 63 (d + d')"

definition Seconds :: "'f floatops \<Rightarrow> int \<Rightarrow> 'f" where
  "Seconds fo d =
     F_add fo (F_of_int fo (d sdiv 1000000000))
       (F_div fo (F_of_int fo (d smod 1000000000)) (F_of_int fo 1000000000))"

definition half :: "'f floatops \<Rightarrow> 'f" where
  "half fo = F_div fo (F_of_int fo 1) (F_of_int fo 2)"

text \<open>The loop \<^verbatim>\<open>for epochID < epochid\<close>, which appends a value and counts.\<close>

definition extend_epochs :: "int \<Rightarrow> int \<Rightarrow> 'a \<Rightarrow> 'a list \<Rightarrow> 'a list" where
  "extend_epochs epochID epochid v xs = xs @ replicate (nat (epochid - epochID)) v"

definition raw_hash :: "Transaction \<Rightarrow> string" where
  "raw_hash tx = (case Tx_RawTxHash tx of None \<Rightarrow> [] | Some h \<Rightarrow> h)"

definition note_start :: "go_time \<Rightarrow> go_time \<Rightarrow> go_time" where
  "note_start earliestTime t = (if t = 0 \<or> t > earliestTime then earliestTime else t)"

definition note_end :: "go_time \<Rightarrow> go_time \<Rightarrow> go_time" where
  "note_end latestTime t = (if t = 0 \<or> latestTime > t then latestTime else t)"

section \<open>Throughput\<close>

record 'f TestModule_avgTPS_Relay =
  TR_epochID :: int
  TR_excutedTxNum :: "'f list"
  TR_relayTx :: "string \<rightharpoonup> bool"
  TR_startTime :: "go_time list"
  TR_endTime :: "go_time list"

definition NewTestModule_avgTPS_Relay :: "'f TestModule_avgTPS_Relay" where
  "NewTestModule_avgTPS_Relay =
     \<lparr>TR_epochID = -1, TR_excutedTxNum = [], TR_relayTx = Map.empty, TR_startTime = [], TR_endTime = []\<rparr>"

definition mark_relayed :: "Transaction list \<Rightarrow> (string \<rightharpoonup> bool) \<Rightarrow> string \<rightharpoonup> bool" where
  "mark_relayed txs m = fold (\<lambda>tx m. m(Tx_TxHash tx \<mapsto> True)) txs m"

definition TR_UpdateMeasureRecord ::
    "'f floatops \<Rightarrow> BlockInfoMsg \<Rightarrow> 'f TestModule_avgTPS_Relay \<Rightarrow> 'f TestModule_avgTPS_Relay res" where
  "TR_UpdateMeasureRecord fo b tat =
     (if BI_BlockBodyLength b = 0 then Inr tat
      else
        let epochid = BI_Epoch b; ext = extend_epochs (TR_epochID tat) epochid;
            relay = mark_relayed (BI_Relay1Txs b) (TR_relayTx tat)
        in rbind (upd_at epochid
                    (\<lambda>x. F_add fo x (F_div fo (F_of_int fo (uint (BI_Relay1TxNum b))) (F_of_int fo 2)))
                    (extend_epochs (TR_epochID tat) epochid (F_of_int fo 0) (TR_excutedTxNum tat))) (\<lambda>num.
           rbind (rfold (\<lambda>tx. upd_at epochid (\<lambda>x. F_add fo x
                           (if relay (Tx_TxHash tx) \<noteq> None then half fo else F_of_int fo 1)))
                    (BI_ExcutedTxs b) num) (\<lambda>num.
           rbind (upd_at epochid (note_start (BI_ProposeTime b)) (ext 0 (TR_startTime tat))) (\<lambda>start.
           rbind (upd_at epochid (note_end (BI_CommitTime b)) (ext 0 (TR_endTime tat))) (\<lambda>end'.
             Inr \<lparr>TR_epochID = max (TR_epochID tat) epochid, TR_excutedTxNum = num, TR_relayTx = relay,
                  TR_startTime = start, TR_endTime = end'\<rparr>)))))"

text \<open>The loop of \<^verbatim>\<open>OutputRecord\<close>, which both throughput modules have.\<close>

definition tps_epoch ::
    "'f floatops \<Rightarrow> go_time list \<Rightarrow> go_time list \<Rightarrow> nat \<times> 'f \<Rightarrow> 'f list \<times> 'f \<times> go_time \<times> go_time
      \<Rightarrow> ('f list \<times> 'f \<times> go_time \<times> go_time) res" where
  "tps_epoch fo startTime endTime ie st =
     (let (eid, exTxNum) = ie; (perEpochTPS, totalTxNum, eTime, lTime) = st in
      rbind (index_at endTime eid) (\<lambda>en.
      rbind (index_at startTime eid) (\<lambda>s.
      rbind (upd_at (int eid) (\<lambda>_. F_div fo exTxNum (Seconds fo (time_Sub en s))) perEpochTPS) (\<lambda>per.
        Inr (per, F_add fo totalTxNum exTxNum, if eTime > s then s else eTime,
             if en > lTime then en else lTime)))))"

definition tps_loop ::
    "'f floatops \<Rightarrow> go_time \<Rightarrow> int \<Rightarrow> 'f list \<Rightarrow> go_time list \<Rightarrow> go_time list
      \<Rightarrow> ('f list \<times> 'f \<times> go_time \<times> go_time) res" where
  "tps_loop fo now epochID num startTime endTime =
     rfold (tps_epoch fo startTime endTime) (enumerate 0 num)
       (replicate (nat (epochID + 1)) (F_of_int fo 0), F_of_int fo 0, now, 0)"

definition TR_OutputRecord ::
    "'f floatops \<Rightarrow> go_time \<Rightarrow> 'f TestModule_avgTPS_Relay \<Rightarrow> ('f list \<times> 'f) res" where
  "TR_OutputRecord fo now tat =
     rbind (tps_loop fo now (TR_epochID tat) (TR_excutedTxNum tat) (TR_startTime tat) (TR_endTime tat))
       (\<lambda>(perEpochTPS, totalTxNum, eTime, lTime).
          Inr (perEpochTPS, F_div fo totalTxNum (Seconds fo (time_Sub lTime eTime))))"

record 'f TestModule_avgTPS_Broker =
  TB_epochID :: int
  TB_excutedTxNum :: "'f list"
  TB_startTime :: "go_time list"
  TB_endTime :: "go_time list"
  TB_duration :: int
  TB_shardNum :: int

definition NewTestModule_avgTPS_Broker :: "int \<Rightarrow> 'f TestModule_avgTPS_Broker" where
  "NewTestModule_avgTPS_Broker shardNum =
     \<lparr>TB_epochID = -1, TB_excutedTxNum = [], TB_startTime = [], TB_endTime = [], TB_duration = 0,
      TB_shardNum = shardNum\<rparr>"

text \<open>The term \<^verbatim>\<open>len(b.ExcutedTxs) + (b.Broker1TxNum + b.Broker2TxNum) / 2\<close> of three broker modules.\<close>

definition broker_halves :: "'f floatops \<Rightarrow> BlockInfoMsg \<Rightarrow> 'f" where
  "broker_halves fo b =
     F_div fo (F_add fo (F_of_int fo (uint (BI_Broker1TxNum b))) (F_of_int fo (uint (BI_Broker2TxNum b))))
       (F_of_int fo 2)"

definition broker_count :: "'f floatops \<Rightarrow> BlockInfoMsg \<Rightarrow> 'f" where
  "broker_count fo b = F_add fo (F_of_int fo (int (length (BI_ExcutedTxs b)))) (broker_halves fo b)"

definition TB_UpdateMeasureRecord ::
    "'f floatops \<Rightarrow> BlockInfoMsg \<Rightarrow> 'f TestModule_avgTPS_Broker \<Rightarrow> 'f TestModule_avgTPS_Broker res" where
  "TB_UpdateMeasureRecord fo b tat =
     (if BI_BlockBodyLength b = 0 then Inr tat
      else
        let epochid = BI_Epoch b; ext = extend_epochs (TB_epochID tat) epochid
        in rbind (upd_at epochid (\<lambda>x. F_add fo x (broker_count fo b))
                    (extend_epochs (TB_epochID tat) epochid (F_of_int fo 0) (TB_excutedTxNum tat))) (\<lambda>num.
           rbind (upd_at epochid (note_start (BI_ProposeTime b)) (ext 0 (TB_startTime tat))) (\<lambda>start.
           rbind (upd_at epochid (note_end (BI_CommitTime b)) (ext 0 (TB_endTime tat))) (\<lambda>end'.
             Inr \<lparr>TB_epochID = max (TB_epochID tat) epochid, TB_excutedTxNum = num,
                  TB_startTime = start, TB_endTime = end',
                  TB_duration = dur_add (TB_duration tat) (time_Sub (BI_CommitTime b) (BI_ProposeTime b)),
                  TB_shardNum = TB_shardNum tat\<rparr>))))"

definition TB_OutputRecord ::
    "'f floatops \<Rightarrow> go_time \<Rightarrow> 'f TestModule_avgTPS_Broker \<Rightarrow> ('f list \<times> 'f) res" where
  "TB_OutputRecord fo now tat =
     rbind (tps_loop fo now (TB_epochID tat) (TB_excutedTxNum tat) (TB_startTime tat) (TB_endTime tat))
       (\<lambda>(perEpochTPS, totalTxNum, eTime, lTime).
          Inr (perEpochTPS, F_div fo totalTxNum (Seconds fo (TB_duration tat))))"

section \<open>Confirmation latency\<close>

record 'f TestModule_TCL_Relay =
  LR_epochID :: int
  LR_totTxLatencyEpoch :: "'f list"
  LR_txNum :: "'f list"

definition NewTestModule_TCL_Relay :: "'f TestModule_TCL_Relay" where
  "NewTestModule_TCL_Relay = \<lparr>LR_epochID = -1, LR_totTxLatencyEpoch = [], LR_txNum = []\<rparr>"

text \<open>The loop over the executed transactions, on the latencies and the counts.\<close>

definition tcl_tx ::
    "'f floatops \<Rightarrow> int \<Rightarrow> go_time \<Rightarrow> Transaction \<Rightarrow> 'f list \<times> 'f list \<Rightarrow> ('f list \<times> 'f list) res" where
  "tcl_tx fo epochid mTime tx st =
     (if Tx_Time tx = 0 then Inr st
      else
        rbind (upd_at epochid (\<lambda>x. F_add fo x (Seconds fo (time_Sub mTime (Tx_Time tx)))) (fst st)) (\<lambda>tot.
        rbind (upd_at epochid (\<lambda>x. F_add fo x (F_of_int fo 1)) (snd st)) (\<lambda>num. Inr (tot, num))))"

definition LR_UpdateMeasureRecord ::
    "'f floatops \<Rightarrow> BlockInfoMsg \<Rightarrow> 'f TestModule_TCL_Relay \<Rightarrow> 'f TestModule_TCL_Relay res" where
  "LR_UpdateMeasureRecord fo b tml =
     (if BI_BlockBodyLength b = 0 then Inr tml
      else
        let epochid = BI_Epoch b; ext = extend_epochs (LR_epochID tml) epochid (F_of_int fo 0)
        in rbind (rfold (tcl_tx fo epochid (BI_CommitTime b)) (BI_ExcutedTxs b)
                    (ext (LR_totTxLatencyEpoch tml), ext (LR_txNum tml))) (\<lambda>(tot, num).
             Inr \<lparr>LR_epochID = max (LR_epochID tml) epochid, LR_totTxLatencyEpoch = tot, LR_txNum = num\<rparr>))"

definition tcl_epoch ::
    "'f floatops \<Rightarrow> 'f list \<Rightarrow> nat \<times> 'f \<Rightarrow> 'f list \<times> 'f \<times> 'f \<Rightarrow> ('f list \<times> 'f \<times> 'f) res" where
  "tcl_epoch fo txNum ie st =
     (let (eid, totLatency) = ie; (per, latencySum, totTxNum) = st in
      rbind (index_at txNum eid) (\<lambda>n.
        Inr (per @ [F_div fo totLatency n], F_add fo latencySum totLatency, F_add fo totTxNum n)))"

definition tcl_output :: "'f floatops \<Rightarrow> 'f list \<Rightarrow> 'f list \<Rightarrow> ('f list \<times> 'f) res" where
  "tcl_output fo tot txNum =
     rbind (rfold (tcl_epoch fo txNum) (enumerate 0 tot) ([], F_of_int fo 0, F_of_int fo 0))
       (\<lambda>(per, latencySum, totTxNum). Inr (per, F_div fo latencySum totTxNum))"

definition LR_OutputRecord :: "'f floatops \<Rightarrow> 'f TestModule_TCL_Relay \<Rightarrow> ('f list \<times> 'f) res" where
  "LR_OutputRecord fo tml = tcl_output fo (LR_totTxLatencyEpoch tml) (LR_txNum tml)"

record 'f TestModule_TCL_Broker =
  LB_epochID :: int
  LB_totTxLatencyEpoch :: "'f list"
  LB_txNum :: "'f list"
  LB_brokerTxMap :: "string \<rightharpoonup> go_time"

definition NewTestModule_TCL_Broker :: "'f TestModule_TCL_Broker" where
  "NewTestModule_TCL_Broker =
     \<lparr>LB_epochID = -1, LB_totTxLatencyEpoch = [], LB_txNum = [], LB_brokerTxMap = Map.empty\<rparr>"

definition tcl_broker2 ::
    "'f floatops \<Rightarrow> int \<Rightarrow> go_time \<Rightarrow> (string \<rightharpoonup> go_time) \<Rightarrow> Transaction \<Rightarrow> 'f list \<Rightarrow> 'f list res" where
  "tcl_broker2 fo epochid proposeTime m b2tx tot =
     (case m (raw_hash b2tx) of
        None \<Rightarrow> Inr tot
      | Some t \<Rightarrow> upd_at epochid (\<lambda>x. F_add fo x (Seconds fo (time_Sub proposeTime t))) tot)"

definition LB_UpdateMeasureRecord ::
    "'f floatops \<Rightarrow> BlockInfoMsg \<Rightarrow> 'f TestModule_TCL_Broker \<Rightarrow> 'f TestModule_TCL_Broker res" where
  "LB_UpdateMeasureRecord fo b tml =
     (if BI_BlockBodyLength b = 0 then Inr tml
      else
        let epochid = BI_Epoch b; ext = extend_epochs (LB_epochID tml) epochid (F_of_int fo 0);
            m = fold (\<lambda>b1tx m. m(raw_hash b1tx \<mapsto> Tx_Time b1tx)) (BI_Broker1Txs b) (LB_brokerTxMap tml)
        in rbind (rfold (tcl_tx fo epochid (BI_CommitTime b)) (BI_ExcutedTxs b)
                    (ext (LB_totTxLatencyEpoch tml), ext (LB_txNum tml))) (\<lambda>(tot, num).
           rbind (rfold (tcl_broker2 fo epochid (BI_ProposeTime b) m) (BI_Broker2Txs b) tot) (\<lambda>tot.
             Inr \<lparr>LB_epochID = max (LB_epochID tml) epochid, LB_totTxLatencyEpoch = tot, LB_txNum = num,
                  LB_brokerTxMap = m\<rparr>)))"

definition LB_OutputRecord :: "'f floatops \<Rightarrow> 'f TestModule_TCL_Broker \<Rightarrow> ('f list \<times> 'f) res" where
  "LB_OutputRecord fo tml = tcl_output fo (LB_totTxLatencyEpoch tml) (LB_txNum tml)"

section \<open>Rate of cross-shard transactions\<close>

record 'f TestCrossTxRate_Relay =
  XR_epochID :: int
  XR_totTxNum :: "'f list"
  XR_totCrossTxNum :: "'f list"
  XR_relayTxRecord :: "string \<rightharpoonup> bool"

definition NewTestCrossTxRate_Relay :: "'f TestCrossTxRate_Relay" where
  "NewTestCrossTxRate_Relay =
     \<lparr>XR_epochID = -1, XR_totTxNum = [], XR_totCrossTxNum = [], XR_relayTxRecord = Map.empty\<rparr>"

text \<open>\<open>add_half_both\<close> adds a half to both counters, first to the cross-shard transactions.\<close>

definition add_half_both :: "'f floatops \<Rightarrow> int \<Rightarrow> 'f list \<times> 'f list \<Rightarrow> ('f list \<times> 'f list) res" where
  "add_half_both fo epochid st =
     rbind (upd_at epochid (\<lambda>x. F_add fo x (half fo)) (snd st)) (\<lambda>cross.
     rbind (upd_at epochid (\<lambda>x. F_add fo x (half fo)) (fst st)) (\<lambda>tot. Inr (tot, cross)))"

definition rate_executed ::
    "'f floatops \<Rightarrow> int \<Rightarrow> (string \<rightharpoonup> bool) \<Rightarrow> Transaction \<Rightarrow> 'f list \<times> 'f list
      \<Rightarrow> ('f list \<times> 'f list) res" where
  "rate_executed fo epochid relay tx st =
     (if relay (Tx_TxHash tx) = None
      then rbind (upd_at epochid (\<lambda>x. F_add fo x (F_of_int fo 1)) (fst st)) (\<lambda>tot. Inr (tot, snd st))
      else add_half_both fo epochid st)"

definition XR_UpdateMeasureRecord ::
    "'f floatops \<Rightarrow> BlockInfoMsg \<Rightarrow> 'f TestCrossTxRate_Relay \<Rightarrow> 'f TestCrossTxRate_Relay res" where
  "XR_UpdateMeasureRecord fo b tctr =
     (if BI_BlockBodyLength b = 0 then Inr tctr
      else
        let epochid = BI_Epoch b; ext = extend_epochs (XR_epochID tctr) epochid (F_of_int fo 0);
            relay = mark_relayed (BI_Relay1Txs b) (XR_relayTxRecord tctr)
        in rbind (rfold (\<lambda>_. add_half_both fo epochid) (BI_Relay1Txs b)
                    (ext (XR_totTxNum tctr), ext (XR_totCrossTxNum tctr))) (\<lambda>st.
           rbind (rfold (rate_executed fo epochid relay) (BI_ExcutedTxs b) st) (\<lambda>(tot, cross).
             Inr \<lparr>XR_epochID = max (XR_epochID tctr) epochid, XR_totTxNum = tot, XR_totCrossTxNum = cross,
                  XR_relayTxRecord = relay\<rparr>)))"

definition rate_epoch ::
    "'f floatops \<Rightarrow> 'f list \<Rightarrow> nat \<times> 'f \<Rightarrow> 'f list \<times> 'f \<times> 'f \<Rightarrow> ('f list \<times> 'f \<times> 'f) res" where
  "rate_epoch fo cross ie st =
     (let (eid, totTxN) = ie; (per, tot, ctx) = st in
      rbind (index_at cross eid) (\<lambda>c.
        Inr (per @ [F_div fo c totTxN], F_add fo tot totTxN, F_add fo ctx c)))"

definition rate_output :: "'f floatops \<Rightarrow> 'f list \<Rightarrow> 'f list \<Rightarrow> ('f list \<times> 'f) res" where
  "rate_output fo totTxNum cross =
     rbind (rfold (rate_epoch fo cross) (enumerate 0 totTxNum) ([], F_of_int fo 0, F_of_int fo 0))
       (\<lambda>(per, tot, ctx). Inr (per @ [tot, ctx], F_div fo ctx tot))"

definition XR_OutputRecord :: "'f floatops \<Rightarrow> 'f TestCrossTxRate_Relay \<Rightarrow> ('f list \<times> 'f) res" where
  "XR_OutputRecord fo tctr = rate_output fo (XR_totTxNum tctr) (XR_totCrossTxNum tctr)"

record 'f TestCrossTxRate_Broker =
  XB_epochID :: int
  XB_totTxNum :: "'f list"
  XB_totCrossTxNum :: "'f list"
  XB_b2num :: int
  XB_b1num :: int

definition NewTestCrossTxRate_Broker :: "'f TestCrossTxRate_Broker" where
  "NewTestCrossTxRate_Broker =
     \<lparr>XB_epochID = -1, XB_totTxNum = [], XB_totCrossTxNum = [], XB_b2num = 0, XB_b1num = 0\<rparr>"

definition XB_UpdateMeasureRecord ::
    "'f floatops \<Rightarrow> BlockInfoMsg \<Rightarrow> 'f TestCrossTxRate_Broker \<Rightarrow> 'f TestCrossTxRate_Broker res" where
  "XB_UpdateMeasureRecord fo b tctr =
     (if BI_BlockBodyLength b = 0 then Inr tctr
      else
        let epochid = BI_Epoch b; ext = extend_epochs (XB_epochID tctr) epochid (F_of_int fo 0)
        in rbind (upd_at epochid (\<lambda>x. F_add fo x (broker_halves fo b)) (ext (XB_totCrossTxNum tctr))) (\<lambda>cross.
           rbind (upd_at epochid (\<lambda>x. F_add fo x (broker_count fo b)) (ext (XB_totTxNum tctr))) (\<lambda>tot.
             Inr \<lparr>XB_epochID = max (XB_epochID tctr) epochid, XB_totTxNum = tot, XB_totCrossTxNum = cross,
                  XB_b2num = XB_b2num tctr + sint (BI_Broker2TxNum b),
                  XB_b1num = XB_b1num tctr + sint (BI_Broker1TxNum b)\<rparr>)))"

definition XB_OutputRecord :: "'f floatops \<Rightarrow> 'f TestCrossTxRate_Broker \<Rightarrow> ('f list \<times> 'f) res" where
  "XB_OutputRecord fo tctr = rate_output fo (XB_totTxNum tctr) (XB_totCrossTxNum tctr)"

section \<open>Number of transactions\<close>

record 'f TestTxNumCount_Relay =
  NR_epochID :: int
  NR_txNum :: "'f list"

definition NewTestTxNumCount_Relay :: "'f TestTxNumCount_Relay" where
  "NewTestTxNumCount_Relay = \<lparr>NR_epochID = -1, NR_txNum = []\<rparr>"

definition NR_UpdateMeasureRecord ::
    "'f floatops \<Rightarrow> BlockInfoMsg \<Rightarrow> 'f TestTxNumCount_Relay \<Rightarrow> 'f TestTxNumCount_Relay res" where
  "NR_UpdateMeasureRecord fo b ttnc =
     (if BI_BlockBodyLength b = 0 then Inr ttnc
      else rbind (upd_at (BI_Epoch b) (\<lambda>x. F_add fo x (F_of_int fo (int (length (BI_ExcutedTxs b)))))
                    (extend_epochs (NR_epochID ttnc) (BI_Epoch b) (F_of_int fo 0) (NR_txNum ttnc))) (\<lambda>num.
             Inr \<lparr>NR_epochID = max (NR_epochID ttnc) (BI_Epoch b), NR_txNum = num\<rparr>))"

definition count_output :: "'f floatops \<Rightarrow> 'f list \<Rightarrow> 'f list \<times> 'f" where
  "count_output fo txNum = (txNum, fold (\<lambda>tn tot. F_add fo tot tn) txNum (F_of_int fo 0))"

definition NR_OutputRecord :: "'f floatops \<Rightarrow> 'f TestTxNumCount_Relay \<Rightarrow> 'f list \<times> 'f" where
  "NR_OutputRecord fo ttnc = count_output fo (NR_txNum ttnc)"

record 'f TestTxNumCount_Broker =
  NB_epochID :: int
  NB_txNum :: "'f list"

definition NewTestTxNumCount_Broker :: "'f TestTxNumCount_Broker" where
  "NewTestTxNumCount_Broker = \<lparr>NB_epochID = -1, NB_txNum = []\<rparr>"

definition NB_UpdateMeasureRecord ::
    "'f floatops \<Rightarrow> BlockInfoMsg \<Rightarrow> 'f TestTxNumCount_Broker \<Rightarrow> 'f TestTxNumCount_Broker res" where
  "NB_UpdateMeasureRecord fo b ttnc =
     (if BI_BlockBodyLength b = 0 then Inr ttnc
      else rbind (upd_at (BI_Epoch b) (\<lambda>x. F_add fo x (broker_count fo b))
                    (extend_epochs (NB_epochID ttnc) (BI_Epoch b) (F_of_int fo 0) (NB_txNum ttnc))) (\<lambda>num.
             Inr \<lparr>NB_epochID = max (NB_epochID ttnc) (BI_Epoch b), NB_txNum = num\<rparr>))"

definition NB_OutputRecord :: "'f floatops \<Rightarrow> 'f TestTxNumCount_Broker \<Rightarrow> 'f list \<times> 'f" where
  "NB_OutputRecord fo ttnc = count_output fo (NB_txNum ttnc)"

section \<open>The interface of the supervisor\<close>

datatype 'f measure_mod =
    MM_TPS_Relay "'f TestModule_avgTPS_Relay"
  | MM_TPS_Broker "'f TestModule_avgTPS_Broker"
  | MM_TCL_Relay "'f TestModule_TCL_Relay"
  | MM_TCL_Broker "'f TestModule_TCL_Broker"
  | MM_CrossTxRate_Relay "'f TestCrossTxRate_Relay"
  | MM_CrossTxRate_Broker "'f TestCrossTxRate_Broker"
  | MM_TxNumCount_Relay "'f TestTxNumCount_Relay"
  | MM_TxNumCount_Broker "'f TestTxNumCount_Broker"

fun UpdateMeasureRecord :: "'f floatops \<Rightarrow> BlockInfoMsg \<Rightarrow> 'f measure_mod \<Rightarrow> 'f measure_mod res" where
  "UpdateMeasureRecord fo b (MM_TPS_Relay m) = rbind (TR_UpdateMeasureRecord fo b m) (\<lambda>m. Inr (MM_TPS_Relay m))"
| "UpdateMeasureRecord fo b (MM_TPS_Broker m) = rbind (TB_UpdateMeasureRecord fo b m) (\<lambda>m. Inr (MM_TPS_Broker m))"
| "UpdateMeasureRecord fo b (MM_TCL_Relay m) = rbind (LR_UpdateMeasureRecord fo b m) (\<lambda>m. Inr (MM_TCL_Relay m))"
| "UpdateMeasureRecord fo b (MM_TCL_Broker m) = rbind (LB_UpdateMeasureRecord fo b m) (\<lambda>m. Inr (MM_TCL_Broker m))"
| "UpdateMeasureRecord fo b (MM_CrossTxRate_Relay m) =
     rbind (XR_UpdateMeasureRecord fo b m) (\<lambda>m. Inr (MM_CrossTxRate_Relay m))"
| "UpdateMeasureRecord fo b (MM_CrossTxRate_Broker m) =
     rbind (XB_UpdateMeasureRecord fo b m) (\<lambda>m. Inr (MM_CrossTxRate_Broker m))"
| "UpdateMeasureRecord fo b (MM_TxNumCount_Relay m) =
     rbind (NR_UpdateMeasureRecord fo b m) (\<lambda>m. Inr (MM_TxNumCount_Relay m))"
| "UpdateMeasureRecord fo b (MM_TxNumCount_Broker m) =
     rbind (NB_UpdateMeasureRecord fo b m) (\<lambda>m. Inr (MM_TxNumCount_Broker m))"

fun OutputRecord :: "'f floatops \<Rightarrow> go_time \<Rightarrow> 'f measure_mod \<Rightarrow> ('f list \<times> 'f) res" where
  "OutputRecord fo now (MM_TPS_Relay m) = TR_OutputRecord fo now m"
| "OutputRecord fo now (MM_TPS_Broker m) = TB_OutputRecord fo now m"
| "OutputRecord fo now (MM_TCL_Relay m) = LR_OutputRecord fo m"
| "OutputRecord fo now (MM_TCL_Broker m) = LB_OutputRecord fo m"
| "OutputRecord fo now (MM_CrossTxRate_Relay m) = XR_OutputRecord fo m"
| "OutputRecord fo now (MM_CrossTxRate_Broker m) = XB_OutputRecord fo m"
| "OutputRecord fo now (MM_TxNumCount_Relay m) = Inr (NR_OutputRecord fo m)"
| "OutputRecord fo now (MM_TxNumCount_Broker m) = Inr (NB_OutputRecord fo m)"

fun OutputMetricName :: "'f measure_mod \<Rightarrow> string" where
  "OutputMetricName (MM_TPS_Relay m) = ''Average_TPS''"
| "OutputMetricName (MM_TPS_Broker m) = ''Average_TPS''"
| "OutputMetricName (MM_TCL_Relay m) = ''Transaction_Confirm_Latency''"
| "OutputMetricName (MM_TCL_Broker m) = ''Transaction_Confirm_Latency''"
| "OutputMetricName (MM_CrossTxRate_Relay m) = ''CrossTransaction_ratio''"
| "OutputMetricName (MM_CrossTxRate_Broker m) = ''CrossTransaction_ratio''"
| "OutputMetricName (MM_TxNumCount_Relay m) = ''Tx_number''"
| "OutputMetricName (MM_TxNumCount_Broker m) = ''Tx_number''"

text \<open>The choice \<^verbatim>\<open>NewSupervisor\<close> makes for one name; other names are ignored.\<close>

definition new_measure :: "int \<Rightarrow> string \<Rightarrow> 'f measure_mod list" where
  "new_measure shardNums name =
     (if name = ''TPS_Relay'' then [MM_TPS_Relay NewTestModule_avgTPS_Relay]
      else if name = ''TPS_Broker'' then [MM_TPS_Broker (NewTestModule_avgTPS_Broker shardNums)]
      else if name = ''TCL_Relay'' then [MM_TCL_Relay NewTestModule_TCL_Relay]
      else if name = ''TCL_Broker'' then [MM_TCL_Broker NewTestModule_TCL_Broker]
      else if name = ''CrossTxRate_Relay'' then [MM_CrossTxRate_Relay NewTestCrossTxRate_Relay]
      else if name = ''CrossTxRate_Broker'' then [MM_CrossTxRate_Broker NewTestCrossTxRate_Broker]
      else if name = ''TxNumberCount_Relay'' then [MM_TxNumCount_Relay NewTestTxNumCount_Relay]
      else if name = ''TxNumberCount_Broker'' then [MM_TxNumCount_Broker NewTestTxNumCount_Broker]
      else [])"

end
