(* ===== verification/MeasureProps.thy ===== *)
theory MeasureProps
  imports Measure PartitionProps
begin

text \<open>
  Properties of the measuring modules. What all eight have in common is a locale, \<open>measuring\<close>, with
  one interpretation per module: reports of empty blocks change nothing and reports of epochs that
  are not negative never panic. The counting modules of the relay scheme are then compared with each
  other: where \<^verbatim>\<open>float64\<close> sums are exact they report the same numbers of transactions.
\<close>

section \<open>Slices with one entry per epoch\<close>

definition per_epoch :: "int \<Rightarrow> 'a list \<Rightarrow> bool" where
  "per_epoch epochID xs \<longleftrightarrow> int (length xs) = epochID + 1"

lemma per_epoch_Nil [simp]: "per_epoch (-1) []"
  by (simp add: per_epoch_def)

lemma per_epoch_extend [simp]:
  "per_epoch epochID xs \<Longrightarrow> per_epoch (max epochID e) (extend_epochs epochID e v xs)"
  by (auto simp: per_epoch_def extend_epochs_def)

lemma per_epoch_upd:
  assumes "per_epoch k xs" and "0 \<le> e" and "e \<le> k"
  shows "\<exists>ys. upd_at e f xs = Inr ys \<and> per_epoch k ys"
  using assms by (simp add: upd_at_def per_epoch_def)

lemma per_epoch_index: "per_epoch k xs \<Longrightarrow> int i \<le> k \<Longrightarrow> \<exists>x. index_at xs i = Inr x"
  by (simp add: index_at_def per_epoch_def)

lemma per_epoch_rfold_upd:
  assumes "per_epoch k xs" and "0 \<le> e" and "e \<le> k"
  shows "\<exists>ys. rfold (\<lambda>x. upd_at e (f x)) zs xs = Inr ys \<and> per_epoch k ys"
  using assms per_epoch_upd by (intro rfold_total) blast+

section \<open>The contract of a measuring module\<close>

locale measuring =
  fixes upd :: "BlockInfoMsg \<Rightarrow> 's \<Rightarrow> 's res" and ok :: "'s \<Rightarrow> bool"
    and epoch :: "'s \<Rightarrow> int"
  assumes empty_report: "BI_BlockBodyLength b = 0 \<Longrightarrow> upd b s = Inr s"
    and report: "BI_BlockBodyLength b \<noteq> 0 \<Longrightarrow> 0 \<le> BI_Epoch b \<Longrightarrow> ok s \<Longrightarrow>
      \<exists>s'. upd b s = Inr s' \<and> ok s' \<and> epoch s' = max (epoch s) (BI_Epoch b)"
begin

lemma step_ok:
  assumes "0 \<le> BI_Epoch b" and "ok s"
  shows "\<exists>s'. upd b s = Inr s' \<and> ok s' \<and> epoch s \<le> epoch s'"
proof (cases "BI_BlockBodyLength b = 0")
  case True
  then show ?thesis using empty_report assms(2) by auto
next
  case False
  then show ?thesis using report [OF False assms] by auto
qed

lemma run_ok:
  assumes "\<forall>b \<in> set bs. 0 \<le> BI_Epoch b" and "ok s"
  shows "\<exists>s'. rfold upd bs s = Inr s' \<and> ok s'"
  using assms step_ok by (intro rfold_total) blast+

lemma run_ignores_empty: "rfold upd bs s = rfold upd (filter (\<lambda>b. BI_BlockBodyLength b \<noteq> 0) bs) s"
proof (induction bs arbitrary: s)
  case (Cons b bs)
  then show ?case using empty_report [of b s] by (cases "upd b s") auto
qed simp

end

subsection \<open>The modules\<close>

definition TR_ok :: "'f TestModule_avgTPS_Relay \<Rightarrow> bool" where
  "TR_ok m \<longleftrightarrow> per_epoch (TR_epochID m) (TR_excutedTxNum m) \<and> per_epoch (TR_epochID m) (TR_startTime m) \<and>
     per_epoch (TR_epochID m) (TR_endTime m)"

definition TB_ok :: "'f TestModule_avgTPS_Broker \<Rightarrow> bool" where
  "TB_ok m \<longleftrightarrow> per_epoch (TB_epochID m) (TB_excutedTxNum m) \<and> per_epoch (TB_epochID m) (TB_startTime m) \<and>
     per_epoch (TB_epochID m) (TB_endTime m)"

definition LR_ok :: "'f TestModule_TCL_Relay \<Rightarrow> bool" where
  "LR_ok m \<longleftrightarrow> per_epoch (LR_epochID m) (LR_totTxLatencyEpoch m) \<and> per_epoch (LR_epochID m) (LR_txNum m)"

definition LB_ok :: "'f TestModule_TCL_Broker \<Rightarrow> bool" where
  "LB_ok m \<longleftrightarrow> per_epoch (LB_epochID m) (LB_totTxLatencyEpoch m) \<and> per_epoch (LB_epochID m) (LB_txNum m)"

definition XR_ok :: "'f TestCrossTxRate_Relay \<Rightarrow> bool" where
  "XR_ok m \<longleftrightarrow> per_epoch (XR_epochID m) (XR_totTxNum m) \<and> per_epoch (XR_epochID m) (XR_totCrossTxNum m)"

definition XB_ok :: "'f TestCrossTxRate_Broker \<Rightarrow> bool" where
  "XB_ok m \<longleftrightarrow> per_epoch (XB_epochID m) (XB_totTxNum m) \<and> per_epoch (XB_epochID m) (XB_totCrossTxNum m)"

definition NR_ok :: "'f TestTxNumCount_Relay \<Rightarrow> bool" where
  "NR_ok m \<longleftrightarrow> per_epoch (NR_epochID m) (NR_txNum m)"

definition NB_ok :: "'f TestTxNumCount_Broker \<Rightarrow> bool" where
  "NB_ok m \<longleftrightarrow> per_epoch (NB_epochID m) (NB_txNum m)"

lemma extended_upd:
  assumes "per_epoch epochID xs" and "0 \<le> e"
  shows "\<exists>ys. upd_at e f (extend_epochs epochID e v xs) = Inr ys \<and> per_epoch (max epochID e) ys"
  using per_epoch_upd [OF per_epoch_extend [OF assms(1)] assms(2)] by simp

interpretation TR: measuring "TR_UpdateMeasureRecord fo" TR_ok TR_epochID
proof
  fix b :: BlockInfoMsg and s :: "'a TestModule_avgTPS_Relay"
  show "BI_BlockBodyLength b = 0 \<Longrightarrow> TR_UpdateMeasureRecord fo b s = Inr s" by (simp add: TR_UpdateMeasureRecord_def)
  assume b: "BI_BlockBodyLength b \<noteq> 0" "0 \<le> BI_Epoch b" and ok: "TR_ok s"
  let ?k = "max (TR_epochID s) (BI_Epoch b)" and ?r = "mark_relayed (BI_Relay1Txs b) (TR_relayTx s)"
  obtain n1 where n1: "upd_at (BI_Epoch b) (\<lambda>x. F_add fo x (F_div fo (F_of_int fo (uint (BI_Relay1TxNum b))) (F_of_int fo 2)))
      (extend_epochs (TR_epochID s) (BI_Epoch b) (F_of_int fo 0) (TR_excutedTxNum s)) = Inr n1" "per_epoch ?k n1"
    using extended_upd b(2) ok by (metis TR_ok_def)
  obtain n2 where n2: "rfold (\<lambda>tx. upd_at (BI_Epoch b) (\<lambda>x. F_add fo x (if ?r (Tx_TxHash tx) \<noteq> None then half fo else F_of_int fo 1)))
      (BI_ExcutedTxs b) n1 = Inr n2" "per_epoch ?k n2"
    using per_epoch_rfold_upd [OF n1(2) b(2)] by (metis max.cobounded2)
  obtain st en where
    se: "upd_at (BI_Epoch b) (note_start (BI_ProposeTime b)) (extend_epochs (TR_epochID s) (BI_Epoch b) 0 (TR_startTime s)) = Inr st"
      "upd_at (BI_Epoch b) (note_end (BI_CommitTime b)) (extend_epochs (TR_epochID s) (BI_Epoch b) 0 (TR_endTime s)) = Inr en"
      "per_epoch ?k st" "per_epoch ?k en"
    using extended_upd b(2) ok by (metis TR_ok_def)
  show "\<exists>s'. TR_UpdateMeasureRecord fo b s = Inr s' \<and> TR_ok s' \<and> TR_epochID s' = ?k"
    using b(1) n1 n2 se by (simp add: TR_UpdateMeasureRecord_def TR_ok_def)
qed

interpretation TB: measuring "TB_UpdateMeasureRecord fo" TB_ok TB_epochID
proof
  fix b :: BlockInfoMsg and s :: "'a TestModule_avgTPS_Broker"
  show "BI_BlockBodyLength b = 0 \<Longrightarrow> TB_UpdateMeasureRecord fo b s = Inr s" by (simp add: TB_UpdateMeasureRecord_def)
  assume b: "BI_BlockBodyLength b \<noteq> 0" "0 \<le> BI_Epoch b" and ok: "TB_ok s"
  let ?k = "max (TB_epochID s) (BI_Epoch b)"
  obtain n st en where
    "upd_at (BI_Epoch b) (\<lambda>x. F_add fo x (broker_count fo b))
      (extend_epochs (TB_epochID s) (BI_Epoch b) (F_of_int fo 0) (TB_excutedTxNum s)) = Inr n"
    "upd_at (BI_Epoch b) (note_start (BI_ProposeTime b)) (extend_epochs (TB_epochID s) (BI_Epoch b) 0 (TB_startTime s)) = Inr st"
    "upd_at (BI_Epoch b) (note_end (BI_CommitTime b)) (extend_epochs (TB_epochID s) (BI_Epoch b) 0 (TB_endTime s)) = Inr en"
    "per_epoch ?k n" "per_epoch ?k st" "per_epoch ?k en"
    using extended_upd b(2) ok by (metis TB_ok_def)
  with b(1) show "\<exists>s'. TB_UpdateMeasureRecord fo b s = Inr s' \<and> TB_ok s' \<and> TB_epochID s' = ?k"
    by (simp add: TB_UpdateMeasureRecord_def TB_ok_def)
qed

lemma tcl_txs_ok:
  assumes "per_epoch k tot" and "per_epoch k num" and "0 \<le> e" and "e \<le> k"
  shows "\<exists>tot' num'. rfold (tcl_tx fo e t) txs (tot, num) = Inr (tot', num') \<and> per_epoch k tot' \<and> per_epoch k num'"
proof -
  have "\<exists>s'. tcl_tx fo e t tx s = Inr s' \<and> per_epoch k (fst s') \<and> per_epoch k (snd s')"
    if "per_epoch k (fst s) \<and> per_epoch k (snd s)" for tx and s :: "'a list \<times> 'a list"
    using that assms(3,4) by (cases s) (simp add: tcl_tx_def upd_at_def per_epoch_def)
  from rfold_total [where P = "\<lambda>s. per_epoch k (fst s) \<and> per_epoch k (snd s)", OF _ this, where s = "(tot, num)" and xs = txs]
  show ?thesis using assms(1,2) by auto
qed

interpretation LR: measuring "LR_UpdateMeasureRecord fo" LR_ok LR_epochID
proof
  fix b :: BlockInfoMsg and s :: "'a TestModule_TCL_Relay"
  show "BI_BlockBodyLength b = 0 \<Longrightarrow> LR_UpdateMeasureRecord fo b s = Inr s" by (simp add: LR_UpdateMeasureRecord_def)
  assume b: "BI_BlockBodyLength b \<noteq> 0" "0 \<le> BI_Epoch b" and ok: "LR_ok s"
  let ?k = "max (LR_epochID s) (BI_Epoch b)"
  obtain tot num where "rfold (tcl_tx fo (BI_Epoch b) (BI_CommitTime b)) (BI_ExcutedTxs b)
      (extend_epochs (LR_epochID s) (BI_Epoch b) (F_of_int fo 0) (LR_totTxLatencyEpoch s),
       extend_epochs (LR_epochID s) (BI_Epoch b) (F_of_int fo 0) (LR_txNum s)) = Inr (tot, num)"
    "per_epoch ?k tot" "per_epoch ?k num"
    using tcl_txs_ok per_epoch_extend b(2) ok by (metis LR_ok_def max.cobounded2)
  with b(1) show "\<exists>s'. LR_UpdateMeasureRecord fo b s = Inr s' \<and> LR_ok s' \<and> LR_epochID s' = ?k"
    by (simp add: LR_UpdateMeasureRecord_def LR_ok_def)
qed

interpretation LB: measuring "LB_UpdateMeasureRecord fo" LB_ok LB_epochID
proof
  fix b :: BlockInfoMsg and s :: "'a TestModule_TCL_Broker"
  show "BI_BlockBodyLength b = 0 \<Longrightarrow> LB_UpdateMeasureRecord fo b s = Inr s" by (simp add: LB_UpdateMeasureRecord_def)
  assume b: "BI_BlockBodyLength b \<noteq> 0" "0 \<le> BI_Epoch b" and ok: "LB_ok s"
  let ?k = "max (LB_epochID s) (BI_Epoch b)"
  let ?m = "fold (\<lambda>b1tx m. m(raw_hash b1tx \<mapsto> Tx_Time b1tx)) (BI_Broker1Txs b) (LB_brokerTxMap s)"
  obtain tot num where 1: "rfold (tcl_tx fo (BI_Epoch b) (BI_CommitTime b)) (BI_ExcutedTxs b)
      (extend_epochs (LB_epochID s) (BI_Epoch b) (F_of_int fo 0) (LB_totTxLatencyEpoch s),
       extend_epochs (LB_epochID s) (BI_Epoch b) (F_of_int fo 0) (LB_txNum s)) = Inr (tot, num)"
    "per_epoch ?k tot" "per_epoch ?k num"
    using tcl_txs_ok per_epoch_extend b(2) ok by (metis LB_ok_def max.cobounded2)
  have "\<exists>tot'. rfold (tcl_broker2 fo (BI_Epoch b) (BI_ProposeTime b) ?m) (BI_Broker2Txs b) tot = Inr tot' \<and> per_epoch ?k tot'"
    using 1(2) b(2)
    by (intro rfold_total) (auto simp: tcl_broker2_def upd_at_def per_epoch_def split: option.splits)
  with b(1) 1 show "\<exists>s'. LB_UpdateMeasureRecord fo b s = Inr s' \<and> LB_ok s' \<and> LB_epochID s' = ?k"
    by (auto simp: LB_UpdateMeasureRecord_def LB_ok_def)
qed

lemma add_half_both_ok:
  assumes "per_epoch k (fst st)" and "per_epoch k (snd st)" and "0 \<le> e" and "e \<le> k"
  shows "\<exists>st'. add_half_both fo e st = Inr st' \<and> per_epoch k (fst st') \<and> per_epoch k (snd st')"
  using assms by (simp add: add_half_both_def upd_at_def per_epoch_def)

lemma rate_executed_ok:
  assumes "per_epoch k (fst st)" and "per_epoch k (snd st)" and "0 \<le> e" and "e \<le> k"
  shows "\<exists>st'. rate_executed fo e r tx st = Inr st' \<and> per_epoch k (fst st') \<and> per_epoch k (snd st')"
  using assms add_half_both_ok [OF assms] by (simp add: rate_executed_def upd_at_def per_epoch_def)

interpretation XR: measuring "XR_UpdateMeasureRecord fo" XR_ok XR_epochID
proof
  fix b :: BlockInfoMsg and s :: "'a TestCrossTxRate_Relay"
  show "BI_BlockBodyLength b = 0 \<Longrightarrow> XR_UpdateMeasureRecord fo b s = Inr s" by (simp add: XR_UpdateMeasureRecord_def)
  assume b: "BI_BlockBodyLength b \<noteq> 0" "0 \<le> BI_Epoch b" and ok: "XR_ok s"
  let ?k = "max (XR_epochID s) (BI_Epoch b)" and ?r = "mark_relayed (BI_Relay1Txs b) (XR_relayTxRecord s)"
  let ?Q = "\<lambda>st. per_epoch ?k (fst st) \<and> per_epoch ?k (snd st)"
  let ?s0 = "(extend_epochs (XR_epochID s) (BI_Epoch b) (F_of_int fo 0) (XR_totTxNum s),
       extend_epochs (XR_epochID s) (BI_Epoch b) (F_of_int fo 0) (XR_totCrossTxNum s))"
  have e: "BI_Epoch b \<le> ?k" by simp
  have "?Q ?s0" using ok by (simp add: XR_ok_def)
  then have "\<exists>s1. rfold (\<lambda>_. add_half_both fo (BI_Epoch b)) (BI_Relay1Txs b) ?s0 = Inr s1 \<and> ?Q s1"
    by (rule rfold_total) (rule add_half_both_ok [OF _ _ b(2) e]; blast)
  then obtain s1 where s1: "rfold (\<lambda>_. add_half_both fo (BI_Epoch b)) (BI_Relay1Txs b) ?s0 = Inr s1" "?Q s1" by blast
  from s1(2) have "\<exists>s2. rfold (rate_executed fo (BI_Epoch b) ?r) (BI_ExcutedTxs b) s1 = Inr s2 \<and> ?Q s2"
    by (rule rfold_total) (rule rate_executed_ok [OF _ _ b(2) e]; blast)
  then obtain s2 where s2: "rfold (rate_executed fo (BI_Epoch b) ?r) (BI_ExcutedTxs b) s1 = Inr s2" "?Q s2" by blast
  show "\<exists>s'. XR_UpdateMeasureRecord fo b s = Inr s' \<and> XR_ok s' \<and> XR_epochID s' = ?k"
    using b(1) s1 s2 by (auto simp: XR_UpdateMeasureRecord_def XR_ok_def split_beta)
qed

interpretation XB: measuring "XB_UpdateMeasureRecord fo" XB_ok XB_epochID
proof
  fix b :: BlockInfoMsg and s :: "'a TestCrossTxRate_Broker"
  show "BI_BlockBodyLength b = 0 \<Longrightarrow> XB_UpdateMeasureRecord fo b s = Inr s" by (simp add: XB_UpdateMeasureRecord_def)
  assume b: "BI_BlockBodyLength b \<noteq> 0" "0 \<le> BI_Epoch b" and ok: "XB_ok s"
  let ?k = "max (XB_epochID s) (BI_Epoch b)"
  obtain c t where
    "upd_at (BI_Epoch b) (\<lambda>x. F_add fo x (broker_halves fo b))
      (extend_epochs (XB_epochID s) (BI_Epoch b) (F_of_int fo 0) (XB_totCrossTxNum s)) = Inr c"
    "upd_at (BI_Epoch b) (\<lambda>x. F_add fo x (broker_count fo b))
      (extend_epochs (XB_epochID s) (BI_Epoch b) (F_of_int fo 0) (XB_totTxNum s)) = Inr t"
    "per_epoch ?k c" "per_epoch ?k t"
    using extended_upd b(2) ok by (metis XB_ok_def)
  with b(1) show "\<exists>s'. XB_UpdateMeasureRecord fo b s = Inr s' \<and> XB_ok s' \<and> XB_epochID s' = ?k"
    by (simp add: XB_UpdateMeasureRecord_def XB_ok_def)
qed

interpretation NR: measuring "NR_UpdateMeasureRecord fo" NR_ok NR_epochID
  by unfold_locales (use extended_upd in \<open>fastforce simp: NR_UpdateMeasureRecord_def NR_ok_def rbind_eq_Inr\<close>)+

interpretation NB: measuring "NB_UpdateMeasureRecord fo" NB_ok NB_epochID
  by unfold_locales (use extended_upd in \<open>fastforce simp: NB_UpdateMeasureRecord_def NB_ok_def rbind_eq_Inr\<close>)+

section \<open>Counting with exact sums\<close>

text \<open>IEEE 754 arithmetic returns a result unrounded when it is representable, and all multiples of
  one half up to \<open>2 ^ 52\<close> are. \<open>emb\<close> gives the number for a count of halves.\<close>

definition half_exact :: "'f floatops \<Rightarrow> (int \<Rightarrow> 'f) \<Rightarrow> bool" where
  "half_exact fo emb \<longleftrightarrow>
     (\<forall>i. 0 \<le> i \<longrightarrow> i \<le> 2 ^ 52 \<longrightarrow> F_of_int fo i = emb (2 * i) \<and> F_div fo (F_of_int fo i) (F_of_int fo 2) = emb i) \<and>
     (\<forall>a b. 0 \<le> a \<longrightarrow> 0 \<le> b \<longrightarrow> a + b \<le> 2 ^ 53 \<longrightarrow> F_add fo (emb a) (emb b) = emb (a + b))"

lemma half_exact_intros:
  assumes "half_exact fo emb"
  shows "0 \<le> i \<Longrightarrow> i \<le> 2 ^ 52 \<Longrightarrow> F_of_int fo i = emb (2 * i)"
    and "0 \<le> i \<Longrightarrow> i \<le> 2 ^ 52 \<Longrightarrow> F_div fo (F_of_int fo i) (F_of_int fo 2) = emb i"
    and "0 \<le> a \<Longrightarrow> 0 \<le> b \<Longrightarrow> a + b \<le> 2 ^ 53 \<Longrightarrow> F_add fo (emb a) (emb b) = emb (a + b)"
  using assms unfolding half_exact_def by blast+

lemma half_exact_constants:
  assumes "half_exact fo emb"
  shows "F_of_int fo 0 = emb 0" "F_of_int fo 1 = emb 2" "half fo = emb 1"
  using half_exact_intros(1) [OF assms, of 0] half_exact_intros(1) [OF assms, of 1] half_exact_intros(2) [OF assms, of 1]
  by (simp_all add: half_def)

lemma sum_list_upd: "i < length cs \<Longrightarrow> sum_list (cs[i := c]) = sum_list cs + c - (cs ! i :: int)"
  by (induction cs arbitrary: i) (auto split: nat.splits)

text \<open>A slice of exact counts whose sum is \<open>T\<close> halves.\<close>

definition counts :: "(int \<Rightarrow> 'f) \<Rightarrow> int \<Rightarrow> 'f list \<Rightarrow> int \<Rightarrow> bool" where
  "counts emb k xs T \<longleftrightarrow> per_epoch k xs \<and> (\<exists>cs. xs = map emb cs \<and> (\<forall>c \<in> set cs. 0 \<le> c) \<and> sum_list cs = T)"

lemma counts_nonneg: "counts emb k xs T \<Longrightarrow> 0 \<le> T"
  by (auto simp: counts_def sum_list_nonneg)

lemma counts_Nil: "counts emb (-1) [] 0"
  by (simp add: counts_def)

lemma counts_extend:
  assumes "half_exact fo emb" and "counts emb k xs T"
  shows "counts emb (max k e) (extend_epochs k e (F_of_int fo 0) xs) T"
proof -
  obtain cs where "per_epoch k xs" "xs = map emb cs" "\<forall>c \<in> set cs. 0 \<le> c" "sum_list cs = T"
    using assms(2) by (auto simp: counts_def)
  then show ?thesis
    using half_exact_constants(1) [OF assms(1)] per_epoch_extend [of k xs e "emb 0"]
    by (auto simp: counts_def extend_epochs_def sum_list_replicate
        intro!: exI [of _ "cs @ replicate (nat (e - k)) 0"])
qed

lemma counts_upd:
  assumes h: "half_exact fo emb" and c: "counts emb k xs T" and "0 \<le> e" "e \<le> k" "0 \<le> w" "T + w \<le> 2 ^ 53"
  shows "\<exists>ys. upd_at e (\<lambda>x. F_add fo x (emb w)) xs = Inr ys \<and> counts emb k ys (T + w)"
proof -
  obtain cs where cs: "per_epoch k xs" "xs = map emb cs" "\<forall>c \<in> set cs. 0 \<le> c" "sum_list cs = T"
    using c by (auto simp: counts_def)
  then have i: "nat e < length cs" using assms(3,4) by (auto simp: per_epoch_def)
  have pos: "0 \<le> cs ! nat e" using cs(3) i by simp
  have "cs ! nat e \<le> T" using member_le_sum_list [of "cs ! nat e" cs] cs(3,4) i by auto
  then have "F_add fo (emb (cs ! nat e)) (emb w) = emb (cs ! nat e + w)"
    using half_exact_intros(3) [OF h pos assms(5)] assms(6) by simp
  then have "upd_at e (\<lambda>x. F_add fo x (emb w)) xs = Inr (map emb (cs[nat e := cs ! nat e + w]))"
    using cs(1,2) assms(3,4) i by (simp add: upd_at_def per_epoch_def map_update)
  moreover have "sum_list (cs[nat e := cs ! nat e + w]) = T + w"
    using sum_list_upd [OF i, of "cs ! nat e + w"] cs(4) by simp
  moreover have "\<forall>c \<in> set (cs[nat e := cs ! nat e + w]). 0 \<le> c"
    using cs(3) pos assms(5) set_update_subset_insert [of cs "nat e" "cs ! nat e + w"] by auto
  ultimately show ?thesis using cs(1,2) by (auto simp: counts_def per_epoch_def)
qed

lemma counts_upds:
  assumes h: "half_exact fo emb" and "0 \<le> e" "e \<le> k" and "\<And>x. 0 \<le> w x"
    and "counts emb k xs T" and "T + sum_list (map w zs) \<le> 2 ^ 53"
  shows "\<exists>ys. rfold (\<lambda>z. upd_at e (\<lambda>x. F_add fo x (emb (w z)))) zs xs = Inr ys
           \<and> counts emb k ys (T + sum_list (map w zs))"
  using assms(5,6)
proof (induction zs arbitrary: xs T)
  case Nil
  then show ?case by simp
next
  case (Cons z zs)
  have "0 \<le> sum_list (map w zs)" by (rule sum_list_nonneg) (use assms(4) in auto)
  then have "T + w z \<le> 2 ^ 53" using Cons.prems(2) by simp
  from counts_upd [OF h Cons.prems(1) assms(2,3,4) this] obtain ys where
    "upd_at e (\<lambda>x. F_add fo x (emb (w z))) xs = Inr ys" "counts emb k ys (T + w z)" by blast
  with Cons.IH [of ys "T + w z"] Cons.prems(2) show ?case by (simp add: add.assoc)
qed

lemma counts_total:
  assumes "half_exact fo emb" and "counts emb k xs T" and "T \<le> 2 ^ 53"
  shows "fold (\<lambda>x t. F_add fo t x) xs (F_of_int fo 0) = emb T"
proof -
  obtain cs where cs: "xs = map emb cs" "\<forall>c \<in> set cs. 0 \<le> c" "sum_list cs = T"
    using assms(2) by (auto simp: counts_def)
  have "fold (\<lambda>x t. F_add fo t x) (map emb cs) (emb a) = emb (a + sum_list cs)" if "0 \<le> a" "a + sum_list cs \<le> 2 ^ 53" for a
    using cs(2) that
  proof (induction cs arbitrary: a)
    case (Cons c cs)
    then have "0 \<le> sum_list cs" by (simp add: sum_list_nonneg)
    with Cons show ?case using half_exact_intros(3) [OF assms(1), of a c] by (simp add: add.assoc)
  qed simp
  from this [of 0] show ?thesis using cs assms(3) half_exact_constants(1) [OF assms(1)] by simp
qed

section \<open>The counting modules of the relay scheme\<close>

text \<open>\<open>tally w R bs\<close> sums the weight of the non-empty reports, where the weight may depend on the hashes
  that have been reported as relayed, with \<open>R\<close> before the first report.\<close>

definition relay_hashes :: "BlockInfoMsg \<Rightarrow> string set" where
  "relay_hashes b = Tx_TxHash ` set (BI_Relay1Txs b)"

fun tally :: "(string set \<Rightarrow> BlockInfoMsg \<Rightarrow> int) \<Rightarrow> string set \<Rightarrow> BlockInfoMsg list \<Rightarrow> int" where
  "tally w R [] = 0"
| "tally w R (b # bs) =
     (if BI_BlockBodyLength b = 0 then tally w R bs
      else w (R \<union> relay_hashes b) b + tally w (R \<union> relay_hashes b) bs)"

definition executed :: "string set \<Rightarrow> BlockInfoMsg \<Rightarrow> int" where
  "executed R b = int (length (BI_ExcutedTxs b))"

definition relayed :: "string set \<Rightarrow> BlockInfoMsg \<Rightarrow> int" where
  "relayed R b = int (length (BI_Relay1Txs b))"

definition arrived :: "string set \<Rightarrow> BlockInfoMsg \<Rightarrow> int" where
  "arrived R b = int (length (filter (\<lambda>tx. Tx_TxHash tx \<in> R) (BI_ExcutedTxs b)))"

lemma tally_nonneg: "(\<And>R b. 0 \<le> w R b) \<Longrightarrow> 0 \<le> tally w R bs"
  by (induction bs arbitrary: R) (auto simp: add_nonneg_nonneg)

lemma tally_add: "tally (\<lambda>R b. v R b + w R b) R bs = tally v R bs + tally w R bs"
  by (induction bs arbitrary: R) auto

lemma tally_mono: "(\<And>R b. v R b \<le> w R b) \<Longrightarrow> tally v R bs \<le> tally w R bs"
  by (induction bs arbitrary: R) (auto simp: add_mono)

lemma tally_scale: "tally (\<lambda>R b. c * w R b) R bs = c * tally w R bs"
  by (induction bs arbitrary: R) (auto simp: distrib_left)

lemma tally_diff: "tally (\<lambda>R b. v R b - w R b) R bs = tally v R bs - tally w R bs"
  by (induction bs arbitrary: R) auto

lemma tally_zero: "tally (\<lambda>_ _. 0) R bs = 0"
  by (induction bs arbitrary: R) simp_all

lemma tally_run:
  assumes "\<And>b s. BI_BlockBodyLength b = 0 \<Longrightarrow> upd b s = Inr s" and v: "\<And>R b. 0 \<le> v R b" and w: "\<And>R b. 0 \<le> w R b"
    and step: "\<And>b s R T C. b \<in> set bs \<Longrightarrow> BI_BlockBodyLength b \<noteq> 0 \<Longrightarrow> I R T C s \<Longrightarrow>
      T + v (R \<union> relay_hashes b) b \<le> B \<Longrightarrow> C + w (R \<union> relay_hashes b) b \<le> B \<Longrightarrow>
      \<exists>s'. upd b s = Inr s' \<and> I (R \<union> relay_hashes b) (T + v (R \<union> relay_hashes b) b) (C + w (R \<union> relay_hashes b) b) s'"
    and "I R T C s" and "T + tally v R bs \<le> B" and "C + tally w R bs \<le> B"
  shows "\<exists>s' R'. rfold upd bs s = Inr s' \<and> I R' (T + tally v R bs) (C + tally w R bs) s'"
  using assms(4-7)
proof (induction bs arbitrary: s R T C)
  case Nil
  then show ?case by auto
next
  case (Cons b bs)
  have sub: "\<And>b' s R T C. b' \<in> set bs \<Longrightarrow> BI_BlockBodyLength b' \<noteq> 0 \<Longrightarrow> I R T C s \<Longrightarrow>
      T + v (R \<union> relay_hashes b') b' \<le> B \<Longrightarrow> C + w (R \<union> relay_hashes b') b' \<le> B \<Longrightarrow>
      \<exists>s'. upd b' s = Inr s' \<and> I (R \<union> relay_hashes b') (T + v (R \<union> relay_hashes b') b') (C + w (R \<union> relay_hashes b') b') s'"
    using Cons.prems(1) by simp
  show ?case
  proof (cases "BI_BlockBodyLength b = 0")
    case True
    then show ?thesis using Cons.IH [OF sub Cons.prems(2)] Cons.prems(3,4) assms(1) by simp
  next
    case False
    let ?R = "R \<union> relay_hashes b"
    have "0 \<le> tally v ?R bs" "0 \<le> tally w ?R bs" using v w by (simp_all add: tally_nonneg)
    then have "T + v ?R b \<le> B" "C + w ?R b \<le> B" using Cons.prems(3,4) False by simp_all
    then obtain s1 where s1: "upd b s = Inr s1" "I ?R (T + v ?R b) (C + w ?R b) s1"
      using Cons.prems(1) [of b R T C s] Cons.prems(2) False by auto
    show ?thesis using Cons.IH [OF sub s1(2)] s1(1) Cons.prems(3,4) False by (simp add: add.assoc)
  qed
qed

lemma dom_mark_relayed: "dom (mark_relayed txs m) = dom m \<union> Tx_TxHash ` set txs"
  by (induction txs arbitrary: m) (auto simp: mark_relayed_def)

lemma relay_hash_iff: "mark_relayed (BI_Relay1Txs b) m h \<noteq> None \<longleftrightarrow> h \<in> dom m \<union> relay_hashes b"
  by (metis dom_mark_relayed domIff relay_hashes_def)

definition tx_halves :: "string set \<Rightarrow> Transaction \<Rightarrow> int" where
  "tx_halves R tx = (if Tx_TxHash tx \<in> R then 1 else 2)"

lemma tx_halves_nonneg: "0 \<le> tx_halves R tx"
  by (simp add: tx_halves_def)

lemma sum_tx_halves_list:
  "sum_list (map (tx_halves R) txs) = 2 * int (length txs) - int (length (filter (\<lambda>tx. Tx_TxHash tx \<in> R) txs))"
  by (induction txs) (simp_all add: tx_halves_def)

lemma sum_tx_halves: "sum_list (map (tx_halves R) (BI_ExcutedTxs b)) = 2 * executed R b - arrived R b"
  by (simp add: sum_tx_halves_list executed_def arrived_def)

lemma weights_nonneg: "0 \<le> executed R b" "0 \<le> relayed R b" "0 \<le> arrived R b" "arrived R b \<le> executed R b"
  by (simp_all add: executed_def relayed_def arrived_def)

text \<open>What a report of the relay scheme is assumed to satisfy.\<close>

definition fair_report :: "BlockInfoMsg \<Rightarrow> bool" where
  "fair_report b \<longleftrightarrow> 0 \<le> BI_Epoch b \<and> BI_Relay1TxNum b = of_nat (length (BI_Relay1Txs b))"

lemma fair_uint:
  assumes "fair_report b" and "relayed R b \<le> 2 ^ 52"
  shows "uint (BI_Relay1TxNum b) = relayed R b"
proof -
  have "length (BI_Relay1Txs b) < 2 ^ 64" using assms(2) by (simp add: relayed_def)
  then have "unat (of_nat (length (BI_Relay1Txs b)) :: u64) = length (BI_Relay1Txs b)" by (rule unat_of_nat_u64)
  then show ?thesis using assms(1) by (simp only: fair_report_def relayed_def uint_nat)
qed

definition TR_counts :: "(int \<Rightarrow> 'f) \<Rightarrow> string set \<Rightarrow> int \<Rightarrow> 'f TestModule_avgTPS_Relay \<Rightarrow> bool" where
  "TR_counts emb R T m \<longleftrightarrow> TR_ok m \<and> dom (TR_relayTx m) = R \<and> counts emb (TR_epochID m) (TR_excutedTxNum m) T"

lemma TR_counts_step:
  assumes h: "half_exact fo emb" and b: "BI_BlockBodyLength b \<noteq> 0" "fair_report b" and c: "TR_counts emb R T m"
    and B: "T + (relayed R' b + (2 * executed R' b - arrived R' b)) \<le> 2 ^ 52" and R': "R' = R \<union> relay_hashes b"
  shows "\<exists>m'. TR_UpdateMeasureRecord fo b m = Inr m' \<and>
           TR_counts emb R' (T + (relayed R' b + (2 * executed R' b - arrived R' b))) m'"
proof -
  let ?e = "BI_Epoch b" and ?k = "max (TR_epochID m) (BI_Epoch b)" and ?r = "mark_relayed (BI_Relay1Txs b) (TR_relayTx m)"
  have e: "0 \<le> ?e" "?e \<le> ?k" using b(2) by (simp_all add: fair_report_def)
  have T: "0 \<le> T" "counts emb (TR_epochID m) (TR_excutedTxNum m) T"
    using c counts_nonneg by (auto simp: TR_counts_def)
  note n = weights_nonneg [of R' b]
  have l: "relayed R' b \<le> 2 ^ 52" "T + relayed R' b \<le> 2 ^ 53" using B n T(1) by simp_all
  have d: "F_div fo (F_of_int fo (uint (BI_Relay1TxNum b))) (F_of_int fo 2) = emb (relayed R' b)"
    unfolding fair_uint [OF b(2) l(1)] by (rule half_exact_intros(2) [OF h n(2) l(1)])
  obtain n1 where n1: "upd_at ?e (\<lambda>x. F_add fo x (emb (relayed R' b)))
      (extend_epochs (TR_epochID m) ?e (F_of_int fo 0) (TR_excutedTxNum m)) = Inr n1" "counts emb ?k n1 (T + relayed R' b)"
    using counts_upd [OF h counts_extend [OF h T(2)] e n(2) l(2)] by blast
  have "F_add fo x (if ?r (Tx_TxHash tx) \<noteq> None then half fo else F_of_int fo 1) = F_add fo x (emb (tx_halves R' tx))" for tx x
    using relay_hash_iff [of b "TR_relayTx m" "Tx_TxHash tx"] c R' half_exact_constants [OF h]
    by (simp add: tx_halves_def TR_counts_def)
  then have f: "(\<lambda>tx. upd_at ?e (\<lambda>x. F_add fo x (if ?r (Tx_TxHash tx) \<noteq> None then half fo else F_of_int fo 1))) =
      (\<lambda>tx. upd_at ?e (\<lambda>x. F_add fo x (emb (tx_halves R' tx))))" by presburger
  have "T + relayed R' b + sum_list (map (tx_halves R') (BI_ExcutedTxs b)) \<le> 2 ^ 53" using B by (simp add: sum_tx_halves)
  from counts_upds [OF h e tx_halves_nonneg n1(2) this] obtain n2 where
    n2: "rfold (\<lambda>tx. upd_at ?e (\<lambda>x. F_add fo x (emb (tx_halves R' tx)))) (BI_ExcutedTxs b) n1 = Inr n2"
      "counts emb ?k n2 (T + (relayed R' b + (2 * executed R' b - arrived R' b)))"
    by (auto simp: sum_tx_halves add.assoc)
  obtain m' where m': "TR_UpdateMeasureRecord fo b m = Inr m'" "TR_ok m'" "TR_epochID m' = ?k"
    using TR.report [OF b(1) e(1)] c by (auto simp: TR_counts_def)
  have "TR_UpdateMeasureRecord fo b m =
      rbind (upd_at ?e (note_start (BI_ProposeTime b)) (extend_epochs (TR_epochID m) ?e 0 (TR_startTime m))) (\<lambda>start.
      rbind (upd_at ?e (note_end (BI_CommitTime b)) (extend_epochs (TR_epochID m) ?e 0 (TR_endTime m))) (\<lambda>end'.
        Inr \<lparr>TR_epochID = ?k, TR_excutedTxNum = n2, TR_relayTx = ?r, TR_startTime = start, TR_endTime = end'\<rparr>))"
    by (simp only: TR_UpdateMeasureRecord_def Let_def d f n1(1) n2(1) rbind.simps b(1) if_False)
  with m'(1) have "TR_excutedTxNum m' = n2" "TR_relayTx m' = ?r" by (auto simp: rbind_eq_Inr)
  then show ?thesis
    using m' n2(2) c R' dom_mark_relayed [of "BI_Relay1Txs b" "TR_relayTx m"] by (auto simp: TR_counts_def relay_hashes_def)
qed

text \<open>The two counters of the rate module change independently of each other.\<close>

lemma half_both_split:
  assumes "rfold (\<lambda>_. upd_at e (\<lambda>x. F_add fo x (half fo))) zs t = Inr t'"
    and "rfold (\<lambda>_. upd_at e (\<lambda>x. F_add fo x (half fo))) zs c = Inr c'"
  shows "rfold (\<lambda>_. add_half_both fo e) zs (t, c) = Inr (t', c')"
  using assms
proof (induction zs arbitrary: t c)
  case (Cons z zs)
  then obtain t1 c1 where 1: "upd_at e (\<lambda>x. F_add fo x (half fo)) t = Inr t1"
    "upd_at e (\<lambda>x. F_add fo x (half fo)) c = Inr c1"
    "rfold (\<lambda>_. upd_at e (\<lambda>x. F_add fo x (half fo))) zs t1 = Inr t'"
    "rfold (\<lambda>_. upd_at e (\<lambda>x. F_add fo x (half fo))) zs c1 = Inr c'" by (auto simp: rbind_eq_Inr)
  then show ?case using Cons.IH [OF 1(3,4)] by (simp add: add_half_both_def)
qed simp

lemma rate_executed_split:
  assumes "rfold (\<lambda>z. upd_at e (\<lambda>x. F_add fo x (if r (Tx_TxHash z) = None then F_of_int fo 1 else half fo))) zs t = Inr t'"
    and "rfold (\<lambda>_. upd_at e (\<lambda>x. F_add fo x (half fo))) (filter (\<lambda>z. r (Tx_TxHash z) \<noteq> None) zs) c = Inr c'"
  shows "rfold (rate_executed fo e r) zs (t, c) = Inr (t', c')"
  using assms
proof (induction zs arbitrary: t c)
  case (Cons z zs)
  obtain t1 where t1: "upd_at e (\<lambda>x. F_add fo x (if r (Tx_TxHash z) = None then F_of_int fo 1 else half fo)) t = Inr t1"
    "rfold (\<lambda>z. upd_at e (\<lambda>x. F_add fo x (if r (Tx_TxHash z) = None then F_of_int fo 1 else half fo))) zs t1 = Inr t'"
    using Cons.prems(1) by (auto simp: rbind_eq_Inr)
  show ?case
  proof (cases "r (Tx_TxHash z) = None")
    case True
    then have "rate_executed fo e r z (t, c) = Inr (t1, c)" using t1(1) by (simp add: rate_executed_def)
    then show ?thesis using Cons.IH [OF t1(2), of c] Cons.prems(2) True by simp
  next
    case False
    then obtain c1 where c1: "upd_at e (\<lambda>x. F_add fo x (half fo)) c = Inr c1"
      "rfold (\<lambda>_. upd_at e (\<lambda>x. F_add fo x (half fo))) (filter (\<lambda>z. r (Tx_TxHash z) \<noteq> None) zs) c1 = Inr c'"
      using Cons.prems(2) by (auto simp: rbind_eq_Inr)
    then have "rate_executed fo e r z (t, c) = Inr (t1, c1)" using t1(1) False by (auto simp: rate_executed_def add_half_both_def)
    then show ?thesis using Cons.IH [OF t1(2) c1(2)] by simp
  qed
qed simp

definition XR_counts :: "(int \<Rightarrow> 'f) \<Rightarrow> string set \<Rightarrow> int \<Rightarrow> int \<Rightarrow> 'f TestCrossTxRate_Relay \<Rightarrow> bool" where
  "XR_counts emb R T C m \<longleftrightarrow> dom (XR_relayTxRecord m) = R \<and>
     counts emb (XR_epochID m) (XR_totTxNum m) T \<and> counts emb (XR_epochID m) (XR_totCrossTxNum m) C"

lemma XR_counts_step:
  assumes h: "half_exact fo emb" and b: "BI_BlockBodyLength b \<noteq> 0" "fair_report b" and c: "XR_counts emb R T C m"
    and B: "T + (relayed R' b + (2 * executed R' b - arrived R' b)) \<le> 2 ^ 52" "C + (relayed R' b + arrived R' b) \<le> 2 ^ 52"
    and R': "R' = R \<union> relay_hashes b"
  shows "\<exists>m'. XR_UpdateMeasureRecord fo b m = Inr m' \<and>
           XR_counts emb R' (T + (relayed R' b + (2 * executed R' b - arrived R' b))) (C + (relayed R' b + arrived R' b)) m'"
proof -
  let ?e = "BI_Epoch b" and ?k = "max (XR_epochID m) (BI_Epoch b)" and ?r = "mark_relayed (BI_Relay1Txs b) (XR_relayTxRecord m)"
  let ?h = "\<lambda>_ :: Transaction. upd_at ?e (\<lambda>x. F_add fo x (half fo))"
  let ?x = "\<lambda>z. upd_at ?e (\<lambda>x. F_add fo x (if ?r (Tx_TxHash z) = None then F_of_int fo 1 else half fo))"
  let ?fs = "filter (\<lambda>z. ?r (Tx_TxHash z) \<noteq> None) (BI_ExcutedTxs b)"
  have e: "0 \<le> ?e" "?e \<le> ?k" using b(2) by (simp_all add: fair_report_def)
  have T: "0 \<le> T" "0 \<le> C" "counts emb (XR_epochID m) (XR_totTxNum m) T" "counts emb (XR_epochID m) (XR_totCrossTxNum m) C"
    using c counts_nonneg by (auto simp: XR_counts_def)
  note n = weights_nonneg [of R' b]
  have r: "?r (Tx_TxHash z) \<noteq> None \<longleftrightarrow> Tx_TxHash z \<in> R'" for z
    using relay_hash_iff [of b "XR_relayTxRecord m" "Tx_TxHash z"] c R' by (simp add: XR_counts_def)
  have hx: "?h = (\<lambda>_. upd_at ?e (\<lambda>x. F_add fo x (emb 1)))" by (simp add: half_exact_constants(3) [OF h])
  have "(if ?r (Tx_TxHash z) = None then F_of_int fo 1 else half fo) = emb (tx_halves R' z)" for z
    using r [of z] half_exact_constants [OF h] by (auto simp: tx_halves_def)
  then have xx: "?x = (\<lambda>z. upd_at ?e (\<lambda>x. F_add fo x (emb (tx_halves R' z))))" by presburger
  have s1: "sum_list (map (\<lambda>_. 1) zs) = int (length zs)" for zs :: "Transaction list" by (induction zs) simp_all
  have fs: "int (length ?fs) = arrived R' b" unfolding r arrived_def ..
  have "\<exists>t1. rfold ?h (BI_Relay1Txs b) (extend_epochs (XR_epochID m) ?e (F_of_int fo 0) (XR_totTxNum m)) = Inr t1 \<and>
      counts emb ?k t1 (T + relayed R' b)"
    using counts_upds [OF h e _ counts_extend [OF h T(3)], of "\<lambda>_. 1" "BI_Relay1Txs b"] B(1) n T(1)
    unfolding hx s1 by (simp add: relayed_def)
  then obtain t1 where t1: "rfold ?h (BI_Relay1Txs b) (extend_epochs (XR_epochID m) ?e (F_of_int fo 0) (XR_totTxNum m)) = Inr t1"
    "counts emb ?k t1 (T + relayed R' b)" by blast
  have "\<exists>c1. rfold ?h (BI_Relay1Txs b) (extend_epochs (XR_epochID m) ?e (F_of_int fo 0) (XR_totCrossTxNum m)) = Inr c1 \<and>
      counts emb ?k c1 (C + relayed R' b)"
    using counts_upds [OF h e _ counts_extend [OF h T(4)], of "\<lambda>_. 1" "BI_Relay1Txs b"] B(2) n T(2)
    unfolding hx s1 by (simp add: relayed_def)
  then obtain c1 where c1: "rfold ?h (BI_Relay1Txs b) (extend_epochs (XR_epochID m) ?e (F_of_int fo 0) (XR_totCrossTxNum m)) = Inr c1"
    "counts emb ?k c1 (C + relayed R' b)" by blast
  have "\<exists>t2. rfold ?x (BI_ExcutedTxs b) t1 = Inr t2 \<and> counts emb ?k t2 (T + (relayed R' b + (2 * executed R' b - arrived R' b)))"
    using counts_upds [OF h e _ t1(2), of "tx_halves R'" "BI_ExcutedTxs b"] tx_halves_nonneg B(1)
    unfolding xx sum_tx_halves by (simp add: add.assoc)
  then obtain t2 where t2: "rfold ?x (BI_ExcutedTxs b) t1 = Inr t2"
    "counts emb ?k t2 (T + (relayed R' b + (2 * executed R' b - arrived R' b)))" by blast
  have "\<exists>c2. rfold ?h ?fs c1 = Inr c2 \<and> counts emb ?k c2 (C + (relayed R' b + arrived R' b))"
    using counts_upds [OF h e _ c1(2), of "\<lambda>_. 1" ?fs] B(2) unfolding hx s1 fs by (simp add: add.assoc)
  then obtain c2 where c2: "rfold ?h ?fs c1 = Inr c2" "counts emb ?k c2 (C + (relayed R' b + arrived R' b))" by blast
  have "XR_UpdateMeasureRecord fo b m =
      Inr \<lparr>XR_epochID = ?k, XR_totTxNum = t2, XR_totCrossTxNum = c2, XR_relayTxRecord = ?r\<rparr>"
    by (simp only: XR_UpdateMeasureRecord_def Let_def half_both_split [OF t1(1) c1(1)]
        rate_executed_split [OF t2(1) c2(1)] rbind.simps b(1) if_False prod.case)
  then show ?thesis
    using t2(2) c2(2) c R' dom_mark_relayed [of "BI_Relay1Txs b" "XR_relayTxRecord m"]
    by (simp add: XR_counts_def relay_hashes_def)
qed

definition NR_counts :: "(int \<Rightarrow> 'f) \<Rightarrow> int \<Rightarrow> 'f TestTxNumCount_Relay \<Rightarrow> bool" where
  "NR_counts emb T m \<longleftrightarrow> counts emb (NR_epochID m) (NR_txNum m) T"

lemma NR_counts_step:
  assumes h: "half_exact fo emb" and b: "BI_BlockBodyLength b \<noteq> 0" "fair_report b" and c: "NR_counts emb T m"
    and B: "T + 2 * executed R b \<le> 2 ^ 52"
  shows "\<exists>m'. NR_UpdateMeasureRecord fo b m = Inr m' \<and> NR_counts emb (T + 2 * executed R b) m'"
proof -
  have e: "0 \<le> BI_Epoch b" "BI_Epoch b \<le> max (NR_epochID m) (BI_Epoch b)" using b(2) by (simp_all add: fair_report_def)
  have T: "counts emb (NR_epochID m) (NR_txNum m) T" "0 \<le> T" using c counts_nonneg by (auto simp: NR_counts_def)
  have "F_of_int fo (int (length (BI_ExcutedTxs b))) = emb (2 * executed R b)"
    unfolding executed_def by (rule half_exact_intros(1) [OF h]) (use B T(2) in \<open>simp_all add: executed_def\<close>)
  then show ?thesis
    using counts_upd [OF h counts_extend [OF h T(1)] e, of "2 * executed R b"] B weights_nonneg(1) [of R b] b(1)
    by (auto simp: NR_UpdateMeasureRecord_def NR_counts_def)
qed

section \<open>What the relay modules report\<close>

lemma rate_loop:
  assumes "drop k cross = cs" and "length cs = length ts"
  shows "rfold (rate_epoch fo cross) (enumerate k ts) (per, a, c) =
    Inr (per @ map2 (\<lambda>t x. F_div fo x t) ts cs, fold (\<lambda>x t. F_add fo t x) ts a, fold (\<lambda>x t. F_add fo t x) cs c)"
  using assms
proof (induction ts arbitrary: k cs per a c)
  case (Cons t ts)
  then obtain x cs' where cs: "cs = x # cs'" by (cases cs) auto
  then have k: "k < length cross" using Cons.prems(1) by (metis drop_eq_Nil2 list.distinct(1) not_less)
  then have x: "cross ! k = x" "drop (Suc k) cross = cs'" using Cons.prems(1) cs
    by (metis Cons_nth_drop_Suc list.inject)+
  show ?case using Cons.IH [OF x(2)] Cons.prems(2) cs k x(1) by (simp add: rate_epoch_def index_at_def)
qed simp

lemma rate_output_eq:
  assumes "length cross = length ts"
  shows "\<exists>per. rate_output fo ts cross =
    Inr (per @ [fold (\<lambda>x t. F_add fo t x) ts (F_of_int fo 0), fold (\<lambda>x t. F_add fo t x) cross (F_of_int fo 0)],
         F_div fo (fold (\<lambda>x t. F_add fo t x) cross (F_of_int fo 0)) (fold (\<lambda>x t. F_add fo t x) ts (F_of_int fo 0)))"
  using rate_loop [of 0 cross cross ts fo "[]"] assms by (simp add: rate_output_def)

abbreviation all_halves :: "string set \<Rightarrow> BlockInfoMsg \<Rightarrow> int" where
  "all_halves R b \<equiv> relayed R b + (2 * executed R b - arrived R b)"

abbreviation cross_halves :: "string set \<Rightarrow> BlockInfoMsg \<Rightarrow> int" where
  "cross_halves R b \<equiv> relayed R b + arrived R b"

lemma halves_nonneg: "0 \<le> all_halves R b" "0 \<le> cross_halves R b"
  using weights_nonneg [of R b] by simp_all

lemma tally_halves:
  "tally all_halves R bs = 2 * tally executed R bs + tally relayed R bs - tally arrived R bs"
  "tally cross_halves R bs = tally relayed R bs + tally arrived R bs"
  by (simp_all add: tally_add tally_diff tally_scale)

lemma tally_bounds:
  "0 \<le> tally executed R bs" "0 \<le> tally relayed R bs" "0 \<le> tally arrived R bs" "tally arrived R bs \<le> tally executed R bs"
  by (simp_all add: tally_nonneg tally_mono weights_nonneg)

lemma relay_runs:
  assumes h: "half_exact fo emb" and fair: "\<forall>b \<in> set bs. fair_report b"
    and B: "2 * tally executed {} bs + tally relayed {} bs \<le> 2 ^ 52"
  shows "\<exists>m R. rfold (TR_UpdateMeasureRecord fo) bs NewTestModule_avgTPS_Relay = Inr m \<and>
           TR_counts emb R (tally all_halves {} bs) m"
    and "\<exists>m R. rfold (XR_UpdateMeasureRecord fo) bs NewTestCrossTxRate_Relay = Inr m \<and>
           XR_counts emb R (tally all_halves {} bs) (tally cross_halves {} bs) m"
    and "\<exists>m. rfold (NR_UpdateMeasureRecord fo) bs NewTestTxNumCount_Relay = Inr m \<and>
           NR_counts emb (2 * tally executed {} bs) m"
proof -
  note bd = tally_bounds [of "{}" bs]
  have fairD: "b \<in> set bs \<Longrightarrow> fair_report b" for b using fair by blast
  have le: "0 + tally all_halves {} bs \<le> 2 ^ 52" "0 + tally cross_halves {} bs \<le> 2 ^ 52"
    using B bd by (simp_all add: tally_halves)
  have i: "TR_counts emb {} 0 (NewTestModule_avgTPS_Relay :: 'a TestModule_avgTPS_Relay)"
    by (simp add: TR_counts_def NewTestModule_avgTPS_Relay_def TR_ok_def counts_Nil)
  have st: "\<exists>s'. TR_UpdateMeasureRecord fo b s = Inr s' \<and>
      TR_counts emb (R \<union> relay_hashes b) (T + all_halves (R \<union> relay_hashes b) b) s'"
    if "b \<in> set bs" "BI_BlockBodyLength b \<noteq> 0" "TR_counts emb R T s" "T + all_halves (R \<union> relay_hashes b) b \<le> 2 ^ 52"
    for b s R T using TR_counts_step [OF h that(2) fairD [OF that(1)] that(3) that(4) refl] .
  have "\<exists>m R. rfold (TR_UpdateMeasureRecord fo) bs NewTestModule_avgTPS_Relay = Inr m \<and>
      TR_counts emb R (0 + tally all_halves {} bs) m"
    by (rule tally_run [where upd = "TR_UpdateMeasureRecord fo" and I = "\<lambda>R T C. TR_counts emb R T" and v = all_halves
        and w = "\<lambda>_ _. 0" and C = 0 and B = "2 ^ 52"])
      (fact TR.empty_report halves_nonneg(1) order_refl i le(1) | rule st; assumption | simp add: tally_zero)+
  then show "\<exists>m R. rfold (TR_UpdateMeasureRecord fo) bs NewTestModule_avgTPS_Relay = Inr m \<and>
      TR_counts emb R (tally all_halves {} bs) m" by simp
next
  note bd = tally_bounds [of "{}" bs]
  have le: "0 + tally all_halves {} bs \<le> 2 ^ 52" "0 + tally cross_halves {} bs \<le> 2 ^ 52"
    using B bd by (simp_all add: tally_halves)
  have i: "XR_counts emb {} 0 0 (NewTestCrossTxRate_Relay :: 'a TestCrossTxRate_Relay)"
    by (simp add: XR_counts_def NewTestCrossTxRate_Relay_def counts_Nil)
  have st: "\<exists>s'. XR_UpdateMeasureRecord fo b s = Inr s' \<and> XR_counts emb (R \<union> relay_hashes b)
      (T + all_halves (R \<union> relay_hashes b) b) (C + cross_halves (R \<union> relay_hashes b) b) s'"
    if "b \<in> set bs" "BI_BlockBodyLength b \<noteq> 0" "XR_counts emb R T C s" "T + all_halves (R \<union> relay_hashes b) b \<le> 2 ^ 52"
      "C + cross_halves (R \<union> relay_hashes b) b \<le> 2 ^ 52"
    for b s R T C using XR_counts_step [OF h that(2) _ that(3-5) refl] fair that(1) by blast
  have "\<exists>m R. rfold (XR_UpdateMeasureRecord fo) bs NewTestCrossTxRate_Relay = Inr m \<and>
      XR_counts emb R (0 + tally all_halves {} bs) (0 + tally cross_halves {} bs) m"
    by (rule tally_run [where upd = "XR_UpdateMeasureRecord fo" and I = "XR_counts emb" and v = all_halves
        and w = cross_halves and B = "2 ^ 52"])
      (fact XR.empty_report halves_nonneg i le | rule st; assumption)+
  then show "\<exists>m R. rfold (XR_UpdateMeasureRecord fo) bs NewTestCrossTxRate_Relay = Inr m \<and>
      XR_counts emb R (tally all_halves {} bs) (tally cross_halves {} bs) m" by simp
next
  have i: "NR_counts emb 0 (NewTestTxNumCount_Relay :: 'a TestTxNumCount_Relay)"
    by (simp add: NR_counts_def NewTestTxNumCount_Relay_def counts_Nil)
  have le: "0 + tally (\<lambda>R b. 2 * executed R b) {} bs \<le> 2 ^ 52"
    using B tally_bounds [of "{}" bs] by (simp add: tally_scale)
  have n: "0 \<le> 2 * executed R b" for R b using weights_nonneg(1) [of R b] by simp
  have st: "\<exists>s'. NR_UpdateMeasureRecord fo b s = Inr s' \<and> NR_counts emb (T + 2 * executed (R \<union> relay_hashes b) b) s'"
    if "b \<in> set bs" "BI_BlockBodyLength b \<noteq> 0" "NR_counts emb T s" "T + 2 * executed (R \<union> relay_hashes b) b \<le> 2 ^ 52"
    for b s R T using NR_counts_step [OF h that(2) _ that(3,4)] fair that(1) by blast
  have "\<exists>m (R :: string set). rfold (NR_UpdateMeasureRecord fo) bs NewTestTxNumCount_Relay = Inr m \<and>
      NR_counts emb (0 + tally (\<lambda>R b. 2 * executed R b) {} bs) m"
    by (rule tally_run [where upd = "NR_UpdateMeasureRecord fo" and I = "\<lambda>R T C. NR_counts emb T"
        and v = "\<lambda>R b. 2 * executed R b" and w = "\<lambda>_ _. 0" and C = 0 and B = "2 ^ 52"])
      (fact NR.empty_report n order_refl i le | rule st; assumption | simp add: tally_zero)+
  then show "\<exists>m. rfold (NR_UpdateMeasureRecord fo) bs NewTestTxNumCount_Relay = Inr m \<and>
      NR_counts emb (2 * tally executed {} bs) m" by (simp add: tally_scale)
qed

subsection \<open>The output of the throughput modules\<close>

definition earliest :: "go_time list \<Rightarrow> go_time \<Rightarrow> go_time" where
  "earliest ss t = fold (\<lambda>s t. if t > s then s else t) ss t"

definition latest :: "go_time list \<Rightarrow> go_time \<Rightarrow> go_time" where
  "latest es t = fold (\<lambda>e t. if e > t then e else t) es t"

lemma tps_loop_suffix:
  assumes "drop k start = ss" "drop k en = es" "length ss = length ns" "length es = length ns" "length per = k + length ns"
  shows "\<exists>per'. rfold (tps_epoch fo start en) (enumerate k ns) (per, a, eT, lT) =
    Inr (per', fold (\<lambda>x t. F_add fo t x) ns a, earliest ss eT, latest es lT)"
  using assms
proof (induction ns arbitrary: k ss es per a eT lT)
  case Nil
  then show ?case by (simp add: earliest_def latest_def)
next
  case (Cons n ns)
  obtain x ss' y es' where c: "ss = x # ss'" "es = y # es'" using Cons.prems(3,4) by (cases ss; cases es) auto
  then have k: "k < length start" "k < length en"
    using Cons.prems(1,2) by (metis drop_eq_Nil2 list.distinct(1) not_less)+
  have x: "start ! k = x" "drop (Suc k) start = ss'" and y: "en ! k = y" "drop (Suc k) en = es'"
    using Cons.prems(1,2) c k by (metis Cons_nth_drop_Suc list.inject)+
  let ?per = "per[k := F_div fo n (Seconds fo (time_Sub y x))]"
  have "tps_epoch fo start en (k, n) (per, a, eT, lT) =
      Inr (?per, F_add fo a n, if eT > x then x else eT, if y > lT then y else lT)"
    using Cons.prems(5) k x(1) y(1) by (simp add: tps_epoch_def index_at_def upd_at_def)
  then show ?case
    using Cons.IH [OF x(2) y(2), of ?per] Cons.prems(3-5) c by (simp add: earliest_def latest_def)
qed

lemma tps_loop_eq:
  assumes "per_epoch k ns" "per_epoch k start" "per_epoch k en"
  shows "\<exists>per. tps_loop fo now k ns start en =
    Inr (per, fold (\<lambda>x t. F_add fo t x) ns (F_of_int fo 0), earliest start now, latest en 0)"
  unfolding tps_loop_def
  by (rule tps_loop_suffix) (use assms in \<open>auto simp: per_epoch_def\<close>)

text \<open>C25: the three counting modules of the relay scheme agree. For reports in which the number of relayed
  transactions is the length of their list, and counts within the exact range of \<^verbatim>\<open>float64\<close>, no module
  panics; with \<open>N\<close> executed and \<open>C\<close> relayed transactions and \<open>K\<close> relayed ones that were executed after
  the report of their relay, throughput and rate module both count \<open>2 * N + C - K\<close> halves, the rate
  module counts \<open>C + K\<close> halves as cross-shard, the number module counts \<open>N\<close>. When every relayed
  transaction has arrived, all count \<open>N\<close> transactions and the reported ratio is \<open>C / N\<close>.\<close>

theorem relay_measures_agree:
  assumes "half_exact fo emb" and "\<forall>b \<in> set bs. fair_report b"
    and "N = tally executed {} bs" and "C = tally relayed {} bs" and "K = tally arrived {} bs" and "2 * N + C \<le> 2 ^ 52"
  shows "\<exists>t x n per per' d.
    rfold (TR_UpdateMeasureRecord fo) bs NewTestModule_avgTPS_Relay = Inr t \<and>
    rfold (XR_UpdateMeasureRecord fo) bs NewTestCrossTxRate_Relay = Inr x \<and>
    rfold (NR_UpdateMeasureRecord fo) bs NewTestTxNumCount_Relay = Inr n \<and>
    TR_OutputRecord fo now t = Inr (per, F_div fo (emb (2 * N + C - K)) (Seconds fo d)) \<and>
    XR_OutputRecord fo x =
      Inr (per' @ [emb (2 * N + C - K), emb (C + K)], F_div fo (emb (C + K)) (emb (2 * N + C - K))) \<and>
    snd (NR_OutputRecord fo n) = F_of_int fo N \<and>
    (K = C \<longrightarrow> emb (2 * N + C - K) = F_of_int fo N \<and> emb (C + K) = F_of_int fo C)"
proof -
  note h = assms(1)
  note bd = tally_bounds [of "{}" bs, folded assms(3-5)]
  have B: "2 * tally executed {} bs + tally relayed {} bs \<le> 2 ^ 52" using assms(3,4,6) by simp
  have A: "tally all_halves {} bs = 2 * N + C - K" "tally cross_halves {} bs = C + K"
    using assms(3-5) by (simp_all add: tally_halves)
  obtain t R where t: "rfold (TR_UpdateMeasureRecord fo) bs NewTestModule_avgTPS_Relay = Inr t"
    "TR_counts emb R (2 * N + C - K) t" using relay_runs(1) [OF h assms(2) B] A by auto
  obtain x R' where x: "rfold (XR_UpdateMeasureRecord fo) bs NewTestCrossTxRate_Relay = Inr x"
    "XR_counts emb R' (2 * N + C - K) (C + K) x" using relay_runs(2) [OF h assms(2) B] A by auto
  obtain n where n: "rfold (NR_UpdateMeasureRecord fo) bs NewTestTxNumCount_Relay = Inr n" "NR_counts emb (2 * N) n"
    using relay_runs(3) [OF h assms(2) B] assms(3) by auto
  have b53: "2 * N + C - K \<le> 2 ^ 53" "C + K \<le> 2 ^ 53" "2 * N \<le> 2 ^ 53" using bd assms(6) by simp_all
  have to: "TR_ok t" "fold (\<lambda>x t. F_add fo t x) (TR_excutedTxNum t) (F_of_int fo 0) = emb (2 * N + C - K)"
    using t(2) counts_total [OF h _ b53(1)] by (auto simp: TR_counts_def)
  obtain per where "tps_loop fo now (TR_epochID t) (TR_excutedTxNum t) (TR_startTime t) (TR_endTime t) =
      Inr (per, emb (2 * N + C - K), earliest (TR_startTime t) now, latest (TR_endTime t) 0)"
    using tps_loop_eq to by (metis TR_ok_def)
  then have to': "TR_OutputRecord fo now t = Inr (per, F_div fo (emb (2 * N + C - K))
      (Seconds fo (time_Sub (latest (TR_endTime t) 0) (earliest (TR_startTime t) now))))" by (simp add: TR_OutputRecord_def)
  have xs: "fold (\<lambda>x t. F_add fo t x) (XR_totTxNum x) (F_of_int fo 0) = emb (2 * N + C - K)"
    "fold (\<lambda>x t. F_add fo t x) (XR_totCrossTxNum x) (F_of_int fo 0) = emb (C + K)"
    "length (XR_totCrossTxNum x) = length (XR_totTxNum x)"
    using x(2) counts_total [OF h _ b53(1)] counts_total [OF h _ b53(2)] by (auto simp: XR_counts_def counts_def per_epoch_def)
  obtain per' where xo: "XR_OutputRecord fo x =
      Inr (per' @ [emb (2 * N + C - K), emb (C + K)], F_div fo (emb (C + K)) (emb (2 * N + C - K)))"
    using rate_output_eq [OF xs(3), of fo] xs(1,2) by (auto simp: XR_OutputRecord_def)
  have i: "F_of_int fo N = emb (2 * N)" "F_of_int fo C = emb (2 * C)"
    using half_exact_intros(1) [OF h] bd assms(6) by auto
  have no: "snd (NR_OutputRecord fo n) = F_of_int fo N"
    using counts_total [OF h n(2) [unfolded NR_counts_def] b53(3)] i(1) by (simp only: NR_OutputRecord_def count_output_def snd_conv)
  have last: "K = C \<longrightarrow> emb (2 * N + C - K) = F_of_int fo N \<and> emb (C + K) = F_of_int fo C"
  proof
    assume "K = C"
    then have e: "2 * N + C - K = 2 * N" "C + K = 2 * C" by simp_all
    show "emb (2 * N + C - K) = F_of_int fo N \<and> emb (C + K) = F_of_int fo C" unfolding e i by (rule conjI refl)+
  qed
  show ?thesis by (intro exI conjI) (rule t(1) x(1) n(1) to' xo no last)+
qed

subsection \<open>An epoch without transactions\<close>

lemma earliest_bounds:
  "(\<forall>s \<in> set ss. 0 \<le> s) \<Longrightarrow> 0 \<le> t \<Longrightarrow> 0 \<le> earliest ss t" "earliest ss t \<le> t" "s \<in> set ss \<Longrightarrow> earliest ss t \<le> s"
proof -
  show mono: "earliest ss t \<le> t" for ss t
    by (induction ss arbitrary: t) (auto simp: earliest_def intro: order_trans less_imp_le)
  show "(\<forall>s \<in> set ss. 0 \<le> s) \<Longrightarrow> 0 \<le> t \<Longrightarrow> 0 \<le> earliest ss t"
    by (induction ss arbitrary: t) (auto simp: earliest_def)
  show "s \<in> set ss \<Longrightarrow> earliest ss t \<le> s"
  proof (induction ss arbitrary: t)
    case (Cons a ss)
    then show ?case using mono [of ss "if t > a then a else t"] by (auto simp: earliest_def intro: order_trans split: if_splits)
  qed simp
qed

lemma latest_bounds: "t \<le> latest es t" "e \<in> set es \<Longrightarrow> e \<le> latest es t"
proof -
  show mono: "t \<le> latest es t" for es t
    by (induction es arbitrary: t) (auto simp: latest_def intro: order_trans less_imp_le)
  show "e \<in> set es \<Longrightarrow> e \<le> latest es t"
  proof (induction es arbitrary: t)
    case (Cons a es)
    then show ?case using mono [of "if a > t then a else t" es] by (auto simp: latest_def intro: order_trans split: if_splits)
  qed simp
qed

lemma skipped_epoch_total:
  assumes "TR_ok m" and "0 \<in> set (TR_startTime m)" and "\<forall>s \<in> set (TR_startTime m). 0 \<le> s" and "0 \<le> now"
    and "e \<in> set (TR_endTime m)" and "2 ^ 63 \<le> e"
  shows "\<exists>per. TR_OutputRecord fo now m =
    Inr (per, F_div fo (fold (\<lambda>x t. F_add fo t x) (TR_excutedTxNum m) (F_of_int fo 0)) (Seconds fo (2 ^ 63 - 1)))"
proof -
  have "earliest (TR_startTime m) now = 0"
    using earliest_bounds(1) [OF assms(3,4)] earliest_bounds(3) [OF assms(2), of now] by simp
  moreover have "2 ^ 63 \<le> latest (TR_endTime m) 0" using latest_bounds(2) [OF assms(5), of 0] assms(6) by simp
  ultimately have "time_Sub (latest (TR_endTime m) 0) (earliest (TR_startTime m) now) = 2 ^ 63 - 1"
    by (simp add: time_Sub_def)
  moreover obtain per where "tps_loop fo now (TR_epochID m) (TR_excutedTxNum m) (TR_startTime m) (TR_endTime m) =
      Inr (per, fold (\<lambda>x t. F_add fo t x) (TR_excutedTxNum m) (F_of_int fo 0), earliest (TR_startTime m) now, latest (TR_endTime m) 0)"
    using tps_loop_eq assms(1) by (metis TR_ok_def)
  ultimately show ?thesis by (auto simp: TR_OutputRecord_def)
qed

text \<open>An epoch without transactions spoils the total throughput. When the first report with
  transactions is of epoch 0 and the second of epoch 2 or later, the times of the epochs between
  stay zero; the zero time is then taken for the start of the measurement, and the time span, which
  saturates, is the largest \<^verbatim>\<open>time.Duration\<close>, 292 years, whatever the reports say.\<close>

theorem tps_skipped_epoch:
  assumes "BI_BlockBodyLength b1 \<noteq> 0" "BI_BlockBodyLength b2 \<noteq> 0" "BI_Epoch b1 = 0" "2 \<le> BI_Epoch b2"
    and "0 \<le> BI_ProposeTime b1" "0 \<le> BI_ProposeTime b2" "2 ^ 63 \<le> BI_CommitTime b2" "0 \<le> now"
  shows "\<exists>m per. rfold (TR_UpdateMeasureRecord fo) [b1, b2] NewTestModule_avgTPS_Relay = Inr m \<and>
    TR_OutputRecord fo now m =
      Inr (per, F_div fo (fold (\<lambda>x t. F_add fo t x) (TR_excutedTxNum m) (F_of_int fo 0)) (Seconds fo (2 ^ 63 - 1)))"
proof -
  have ok0: "TR_ok (NewTestModule_avgTPS_Relay :: 'a TestModule_avgTPS_Relay)"
    by (simp add: TR_ok_def NewTestModule_avgTPS_Relay_def)
  obtain m1 where m1: "TR_UpdateMeasureRecord fo b1 NewTestModule_avgTPS_Relay = Inr m1" "TR_ok m1" "TR_epochID m1 = 0"
    using TR.report [OF assms(1) _ ok0, of fo] assms(3) by (auto simp: NewTestModule_avgTPS_Relay_def)
  obtain m where m: "TR_UpdateMeasureRecord fo b2 m1 = Inr m" "TR_ok m" using TR.report [OF assms(2) _ m1(2), of fo] assms(4) by auto
  have s1: "TR_startTime m1 = [BI_ProposeTime b1]" "TR_endTime m1 = [BI_CommitTime b1]"
    using m1(1) assms(1,3) by (auto simp: TR_UpdateMeasureRecord_def Let_def rbind_eq_Inr NewTestModule_avgTPS_Relay_def
        upd_at_def extend_epochs_def note_start_def note_end_def)
  have "nat (BI_Epoch b2) = Suc (Suc (nat (BI_Epoch b2) - 2))" using assms(4) by simp
  then obtain k where k: "nat (BI_Epoch b2) = Suc (Suc k)" by blast
  have s: "TR_startTime m = (BI_ProposeTime b1 # replicate (Suc (Suc k)) 0)[Suc (Suc k) := BI_ProposeTime b2]"
    "TR_endTime m = (BI_CommitTime b1 # replicate (Suc (Suc k)) 0)[Suc (Suc k) := BI_CommitTime b2]"
    using m(1) assms(2,4) m1(3) s1 k
    by (auto simp: TR_UpdateMeasureRecord_def Let_def rbind_eq_Inr upd_at_def extend_epochs_def note_start_def note_end_def
        simp del: replicate.simps split: if_splits)
  have "0 \<in> set (TR_startTime m)" unfolding s by simp
  moreover have "set (TR_startTime m) \<subseteq> insert (BI_ProposeTime b2) (set (BI_ProposeTime b1 # replicate (Suc (Suc k)) 0))"
    unfolding s by (rule set_update_subset_insert)
  then have "\<forall>t \<in> set (TR_startTime m). 0 \<le> t" using assms(5,6) by auto
  moreover have "BI_CommitTime b2 \<in> set (TR_endTime m)" unfolding s by (rule set_update_memI) simp
  ultimately obtain per where "TR_OutputRecord fo now m =
      Inr (per, F_div fo (fold (\<lambda>x t. F_add fo t x) (TR_excutedTxNum m) (F_of_int fo 0)) (Seconds fo (2 ^ 63 - 1)))"
    using skipped_epoch_total [OF m(2) _ _ assms(8) _ assms(7)] by blast
  then show ?thesis using m1(1) m(1) by (intro exI conjI) simp_all
qed

section \<open>All modules together\<close>

fun measure_ok :: "'f measure_mod \<Rightarrow> bool" where
  "measure_ok (MM_TPS_Relay m) = TR_ok m"
| "measure_ok (MM_TPS_Broker m) = TB_ok m"
| "measure_ok (MM_TCL_Relay m) = LR_ok m"
| "measure_ok (MM_TCL_Broker m) = LB_ok m"
| "measure_ok (MM_CrossTxRate_Relay m) = XR_ok m"
| "measure_ok (MM_CrossTxRate_Broker m) = XB_ok m"
| "measure_ok (MM_TxNumCount_Relay m) = NR_ok m"
| "measure_ok (MM_TxNumCount_Broker m) = NB_ok m"

lemma new_measure_ok: "m \<in> set (new_measure k name) \<Longrightarrow> measure_ok m"
  by (auto simp: new_measure_def TR_ok_def TB_ok_def LR_ok_def LB_ok_def XR_ok_def XB_ok_def NR_ok_def NB_ok_def
      NewTestModule_avgTPS_Relay_def NewTestModule_avgTPS_Broker_def NewTestModule_TCL_Relay_def
      NewTestModule_TCL_Broker_def NewTestCrossTxRate_Relay_def NewTestCrossTxRate_Broker_def
      NewTestTxNumCount_Relay_def NewTestTxNumCount_Broker_def split: if_splits)

lemma UpdateMeasureRecord_ok:
  assumes "0 \<le> BI_Epoch b" and "measure_ok m"
  shows "\<exists>m'. UpdateMeasureRecord fo b m = Inr m' \<and> measure_ok m' \<and> OutputMetricName m' = OutputMetricName m"
  using assms TR.step_ok [OF assms(1), of _ fo] TB.step_ok [OF assms(1), of _ fo] LR.step_ok [OF assms(1), of _ fo]
    LB.step_ok [OF assms(1), of _ fo] XR.step_ok [OF assms(1), of _ fo] XB.step_ok [OF assms(1), of _ fo]
    NR.step_ok [OF assms(1), of _ fo] NB.step_ok [OF assms(1), of _ fo]
  by (cases m) fastforce+

lemma tcl_loop_total:
  assumes "length tot + k \<le> length txNum"
  shows "\<exists>st'. rfold (tcl_epoch fo txNum) (enumerate k tot) st = Inr st'"
  using assms
proof (induction tot arbitrary: k st)
  case Nil
  then show ?case by (cases st) simp
next
  case (Cons x tot)
  have "tcl_epoch fo txNum (k, x) st \<noteq> Inl e" for e using Cons.prems by (simp add: tcl_epoch_def index_at_def split_beta)
  then obtain st1 where "tcl_epoch fo txNum (k, x) st = Inr st1" by (cases "tcl_epoch fo txNum (k, x) st") auto
  then show ?case using Cons.IH [of "Suc k" st1] Cons.prems by simp
qed

lemma tcl_output_total: "length tot = length txNum \<Longrightarrow> \<exists>r. tcl_output fo tot txNum = Inr r"
  using tcl_loop_total [of tot 0 txNum fo "([], F_of_int fo 0, F_of_int fo 0)"]
  by (auto simp: tcl_output_def split_beta rbind_eq_Inr)

lemma OutputRecord_total:
  assumes "measure_ok m"
  shows "\<exists>r. OutputRecord fo now m = Inr r"
proof (cases m)
  case (MM_TPS_Relay t)
  then show ?thesis using assms tps_loop_eq [of "TR_epochID t" "TR_excutedTxNum t" "TR_startTime t" "TR_endTime t" fo now]
    by (auto simp: TR_OutputRecord_def TR_ok_def)
next
  case (MM_TPS_Broker t)
  then show ?thesis using assms tps_loop_eq [of "TB_epochID t" "TB_excutedTxNum t" "TB_startTime t" "TB_endTime t" fo now]
    by (auto simp: TB_OutputRecord_def TB_ok_def)
next
  case (MM_TCL_Relay t)
  then show ?thesis using assms tcl_output_total [of "LR_totTxLatencyEpoch t" "LR_txNum t" fo]
    by (auto simp: LR_OutputRecord_def LR_ok_def per_epoch_def)
next
  case (MM_TCL_Broker t)
  then show ?thesis using assms tcl_output_total [of "LB_totTxLatencyEpoch t" "LB_txNum t" fo]
    by (auto simp: LB_OutputRecord_def LB_ok_def per_epoch_def)
next
  case (MM_CrossTxRate_Relay t)
  then show ?thesis using assms rate_output_eq [of "XR_totCrossTxNum t" "XR_totTxNum t" fo]
    by (auto simp: XR_OutputRecord_def XR_ok_def per_epoch_def)
next
  case (MM_CrossTxRate_Broker t)
  then show ?thesis using assms rate_output_eq [of "XB_totCrossTxNum t" "XB_totTxNum t" fo]
    by (auto simp: XB_OutputRecord_def XB_ok_def per_epoch_def)
qed simp_all

text \<open>The latency module of the broker scheme adds the latency of a second half-transfer without
  counting a transaction, and measures it to the time of the proposal.\<close>

lemma tcl_broker_uncounted:
  assumes "BI_BlockBodyLength b \<noteq> 0" and "0 \<le> BI_Epoch b" and "LB_ok m" and "BI_ExcutedTxs b = []"
  shows "\<exists>m'. LB_UpdateMeasureRecord fo b m = Inr m' \<and>
    LB_txNum m' = extend_epochs (LB_epochID m) (BI_Epoch b) (F_of_int fo 0) (LB_txNum m)"
proof -
  obtain m' where "LB_UpdateMeasureRecord fo b m = Inr m'" using LB.report [OF assms(1-3)] by blast
  then show ?thesis using assms(1,4) by (auto simp: LB_UpdateMeasureRecord_def Let_def rbind_eq_Inr)
qed

section \<open>Examples\<close>

lemma demo_half_exact: "half_exact demo_fo (\<lambda>h. 500 * h)"
proof -
  have "(1000 * (1000 * i)) sdiv 2000 = 500 * i" if "0 \<le> i" for i :: int
    using that by (simp add: signed_divide_int_def sgn_if)
  then show ?thesis by (simp add: half_exact_def demo_fo_def distrib_left)
qed

definition hashed :: "string \<Rightarrow> Transaction" where
  "hashed h = (NewTransaction (\<lambda>_. h) ''a'' ''b'' 1 0)"

definition demo_info :: "int \<Rightarrow> go_time \<Rightarrow> Transaction list \<Rightarrow> Transaction list \<Rightarrow> BlockInfoMsg" where
  "demo_info epoch t excuted relay1 =
     \<lparr>BI_BlockBodyLength = 1, BI_ExcutedTxs = excuted, BI_Epoch = epoch, BI_ProposeTime = t, BI_CommitTime = t + 1,
      BI_SenderShardID = 0, BI_Relay1TxNum = of_nat (length relay1), BI_Relay1Txs = relay1,
      BI_Broker1TxNum = 0, BI_Broker1Txs = [], BI_Broker2TxNum = 0, BI_Broker2Txs = []\<rparr>"

theorem tps_skipped_epoch_witness:
  "\<exists>m per. rfold (TR_UpdateMeasureRecord demo_fo) [demo_info 0 (2 ^ 65) [hashed ''x''] [], demo_info 2 (2 ^ 65) [hashed ''y''] []]
      NewTestModule_avgTPS_Relay = Inr m \<and>
    TR_OutputRecord demo_fo (2 ^ 66) m =
      Inr (per, F_div demo_fo (fold (\<lambda>x t. F_add demo_fo t x) (TR_excutedTxNum m) (F_of_int demo_fo 0)) (Seconds demo_fo (2 ^ 63 - 1)))"
  by (rule tps_skipped_epoch) (simp_all add: demo_info_def)

text \<open>A transaction is relayed in one report and executed in the next; another one is local.\<close>

definition demo_infos :: "BlockInfoMsg list" where
  "demo_infos = [demo_info 0 5 [hashed ''x''] [hashed ''y''], demo_info 1 7 [hashed ''y''] []]"

lemma demo_infos_tally:
  "tally executed {} demo_infos = 2" "tally relayed {} demo_infos = 1" "tally arrived {} demo_infos = 1"
  by (simp_all add: demo_infos_def demo_info_def executed_def relayed_def arrived_def relay_hashes_def hashed_def NewTransaction_def)

theorem relay_measures_agree_witness:
  "\<exists>x per'. rfold (XR_UpdateMeasureRecord demo_fo) demo_infos NewTestCrossTxRate_Relay = Inr x \<and>
    XR_OutputRecord demo_fo x =
      Inr (per' @ [F_of_int demo_fo 2, F_of_int demo_fo 1], F_div demo_fo (F_of_int demo_fo 1) (F_of_int demo_fo 2))"
proof -
  have f: "\<forall>b \<in> set demo_infos. fair_report b" by (simp add: demo_infos_def demo_info_def fair_report_def)
  from relay_measures_agree [OF demo_half_exact f demo_infos_tally [symmetric], of 0]
  show ?thesis by (auto simp: demo_fo_def)
qed

end
