(* ===== verification/Supervisor.thy ===== *)
theory Supervisor
  imports CommitteeProps MeasureProps
begin

text \<open>
  The supervisor (\<^verbatim>\<open>src/supervisor/supervisor.go\<close>): the choice of the committee, the handling of the
  reports of the shards and the decision to stop. The committee shares the stop signal with the
  supervisor, so the signal is the field of the committee's state.

  Every report is also given to the measuring modules. At the end \<open>CloseSupervisor\<close> gives the results and
  \<open>CloseSupervisor_files\<close> writes them. Listening and the log are not modelled.
\<close>

section \<open>State and construction\<close>

datatype 'f com_mod =
    ComRelay committee
  | ComBroker broker_committee
  | ComCLPA "'f clpa_committee"
  | ComCLPABroker "'f clpa_broker_committee"

record 'f Supervisor =
  SV_IPaddr :: string
  SV_ChainConfig :: ChainConfig
  SV_Ip_nodeTable :: ip_table
  SV_listenStop :: bool
  SV_comMod :: "'f com_mod"
  SV_testMeasureMods :: "'f measure_mod list"

fun com_Ss :: "'f com_mod \<Rightarrow> StopSignal" where
  "com_Ss (ComRelay c) = CM_Ss c"
| "com_Ss (ComBroker c) = CM_Ss c"
| "com_Ss (ComCLPA c) = CM_Ss c"
| "com_Ss (ComCLPABroker c) = CM_Ss c"

fun upd_Ss :: "(StopSignal \<Rightarrow> StopSignal) \<Rightarrow> 'f com_mod \<Rightarrow> 'f com_mod" where
  "upd_Ss f (ComRelay c) = ComRelay (c\<lparr>CM_Ss := f (CM_Ss c)\<rparr>)"
| "upd_Ss f (ComBroker c) = ComBroker (c\<lparr>CM_Ss := f (CM_Ss c)\<rparr>)"
| "upd_Ss f (ComCLPA c) = ComCLPA (c\<lparr>CM_Ss := f (CM_Ss c)\<rparr>)"
| "upd_Ss f (ComCLPABroker c) = ComCLPABroker (c\<lparr>CM_Ss := f (CM_Ss c)\<rparr>)"

text \<open>\<^verbatim>\<open>NewSupervisor\<close>: \<open>total\<close>, \<open>batch\<close>, \<open>lines\<close> and \<open>bnum\<close> are the global parameters
  \<^verbatim>\<open>TotalDataSize\<close> and \<^verbatim>\<open>BatchSize\<close>, the broker file and \<^verbatim>\<open>BrokerNum\<close>.\<close>

definition new_committee ::
    "'f floatops \<Rightarrow> cparams \<Rightarrow> string list \<Rightarrow> int \<Rightarrow> ip_table \<Rightarrow> StopSignal \<Rightarrow> int \<Rightarrow> int \<Rightarrow> string
      \<Rightarrow> 'f com_mod res" where
  "new_committee fo P lines bnum ips Ss totalSize batch committeeMethod =
     (if committeeMethod = ''CLPA_Broker''
      then rbind (NewCLPACommitteeMod_Broker fo P lines bnum ips Ss totalSize batch 80) (\<lambda>c. Inr (ComCLPABroker c))
      else if committeeMethod = ''CLPA''
      then rbind (NewCLPACommitteeModule fo P ips Ss totalSize batch 80) (\<lambda>c. Inr (ComCLPA c))
      else if committeeMethod = ''Broker''
      then Inr (ComBroker (NewBrokerCommitteeMod lines bnum ips Ss totalSize batch))
      else Inr (ComRelay (NewRelayCommitteeModule ips Ss totalSize batch)))"

definition NewSupervisor ::
    "'f floatops \<Rightarrow> cparams \<Rightarrow> string list \<Rightarrow> int \<Rightarrow> ip_table \<Rightarrow> int \<Rightarrow> int \<Rightarrow> string \<Rightarrow> ChainConfig \<Rightarrow> string
      \<Rightarrow> string list \<Rightarrow> 'f Supervisor res" where
  "NewSupervisor fo P lines bnum ips totalSize batch ip pcc committeeMethod mearsureModNames =
     (let Ss = NewStopSignal (2 * sint (CC_ShardNums pcc))
      in rbind (new_committee fo P lines bnum ips Ss totalSize batch committeeMethod) (\<lambda>c.
           Inr \<lparr>SV_IPaddr = ip, SV_ChainConfig = pcc, SV_Ip_nodeTable = ips, SV_listenStop = False,
                SV_comMod = c,
                SV_testMeasureMods = concat (map (new_measure (sint (CC_ShardNums pcc))) mearsureModNames)\<rparr>))"

section \<open>Handling messages\<close>

fun AdjustByBlockInfos ::
    "cparams \<Rightarrow> BlockInfoMsg \<Rightarrow> 'f com_mod \<Rightarrow> (sends \<times> 'f com_mod) res" where
  "AdjustByBlockInfos P b (ComRelay c) = Inr ([], ComRelay c)"
| "AdjustByBlockInfos P b (ComBroker c) =
     rbind (Broker_AdjustByBlockInfos P b c) (\<lambda>(out, c). Inr (out, ComBroker c))"
| "AdjustByBlockInfos P b (ComCLPA c) =
     rbind (CLPA_AdjustByBlockInfos P b c) (\<lambda>c. Inr ([], ComCLPA c))"
| "AdjustByBlockInfos P b (ComCLPABroker c) =
     rbind (CB_AdjustByBlockInfos P b c) (\<lambda>(out, c). Inr (out, ComCLPABroker c))"

fun HandleOtherMessage :: "cparams \<Rightarrow> net_msg \<Rightarrow> 'f com_mod \<Rightarrow> (sends \<times> 'f com_mod) res" where
  "HandleOtherMessage P msg (ComCLPABroker c) =
     rbind (CB_HandleOtherMessage P msg c) (\<lambda>(out, c). Inr (out, ComCLPABroker c))"
| "HandleOtherMessage P msg c = Inr ([], c)"

text \<open>The loop over the measuring modules.\<close>

fun update_measures :: "'f floatops \<Rightarrow> BlockInfoMsg \<Rightarrow> 'f measure_mod list \<Rightarrow> 'f measure_mod list res" where
  "update_measures fo bim [] = Inr []"
| "update_measures fo bim (m # ms) =
     rbind (UpdateMeasureRecord fo bim m) (\<lambda>m. rbind (update_measures fo bim ms) (\<lambda>ms. Inr (m # ms)))"

definition handleBlockInfos ::
    "'f floatops \<Rightarrow> cparams \<Rightarrow> BlockInfoMsg \<Rightarrow> 'f Supervisor \<Rightarrow> (sends \<times> 'f Supervisor) res" where
  "handleBlockInfos fo P bim d =
     (let com = upd_Ss (if BI_BlockBodyLength bim = 0 then StopGap_Inc else StopGap_Reset) (SV_comMod d)
      in rbind (AdjustByBlockInfos P bim com) (\<lambda>(out, com).
         rbind (update_measures fo bim (SV_testMeasureMods d)) (\<lambda>ms.
           Inr (out, d\<lparr>SV_comMod := com, SV_testMeasureMods := ms\<rparr>))))"

definition Supervisor_handleMessage ::
    "'f floatops \<Rightarrow> cparams \<Rightarrow> net_msg \<Rightarrow> 'f Supervisor \<Rightarrow> (sends \<times> 'f Supervisor) res" where
  "Supervisor_handleMessage fo P msg d =
     (case msg of
        MBlockInfo bim \<Rightarrow> handleBlockInfos fo P bim d
      | _ \<Rightarrow> rbind (HandleOtherMessage P msg (SV_comMod d)) (\<lambda>(out, com). Inr (out, d\<lparr>SV_comMod := com\<rparr>)))"

text \<open>What \<^verbatim>\<open>SupervisorTxHandling\<close> does after \<^verbatim>\<open>TxHandling\<close>: one round of its waiting loop, and the stop
  messages once the gap is large enough. \<open>None\<close> stands for waiting another second.\<close>

definition stop_msgs :: "'f Supervisor \<Rightarrow> sends" where
  "stop_msgs d =
     concat (map (\<lambda>sid. map (\<lambda>nid. (ip_of (SV_Ip_nodeTable d) (of_nat sid) (of_nat nid), MStop))
                          [0..<unat (CC_Nodes_perShard (SV_ChainConfig d))])
               [0..<unat (CC_ShardNums (SV_ChainConfig d))])"

definition stop_round :: "'f Supervisor \<Rightarrow> (sends \<times> 'f Supervisor) option" where
  "stop_round d =
     (if GapEnough (com_Ss (SV_comMod d)) then Some (stop_msgs d, d\<lparr>SV_listenStop := True\<rparr>) else None)"

text \<open>The rows \<^verbatim>\<open>CloseSupervisor\<close> writes, one per module: the name of the metric and the total.\<close>

fun CloseSupervisor :: "'f floatops \<Rightarrow> go_time \<Rightarrow> 'f measure_mod list \<Rightarrow> (string \<times> 'f) list res" where
  "CloseSupervisor fo now [] = Inr []"
| "CloseSupervisor fo now (m # ms) =
     rbind (OutputRecord fo now m) (\<lambda>(_, totResult).
     rbind (CloseSupervisor fo now ms) (\<lambda>rows. Inr ((OutputMetricName m, totResult) # rows)))"

text \<open>The result files: a file is the list of its rows, and a missing file is made with a title.
  \<open>fmt\<close> is \<^verbatim>\<open>strconv.FormatFloat(x, 'f', 8, 64)\<close>, \<open>dirpath\<close> the directory \<^verbatim>\<open>supervisor_measureOutput/\<close>.\<close>

type_synonym files = "string \<rightharpoonup> string list list"

definition write_result :: "('f \<Rightarrow> string) \<Rightarrow> string \<Rightarrow> string \<times> 'f \<Rightarrow> files \<Rightarrow> files" where
  "write_result fmt dirpath row fs =
     (let targetPath = dirpath @ fst row @ ''.csv''; resultStr = [fmt (snd row)]
      in fs(targetPath \<mapsto> (case fs targetPath of None \<Rightarrow> [[fst row], resultStr] | Some rows \<Rightarrow> rows @ [resultStr])))"

definition CloseSupervisor_files ::
    "'f floatops \<Rightarrow> ('f \<Rightarrow> string) \<Rightarrow> string \<Rightarrow> go_time \<Rightarrow> 'f Supervisor \<Rightarrow> files \<Rightarrow> files res" where
  "CloseSupervisor_files fo fmt dirpath now d fs =
     rbind (CloseSupervisor fo now (SV_testMeasureMods d)) (\<lambda>rows. Inr (fold (write_result fmt dirpath) rows fs))"

section \<open>What the measuring modules guarantee\<close>

lemma update_measures_ok:
  assumes "0 \<le> BI_Epoch b" and "\<forall>m \<in> set ms. measure_ok m"
  shows "\<exists>ms'. update_measures fo b ms = Inr ms' \<and> (\<forall>m \<in> set ms'. measure_ok m) \<and>
    map OutputMetricName ms' = map OutputMetricName ms"
  using assms(2)
proof (induction ms)
  case (Cons m ms)
  then show ?case using UpdateMeasureRecord_ok [OF assms(1), of m fo] by (auto simp: rbind_eq_Inr)
qed simp

lemma CloseSupervisor_total:
  "\<forall>m \<in> set ms. measure_ok m \<Longrightarrow> \<exists>rows. CloseSupervisor fo now ms = Inr rows \<and> map fst rows = map OutputMetricName ms"
proof (induction ms)
  case (Cons m ms)
  then show ?case using OutputRecord_total [of m fo now] by auto
qed simp

text \<open>A result file keeps its earlier rows and gets one row for every row of its metric.\<close>

lemma write_results_append:
  assumes "fs (dirpath @ name @ ''.csv'') = Some old"
  shows "fold (write_result fmt dirpath) rows fs (dirpath @ name @ ''.csv'') =
    Some (old @ map (\<lambda>row. [fmt (snd row)]) (filter (\<lambda>row. fst row = name) rows))"
  using assms by (induction rows arbitrary: fs old) (auto simp: write_result_def Let_def)

lemma write_results_new:
  assumes "fs (dirpath @ name @ ''.csv'') = None" and "name \<in> fst ` set rows"
  shows "fold (write_result fmt dirpath) rows fs (dirpath @ name @ ''.csv'') =
    Some ([name] # map (\<lambda>row. [fmt (snd row)]) (filter (\<lambda>row. fst row = name) rows))"
  using assms
proof (induction rows arbitrary: fs)
  case (Cons row rows)
  show ?case
  proof (cases "fst row = name")
    case True
    then have "write_result fmt dirpath row fs (dirpath @ name @ ''.csv'') = Some [[name], [fmt (snd row)]]"
      using Cons.prems(1) by (simp add: write_result_def Let_def)
    from write_results_append [where fs = "write_result fmt dirpath row fs" and dirpath = dirpath and name = name,
        OF this] True show ?thesis by simp
  next
    case False
    then have "write_result fmt dirpath row fs (dirpath @ name @ ''.csv'') = None"
      using Cons.prems(1) by (simp add: write_result_def Let_def)
    with Cons False show ?thesis by auto
  qed
qed simp

text \<open>C26: measuring never stops the supervisor. Whatever modules a supervisor is made with and whatever
  reports of epochs that are not negative it handles, no module panics, and at the end there is one
  row for every module, in their order and under its name.\<close>

theorem measures_never_panic:
  fixes fo :: "'f floatops"
  assumes "\<forall>b \<in> set bims. 0 \<le> BI_Epoch b"
  shows "\<exists>ms rows. rfold (update_measures fo) bims (concat (map (new_measure k) names)) = Inr ms \<and>
    CloseSupervisor fo now ms = Inr rows \<and>
    map fst rows = map OutputMetricName (concat (map (new_measure k) names :: 'f measure_mod list list))"
proof -
  let ?ms = "concat (map (new_measure k) names) :: 'f measure_mod list"
  let ?Q = "\<lambda>ms. (\<forall>m \<in> set ms. measure_ok m) \<and> map OutputMetricName ms = map OutputMetricName ?ms"
  have "\<exists>ms. rfold (update_measures fo) bims ?ms = Inr ms \<and> ?Q ms"
  proof (rule rfold_total)
    show "?Q ?ms" using new_measure_ok by fastforce
    show "\<exists>s'. update_measures fo b s = Inr s' \<and> ?Q s'" if "b \<in> set bims" "?Q s" for b s
      using update_measures_ok [of b s fo] assms that by auto
  qed
  then show ?thesis using CloseSupervisor_total [of _ fo now] by metis
qed

section \<open>When the supervisor stops\<close>

definition handle_reports ::
    "'f floatops \<Rightarrow> cparams \<Rightarrow> BlockInfoMsg list \<Rightarrow> 'f Supervisor \<Rightarrow> 'f Supervisor res" where
  "handle_reports fo P bims d =
     rfold (\<lambda>b d. rbind (Supervisor_handleMessage fo P (MBlockInfo b) d) (\<lambda>(out, d). Inr d)) bims d"

text \<open>The number of empty reports at the end of a list of reports.\<close>

definition quiet :: "BlockInfoMsg list \<Rightarrow> nat" where
  "quiet bims = length (takeWhile (\<lambda>b. BI_BlockBodyLength b = 0) (rev bims))"

lemma com_Ss_upd [simp]: "com_Ss (upd_Ss f c) = f (com_Ss c)"
  by (cases c) simp_all

lemma AdjustByBlockInfos_Ss:
  "AdjustByBlockInfos P b c = Inr (out, c') \<Longrightarrow> com_Ss c' = com_Ss c"
  by (cases c)
    (auto simp: rbind_eq_Inr Broker_AdjustByBlockInfos_def CLPA_AdjustByBlockInfos_def
      CB_AdjustByBlockInfos_def split: if_splits)

lemma handleBlockInfos_Ss:
  assumes "handleBlockInfos fo P b d = Inr (out, d')"
  shows "com_Ss (SV_comMod d') =
      (if BI_BlockBodyLength b = 0 then StopGap_Inc else StopGap_Reset) (com_Ss (SV_comMod d))"
    and "SV_ChainConfig d' = SV_ChainConfig d" and "SV_Ip_nodeTable d' = SV_Ip_nodeTable d"
  using assms by (auto simp: handleBlockInfos_def Let_def rbind_eq_Inr dest!: AdjustByBlockInfos_Ss)

lemma quiet_snoc: "quiet (bims @ [b]) = (if BI_BlockBodyLength b = 0 then Suc (quiet bims) else 0)"
  by (simp add: quiet_def)

lemma quiet_le: "quiet bims \<le> length bims"
  by (metis quiet_def length_rev length_takeWhile_le)

lemma handle_reports_gap:
  assumes "handle_reports fo P bims d = Inr d'"
  shows "SS_stopGap (com_Ss (SV_comMod d')) =
      int (quiet bims) + (if quiet bims = length bims then SS_stopGap (com_Ss (SV_comMod d)) else 0)
    \<and> SS_stopThreshold (com_Ss (SV_comMod d')) = SS_stopThreshold (com_Ss (SV_comMod d))
    \<and> SV_ChainConfig d' = SV_ChainConfig d \<and> SV_Ip_nodeTable d' = SV_Ip_nodeTable d"
  using assms
proof (induction bims arbitrary: d' rule: rev_induct)
  case Nil
  then show ?case by (simp add: handle_reports_def quiet_def)
next
  case (snoc b bims)
  from snoc.prems obtain d1 out where d1: "handle_reports fo P bims d = Inr d1"
    and b: "handleBlockInfos fo P b d1 = Inr (out, d')"
    by (auto simp: handle_reports_def rfold_append rbind_eq_Inr Supervisor_handleMessage_def)
  show ?case
    using snoc.IH [OF d1] handleBlockInfos_Ss [OF b] quiet_le [of bims]
    by (auto simp: quiet_snoc StopGap_Inc_def StopGap_Reset_def)
qed

lemma new_committee_Ss: "new_committee fo P lines bnum ips Ss n m meth = Inr c \<Longrightarrow> com_Ss c = Ss"
  by (auto simp: new_committee_def rbind_eq_Inr NewCLPACommitteeMod_Broker_def NewCLPACommitteeModule_def
      NewBrokerCommitteeMod_def NewRelayCommitteeModule_def split: if_splits)

lemma stop_msgs_complete:
  assumes "sid < unat (CC_ShardNums (SV_ChainConfig d))" and "nid < unat (CC_Nodes_perShard (SV_ChainConfig d))"
  shows "(ip_of (SV_Ip_nodeTable d) (of_nat sid) (of_nat nid), MStop) \<in> set (stop_msgs d)"
  using assms by (auto simp: stop_msgs_def intro!: bexI [of _ sid] imageI)


definition demo_report :: "int \<Rightarrow> BlockInfoMsg" where
  "demo_report n = \<lparr>BI_BlockBodyLength = n, BI_ExcutedTxs = [], BI_Epoch = 0, BI_ProposeTime = 0,
     BI_CommitTime = 0, BI_SenderShardID = 0, BI_Relay1TxNum = 0, BI_Relay1Txs = [],
     BI_Broker1TxNum = 0, BI_Broker1Txs = [], BI_Broker2TxNum = 0, BI_Broker2Txs = []\<rparr>"

definition demo_config :: ChainConfig where
  "demo_config = \<lparr>CC_ChainID = 0, CC_NodeID = 0, CC_ShardID = 0, CC_Nodes_perShard = 1, CC_ShardNums = 1,
     CC_BlockSize = 0, CC_BlockInterval = 0, CC_InjectSpeed = 0, CC_MaxRelayBlockSize = 0\<rparr>"


theorem measures_never_panic_witness:
  "\<exists>ms rows. rfold (update_measures demo_fo) demo_infos (concat (map (new_measure 2) [''TPS_Relay'', ''TCL_Broker''])) = Inr ms \<and>
    CloseSupervisor demo_fo 9 ms = Inr rows \<and> map fst rows = [''Average_TPS'', ''Transaction_Confirm_Latency'']"
proof -
  have "\<forall>b \<in> set demo_infos. 0 \<le> BI_Epoch b" by (simp add: demo_infos_def demo_info_def)
  from measures_never_panic [OF this, of demo_fo 2 "[''TPS_Relay'', ''TCL_Broker'']" 9]
  show ?thesis by (simp add: new_measure_def)
qed

end
