(* ===== verification/Build.thy ===== *)
theory Build
  imports Supervisor Hotstuff
begin

text \<open>
  Starting a system (\<^verbatim>\<open>src/build\<close>, \<^verbatim>\<open>src/main.go\<close>, \<^verbatim>\<open>src/params\<close>): the global parameters, the table of
  addresses and the configuration of a process, the construction of the supervisor and of a node,
  the choice \<^verbatim>\<open>main\<close> makes from the command line, and the scripts that start all processes.

  \<^item> The package variables of \<^verbatim>\<open>params\<close> are the record \<open>globals\<close>; the library environments take their
    parameters from it (\<open>env_of\<close>, \<open>cp_of\<close>).
  \<^item> Parsing the command line (\<^verbatim>\<open>pflag\<close>) is outside; the parsed flags are the record \<open>flags\<close>.
  \<^item> A generated file is its name and its contents; writing it is input/output.
  \<^item> A goroutine that is started is named by a value of \<open>go_call\<close>; what it does is modelled with the
    nodes.
\<close>

section \<open>Printing numbers\<close>

text \<open>\<^verbatim>\<open>strconv.Itoa\<close>, also the verb \<^verbatim>\<open>%d\<close>.\<close>

fun decimal :: "nat \<Rightarrow> string" where
  "decimal n = (if n < 10 then [] else decimal (n div 10)) @ [char_of (48 + n mod 10)]"

declare decimal.simps [simp del]

definition Itoa :: "int \<Rightarrow> string" where
  "Itoa i = (if i < 0 then ''-'' @ decimal (nat (- i)) else decimal (nat i))"

definition nl :: string where
  "nl = [CHR 0x0A]"

definition quote :: string where
  "quote = [CHR 0x22]"

section \<open>Parameters\<close>

record globals =
  G_MaxLatency :: int
  G_UTXO :: bool
  G_UseSyncHotstuff :: bool
  G_TxInputCount :: int
  G_Block_Interval :: int
  G_MaxBlockSize_global :: int
  G_InjectSpeed :: int
  G_TotalDataSize :: int
  G_BatchSize :: int
  G_BrokerNum :: int
  G_NodesInShard :: int
  G_ShardNum :: int
  G_DataWrite_path :: string
  G_LogWrite_path :: string
  G_SupervisorAddr :: string
  G_FileInput :: string
  G_IPmap_nodeTable :: ip_table

definition init_globals :: globals where
  "init_globals =
     \<lparr>G_MaxLatency = 5, G_UTXO = False, G_UseSyncHotstuff = False, G_TxInputCount = 20000,
      G_Block_Interval = 1000, G_MaxBlockSize_global = 500, G_InjectSpeed = 1000,
      G_TotalDataSize = 100000, G_BatchSize = 4000, G_BrokerNum = 10, G_NodesInShard = 4, G_ShardNum = 4,
      G_DataWrite_path = ''./result/'', G_LogWrite_path = ''./log'', G_SupervisorAddr = ''127.0.0.1:18800'',
      G_FileInput = ''../dataset/2000000to2999999_BlockTransaction.csv'', G_IPmap_nodeTable = []\<rparr>"

definition CommitteeMethod :: "string list" where
  "CommitteeMethod = [''CLPA_Broker'', ''CLPA'', ''Broker'', ''Relay'']"

definition MeasureBrokerMod :: "string list" where
  "MeasureBrokerMod = [''TPS_Broker'', ''TCL_Broker'', ''CrossTxRate_Broker'', ''TxNumberCount_Broker'']"

definition MeasureRelayMod :: "string list" where
  "MeasureRelayMod = [''TPS_Relay'', ''TCL_Relay'', ''CrossTxRate_Relay'', ''TxNumberCount_Relay'']"

definition env_of :: "('t, 'd, 'b) env \<Rightarrow> globals \<Rightarrow> ('t, 'd, 'b) env" where
  "env_of E G = E\<lparr>P_UTXO := G_UTXO G, P_ShardNum := G_ShardNum G\<rparr>"

definition cp_of :: "cparams \<Rightarrow> globals \<Rightarrow> cparams" where
  "cp_of P G = P\<lparr>CP_ShardNum := G_ShardNum G, CP_InjectSpeed := G_InjectSpeed G, CP_TxInputCount := G_TxInputCount G\<rparr>"

section \<open>The configuration of a process\<close>

definition node_addr :: "u64 \<Rightarrow> u64 \<Rightarrow> string" where
  "node_addr i j = ''127.0.0.1:'' @ Itoa (sint (28800 + i * 100 + j))"

definition upto_word :: "u64 \<Rightarrow> u64 list" where
  "upto_word n = map of_nat [0..<unat n]"

definition init_shard :: "u64 \<Rightarrow> u64 \<Rightarrow> ip_table \<Rightarrow> ip_table" where
  "init_shard nnm i t =
     gput i (fold (\<lambda>j. gput j (node_addr i j)) (upto_word nnm) (case gget t i of None \<Rightarrow> [] | Some m \<Rightarrow> m)) t"

definition initConfig :: "u64 \<Rightarrow> u64 \<Rightarrow> u64 \<Rightarrow> u64 \<Rightarrow> globals \<Rightarrow> ChainConfig \<times> globals" where
  "initConfig nid nnm sid snm G =
     (let t = fold (init_shard nnm) (upto_word snm) (G_IPmap_nodeTable G);
          t = gput DeciderShard (gput 0 (G_SupervisorAddr G) []) t;
          G = G\<lparr>G_IPmap_nodeTable := t, G_NodesInShard := sint nnm, G_ShardNum := sint snm\<rparr>
      in (\<lparr>CC_ChainID = sid, CC_NodeID = nid, CC_ShardID = sid,
           CC_Nodes_perShard = word_of_int (G_NodesInShard G), CC_ShardNums = snm,
           CC_BlockSize = word_of_int (G_MaxBlockSize_global G),
           CC_BlockInterval = word_of_int (G_Block_Interval G),
           CC_InjectSpeed = word_of_int (G_InjectSpeed G), CC_MaxRelayBlockSize = 0\<rparr>, G))"

section \<open>Supervisor and nodes\<close>

definition BuildSupervisor ::
    "'f floatops \<Rightarrow> cparams \<Rightarrow> string list \<Rightarrow> u64 \<Rightarrow> u64 \<Rightarrow> u64 \<Rightarrow> globals \<Rightarrow> ('f Supervisor \<times> globals) res" where
  "BuildSupervisor fo P lines nnm snm mod' G =
     (let measureMod = (if mod' = 0 \<or> mod' = 2 then MeasureBrokerMod else MeasureRelayMod);
          (pcc, G) = initConfig 123 nnm 123 snm G
      in rbind (index_at CommitteeMethod (unat mod')) (\<lambda>method.
         rbind (NewSupervisor fo (cp_of P G) lines (G_BrokerNum G) (G_IPmap_nodeTable G) (G_TotalDataSize G)
                  (G_BatchSize G) (G_SupervisorAddr G) pcc method measureMod) (\<lambda>lsn. Inr (lsn, G))))"

datatype ('d, 'b) Worker = PbftWorker "('d, 'b) pnode" | HotstuffWorker "('d, 'b) hnode"

datatype go_call = Go_TxTransform | Go_Propose | Do_TcpListen

text \<open>The third component is the module type the node is made with.\<close>

definition BuildNewNode ::
    "('t, 'd, 'b) env \<Rightarrow> 'd \<Rightarrow> (string \<Rightarrow> 'b option) \<Rightarrow> u64 \<Rightarrow> u64 \<Rightarrow> u64 \<Rightarrow> u64 \<Rightarrow> u64 \<Rightarrow> globals
      \<Rightarrow> (('d, 'b) Worker \<times> HandleType \<times> go_call list \<times> globals) res" where
  "BuildNewNode E d disk nid nnm sid snm mod' G =
     (let (pcc, G) = initConfig nid nnm sid snm G
      in rbind (index_at CommitteeMethod (unat mod')) (\<lambda>method.
         rbind (if G_UseSyncHotstuff G
                then rbind (NewSyncHotstuffNode (env_of E G) (G_IPmap_nodeTable G) d disk sid nid pcc)
                       (\<lambda>n. Inr (HotstuffWorker n))
                else rbind (NewPbftNode (env_of E G) (G_IPmap_nodeTable G) d disk sid nid pcc)
                       (\<lambda>p. Inr (PbftWorker p))) (\<lambda>worker.
           Inr (worker, handle_type (G_UTXO G) method,
                (if nid = 0 then (if G_UTXO G then [Go_TxTransform] else []) @ [Go_Propose, Do_TcpListen]
                 else [Do_TcpListen]), G))))"

section \<open>The scripts\<close>

text \<open>\<^verbatim>\<open>params.CommitteeMethod[modID]\<close> for a Go \<^verbatim>\<open>int\<close>.\<close>

definition method_at :: "int \<Rightarrow> string res" where
  "method_at modID = (if modID < 0 then Inl (Panic ''index out of range'') else index_at CommitteeMethod (nat modID))"

definition show_bool :: "bool \<Rightarrow> string" where
  "show_bool b = (if b then ''true'' else ''false'')"

text \<open>The loops \<^verbatim>\<open>for i := a; i < n; i++\<close>.\<close>

definition loop :: "int \<Rightarrow> int \<Rightarrow> (int \<Rightarrow> string) \<Rightarrow> string" where
  "loop a n f = concat (map f [a..n - 1])"

definition addons_of :: "bool \<Rightarrow> bool \<Rightarrow> string" where
  "addons_of isUTXO useSyncHotstuff =
     (if isUTXO then '' -u'' else []) @ (if useSyncHotstuff then '' -h'' else [])"

text \<open>\<^verbatim>\<open>strings.Replace(s, " -", "", -1)\<close>.\<close>

fun drop_dashes :: "string \<Rightarrow> string" where
  "drop_dashes (c # c' # s) = (if c = CHR '' '' \<and> c' = CHR ''-'' then drop_dashes s else c # drop_dashes (c' # s))"
| "drop_dashes s = s"

definition sh_node :: "int \<Rightarrow> int \<Rightarrow> int \<Rightarrow> int \<Rightarrow> int \<Rightarrow> string \<Rightarrow> string" where
  "sh_node i nodenum j shardnum modID addons =
     ''go run main.go -n '' @ Itoa i @ '' -N '' @ Itoa nodenum @ '' -s '' @ Itoa j @ '' -S '' @ Itoa shardnum @
     '' -m '' @ Itoa modID @ addons @ '' &'' @ nl @ nl"

definition sh_client :: "int \<Rightarrow> int \<Rightarrow> int \<Rightarrow> string \<Rightarrow> string" where
  "sh_client nodenum shardnum modID addons =
     ''go run main.go -c -N '' @ Itoa nodenum @ '' -S '' @ Itoa shardnum @ '' -m '' @ Itoa modID @ addons @
     ''&'' @ nl @ nl"

definition GenerateShellFile :: "int \<Rightarrow> int \<Rightarrow> int \<Rightarrow> bool \<Rightarrow> bool \<Rightarrow> (string \<times> string) res" where
  "GenerateShellFile nodenum shardnum modID isUTXO useSyncHotstuff =
     (let addons = addons_of isUTXO useSyncHotstuff in
      rbind (method_at modID) (\<lambda>method.
        Inr (''bat_shardNum='' @ Itoa shardnum @ ''_NodeNum='' @ Itoa nodenum @ ''_mod='' @ method @ ''_'' @
               drop_dashes addons @ ''.sh'',
             ''#!/bin/bash '' @ nl @ nl @
             loop 0 shardnum (\<lambda>j. loop 1 nodenum (\<lambda>i. sh_node i nodenum j shardnum modID addons)) @
             sh_client nodenum shardnum modID addons @
             loop 0 shardnum (\<lambda>j. sh_node 0 nodenum j shardnum modID addons))))"

text \<open>The lines of \<^verbatim>\<open>GenerateBatFile\<close> end in \<^verbatim>\<open>-u\<close> or in a blank.\<close>

definition bat_end :: "bool \<Rightarrow> string" where
  "bat_end isUTXO = (if isUTXO then '' -u'' else '' '') @ nl @ nl"

definition bat_node :: "int \<Rightarrow> int \<Rightarrow> int \<Rightarrow> int \<Rightarrow> int \<Rightarrow> bool \<Rightarrow> string" where
  "bat_node i nodenum j shardnum modID isUTXO =
     ''start cmd /k go run main.go -n '' @ Itoa i @ '' -N '' @ Itoa nodenum @ '' -s '' @ Itoa j @ '' -S '' @
     Itoa shardnum @ '' -m '' @ Itoa modID @ bat_end isUTXO"

definition bat_client :: "int \<Rightarrow> int \<Rightarrow> int \<Rightarrow> bool \<Rightarrow> string" where
  "bat_client nodenum shardnum modID isUTXO =
     ''start cmd /k go run main.go -c -N '' @ Itoa nodenum @ '' -S '' @ Itoa shardnum @ '' -m '' @ Itoa modID @
     bat_end isUTXO"

definition GenerateBatFile :: "int \<Rightarrow> int \<Rightarrow> int \<Rightarrow> bool \<Rightarrow> (string \<times> string) res" where
  "GenerateBatFile nodenum shardnum modID isUTXO =
     rbind (method_at modID) (\<lambda>method.
       Inr (''bat_shardNum='' @ Itoa shardnum @ ''_NodeNum='' @ Itoa nodenum @ ''_mod='' @ method @ ''_'' @
              show_bool isUTXO @ ''.bat'',
            loop 1 nodenum (\<lambda>i. loop 0 shardnum (\<lambda>j. bat_node i nodenum j shardnum modID isUTXO)) @
            bat_client nodenum shardnum modID isUTXO @
            loop 0 shardnum (\<lambda>j. bat_node 0 nodenum j shardnum modID isUTXO)))"

text \<open>\<^verbatim>\<open>GenerateVBSFile\<close> writes two files; \<open>path\<close> is \<^verbatim>\<open>absolute_path\<close>, without format verbs.\<close>

definition vbs_node :: "string \<Rightarrow> int \<Rightarrow> int \<Rightarrow> int \<Rightarrow> int \<Rightarrow> string" where
  "vbs_node path i nodenum j shardnum =
     ''shell.Run '' @ quote @ ''go run '' @ path @ ''/main.go '' @ Itoa i @ '' '' @ Itoa nodenum @ '' '' @ Itoa j @
     '' '' @ Itoa shardnum @ quote @ '', 0, false '' @ nl"

definition GenerateVBSFile :: "string \<Rightarrow> globals \<Rightarrow> (string \<times> string) list" where
  "GenerateVBSFile path G =
     (let nodenum = G_NodesInShard G; shardnum = G_ShardNum G in
      [(''batrun_HideWorker.vbs'',
        ''Dim shell'' @ nl @ ''Set shell = CreateObject('' @ quote @ ''WScript.Shell'' @ quote @ '')'' @ nl @
        loop 1 nodenum (\<lambda>i. loop 0 shardnum (\<lambda>j. vbs_node path i nodenum j shardnum)) @
        loop 0 shardnum (\<lambda>j. vbs_node path 0 nodenum j shardnum)),
       (''batrun_showSupervisor.bat'',
        ''start '' @ path @ ''/batrun_HideWorker.vbs '' @ nl @
        ''start cmd /k '' @ quote @ ''cd '' @ path @ '' && go run main.go 12345678 '' @ Itoa nodenum @ '' 0 '' @
        Itoa shardnum @ '' '' @ quote @ '' '' @ nl)])"

section \<open>The main program\<close>

record flags =
  FL_shardNum :: int
  FL_nodeNum :: int
  FL_shardID :: int
  FL_nodeID :: int
  FL_modID :: int
  FL_isClient :: bool
  FL_isGen :: bool
  FL_useUTXO :: bool
  FL_useSyncHotstuff :: bool

definition default_flags :: flags where
  "default_flags = \<lparr>FL_shardNum = 2, FL_nodeNum = 4, FL_shardID = 0, FL_nodeID = 0, FL_modID = 3,
     FL_isClient = False, FL_isGen = False, FL_useUTXO = False, FL_useSyncHotstuff = False\<rparr>"

datatype ('f, 'd, 'b) process =
    ScriptFile string string
  | Client "'f Supervisor"
  | NodeProcess "('d, 'b) Worker" HandleType "go_call list"

definition main ::
    "('t, 'd, 'b) env \<Rightarrow> 'd \<Rightarrow> (string \<Rightarrow> 'b option) \<Rightarrow> 'f floatops \<Rightarrow> cparams \<Rightarrow> string list \<Rightarrow> flags \<Rightarrow> globals
      \<Rightarrow> (('f, 'd, 'b) process \<times> globals) res" where
  "main E d disk fo P lines fl G =
     (let G = (if FL_useUTXO fl then G\<lparr>G_UTXO := True\<rparr> else G);
          G = (if FL_useSyncHotstuff fl then G\<lparr>G_UseSyncHotstuff := True\<rparr> else G);
          u = (\<lambda>i. word_of_int i :: u64)
      in if FL_isGen fl
         then rbind (GenerateShellFile (FL_nodeNum fl) (FL_shardNum fl) (FL_modID fl) (FL_useUTXO fl)
                       (FL_useSyncHotstuff fl)) (\<lambda>(name, text'). Inr (ScriptFile name text', G))
         else if FL_isClient fl
         then rbind (BuildSupervisor fo P lines (u (FL_nodeNum fl)) (u (FL_shardNum fl)) (u (FL_modID fl)) G)
                (\<lambda>(sv, G). Inr (Client sv, G))
         else rbind (BuildNewNode E d disk (u (FL_nodeID fl)) (u (FL_nodeNum fl)) (u (FL_shardID fl))
                       (u (FL_shardNum fl)) (u (FL_modID fl)) G)
                (\<lambda>(w, t, calls, G). Inr (NodeProcess w t calls, G)))"

end
