(* ===== verification/BuildProps.thy ===== *)
theory BuildProps
  imports Build
begin

text \<open>
  What the start of a system guarantees: addresses are different as long as a shard has at most 100
  nodes, the processes started from one command line agree on addresses, modules and measurements,
  and the shell script starts every node once, the leaders last.
\<close>

section \<open>Printed numbers can be read back\<close>

lemma digit_char [simp]: "d < 10 \<Longrightarrow> digit (char_of (48 + d)) = Some d"
  by (simp add: digit_def Let_def)

lemma parse_digits_append:
  "parse_digits acc (xs @ ys) = (case parse_digits acc xs of None \<Rightarrow> None | Some a \<Rightarrow> parse_digits a ys)"
  by (induction acc xs rule: parse_digits.induct) (simp_all split: option.splits)

lemma parse_decimal: "parse_digits 0 (decimal n) = Some n"
proof (induction n rule: decimal.induct)
  case (1 n)
  show ?case
  proof (cases "n < 10")
    case False
    with 1 have "parse_digits 0 (decimal (n div 10)) = Some (n div 10)" by simp
    then show ?thesis using False by (subst decimal.simps) (simp add: parse_digits_append)
  qed (subst decimal.simps, simp)
qed

lemma decimal_inject [simp]: "decimal m = decimal n \<longleftrightarrow> m = n"
  by (metis option.inject parse_decimal)

lemma decimal_digit: "c \<in> set (decimal n) \<Longrightarrow> c \<noteq> CHR ''-''"
proof (induction n rule: decimal.induct)
  case (1 n)
  have "char_of (48 + n mod 10) \<noteq> CHR ''-''"
  proof
    assume "char_of (48 + n mod 10) = CHR ''-''"
    then have "digit CHR ''-'' = Some (n mod 10)" by (metis digit_char mod_less_divisor zero_less_numeral)
    then show False by (simp add: digit_def)
  qed
  with 1 show ?case by (subst (asm) decimal.simps) (auto split: if_splits)
qed

lemma Itoa_inject [simp]: "Itoa i = Itoa j \<longleftrightarrow> i = j"
proof -
  have "decimal m \<noteq> CHR ''-'' # xs" for m xs
    using decimal_digit [of "CHR ''-''" m] by auto
  then show ?thesis by (auto simp: Itoa_def eq_nat_nat_iff) (metis list.distinct)+
qed

section \<open>The table of addresses\<close>

lemma unat_below:
  fixes n :: u64
  assumes "k < unat n"
  shows "unat (of_nat k :: u64) = k"
proof -
  have "unat n < 2 ^ LENGTH(64)" by (rule unsigned_less)
  with assms have "k < 2 ^ 64" by simp
  then show ?thesis by (rule unat_of_nat_u64)
qed

lemma upto_word_set [simp]: "set (upto_word n) = {i. i < n}"
proof -
  have "i \<in> of_nat ` {0..<unat n}" if "i < n" for i
    using that by (intro image_eqI [of _ _ "unat i"]) (simp_all add: word_less_nat_alt)
  then show ?thesis by (auto simp: upto_word_def word_less_nat_alt unat_below)
qed

lemma upto_word_distinct [simp]: "distinct (upto_word n)"
proof -
  have "inj_on (of_nat :: nat \<Rightarrow> u64) {0..<unat n}"
    by (rule inj_onI) (metis atLeastLessThan_iff unat_below)
  then show ?thesis by (simp add: upto_word_def distinct_map)
qed

lemma gget_fold_gput: "gget (fold (\<lambda>k. gput k (f k)) ks m) k = (if k \<in> set ks then Some (f k) else gget m k)"
  by (induction ks arbitrary: m) auto

lemma gget_fold_self:
  assumes "distinct ks"
  shows "gget (fold (\<lambda>k t. gput k (f k (gget t k)) t) ks t) k = (if k \<in> set ks then Some (f k (gget t k)) else gget t k)"
  using assms by (induction ks arbitrary: t) auto

lemma ip_of_initConfig:
  "ip_of (G_IPmap_nodeTable (snd (initConfig nid nnm sid snm G))) i j =
    (if i = DeciderShard then (if j = 0 then G_SupervisorAddr G else [])
     else if i < snm \<and> j < nnm then node_addr i j
     else ip_of (G_IPmap_nodeTable G) i j)"
proof -
  have "gget (fold (init_shard nnm) (upto_word snm) t) i =
      (if i < snm then Some (fold (\<lambda>j. gput j (node_addr i j)) (upto_word nnm) (case gget t i of None \<Rightarrow> [] | Some m \<Rightarrow> m))
       else gget t i)" for t
    unfolding init_shard_def
    by (subst gget_fold_self [where f = "\<lambda>i x. fold (\<lambda>j. gput j (node_addr i j)) (upto_word nnm) (case x of None \<Rightarrow> [] | Some m \<Rightarrow> m)"])
      simp_all
  then show ?thesis
    by (auto simp: initConfig_def Let_def ip_of_def gget_fold_gput split: option.splits)
qed

lemma node_port:
  assumes "i \<le> 0xffffffff" and "j \<le> 0xffffffff"
  shows "sint (28800 + i * 100 + j :: u64) = 28800 + uint i * 100 + uint j"
proof -
  have le: "uint i \<le> 0xffffffff" "uint j \<le> 0xffffffff" using assms by (simp_all add: word_le_def)
  have "uint (28800 + i * 100 + j) = 28800 + uint i * 100 + uint j"
    using le by (simp add: uint_word_ariths)
  then show ?thesis using le by (simp add: sint_uint signed_take_bit_int_eq_self)
qed

lemma node_addr_eq:
  assumes "i \<le> 0xffffffff" "j \<le> 0xffffffff" "i' \<le> 0xffffffff" "j' \<le> 0xffffffff"
  shows "node_addr i j = node_addr i' j' \<longleftrightarrow> uint i * 100 + uint j = uint i' * 100 + uint j'"
  using assms by (auto simp: node_addr_def node_port)

lemma base_100:
  fixes a b c d :: int
  assumes "a * 100 + b = c * 100 + d" and "0 \<le> b" "b < 100" "0 \<le> d" "d < 100"
  shows "a = c \<and> b = d"
  using assms by (cases a c rule: linorder_cases) linarith+

text \<open>C28: the addresses \<open>initConfig\<close> gives out are different exactly when a shard has at most 100 nodes.
  In a system of two or more shards the table maps no two nodes to the same address if and only if
  \<open>nnm\<close> is at most 100 (the port is \<open>28800 + 100 * i + j\<close>); the supervisor is reachable under its own
  address.\<close>

theorem node_addresses_distinct:
  fixes nnm snm :: u64
  assumes "2 \<le> snm" and "snm \<le> 0xffffffff" and "nnm \<le> 0xffffffff"
  shows "let ip = ip_of (G_IPmap_nodeTable (snd (initConfig nid nnm sid snm G))) in
    ip DeciderShard 0 = G_SupervisorAddr G \<and>
    (nnm \<le> 100 \<longleftrightarrow> (\<forall>i < snm. \<forall>i' < snm. \<forall>j < nnm. \<forall>j' < nnm. ip i j = ip i' j' \<longrightarrow> i = i' \<and> j = j'))"
proof -
  let ?ip = "ip_of (G_IPmap_nodeTable (snd (initConfig nid nnm sid snm G)))"
  have ip: "?ip i j = node_addr i j" "i \<le> 0xffffffff" "j \<le> 0xffffffff" if "i < snm" "j < nnm" for i j
  proof -
    have "i < 0xffffffff" using that(1) assms(2) by (rule less_le_trans)
    then show "?ip i j = node_addr i j" "i \<le> 0xffffffff"
      using that by (auto simp: ip_of_initConfig DeciderShard_def)
    show "j \<le> 0xffffffff" using that(2) assms(3) by (rule less_imp_le [OF less_le_trans])
  qed
  have "i = i' \<and> j = j'" if "nnm \<le> 100" "i < snm" "i' < snm" "j < nnm" "j' < nnm" "?ip i j = ?ip i' j'" for i i' j j'
  proof -
    have "node_addr i j = node_addr i' j'" using that(6) ip(1) [OF that(2,4)] ip(1) [OF that(3,5)] by simp
    then have "uint i * 100 + uint j = uint i' * 100 + uint j'"
      using node_addr_eq [OF ip(2,3) [OF that(2,4)] ip(2,3) [OF that(3,5)]] by simp
    moreover have "uint j < 100" "uint j' < 100" using that(1,4,5) by (simp_all add: word_le_def word_less_def)
    ultimately have "uint i = uint i' \<and> uint j = uint j'" by (intro base_100) simp_all
    then show ?thesis by (simp add: word_uint_eq_iff)
  qed
  moreover have "(0::u64) < snm \<and> 1 < snm \<and> 0 < nnm \<and> 100 < nnm \<and> ?ip 0 100 = ?ip 1 0" if "\<not> nnm \<le> 100"
  proof -
    have lt: "(0::u64) < snm" "1 < snm" "0 < nnm" "100 < nnm"
      using assms(1) that by (simp_all add: word_le_def word_less_def)
    have "node_addr 0 100 = node_addr 1 0" by (subst node_addr_eq) simp_all
    with lt show ?thesis by (simp add: ip(1))
  qed
  moreover have "?ip DeciderShard 0 = G_SupervisorAddr G" by (simp add: ip_of_initConfig)
  ultimately show ?thesis unfolding Let_def by (metis zero_neq_one)
qed

theorem node_addresses_distinct_witness:
  "ip_of (G_IPmap_nodeTable (snd (initConfig 0 4 0 2 init_globals))) 0 1 \<noteq>
   ip_of (G_IPmap_nodeTable (snd (initConfig 0 4 0 2 init_globals))) 1 1 \<and>
   \<not> (\<forall>i < 2. \<forall>i' < 2. \<forall>j < 101. \<forall>j' < 101.
        ip_of (G_IPmap_nodeTable (snd (initConfig 0 101 0 2 init_globals))) i j =
        ip_of (G_IPmap_nodeTable (snd (initConfig 0 101 0 2 init_globals))) i' j' \<longrightarrow> i = i' \<and> j = j')"
proof -
  let ?ip = "ip_of (G_IPmap_nodeTable (snd (initConfig 0 4 0 2 init_globals)))"
  have "\<forall>i < 2. \<forall>i' < 2. \<forall>j < 4. \<forall>j' < 4. ?ip i j = ?ip i' j' \<longrightarrow> i = i' \<and> j = j'"
    using node_addresses_distinct [of 2 4 0 0 init_globals] by (simp add: Let_def)
  from this [rule_format, of 0 1 1 1] have "?ip 0 1 \<noteq> ?ip 1 1" by auto
  then show ?thesis using node_addresses_distinct [of 2 101 0 0 init_globals] by (simp add: Let_def)
qed

section \<open>The processes of one system\<close>

text \<open>The commands of a script, as a line of the shell script and as the flags they stand for.\<close>

datatype command = StartNode int int | StartClient

fun sh_line :: "int \<Rightarrow> int \<Rightarrow> int \<Rightarrow> string \<Rightarrow> command \<Rightarrow> string" where
  "sh_line nodenum shardnum modID addons (StartNode j i) = sh_node i nodenum j shardnum modID addons"
| "sh_line nodenum shardnum modID addons StartClient = sh_client nodenum shardnum modID addons"

fun flags_of :: "int \<Rightarrow> int \<Rightarrow> int \<Rightarrow> bool \<Rightarrow> bool \<Rightarrow> command \<Rightarrow> flags" where
  "flags_of nodenum shardnum modID utxo hs (StartNode j i) =
     default_flags\<lparr>FL_nodeID := i, FL_nodeNum := nodenum, FL_shardID := j, FL_shardNum := shardnum,
       FL_modID := modID, FL_useUTXO := utxo, FL_useSyncHotstuff := hs\<rparr>"
| "flags_of nodenum shardnum modID utxo hs StartClient =
     default_flags\<lparr>FL_isClient := True, FL_nodeNum := nodenum, FL_shardNum := shardnum,
       FL_modID := modID, FL_useUTXO := utxo, FL_useSyncHotstuff := hs\<rparr>"

fun worker_table :: "('d, 'b) Worker \<Rightarrow> ip_table" where
  "worker_table (PbftWorker p) = PN_ip_nodeTable p"
| "worker_table (HotstuffWorker n) = HN_ip_nodeTable n"

fun worker_node :: "('d, 'b) Worker \<Rightarrow> Node" where
  "worker_node (PbftWorker p) = PN_RunningNode p"
| "worker_node (HotstuffWorker n) = HN_RunningNode n"

fun is_hotstuff :: "('d, 'b) Worker \<Rightarrow> bool" where
  "is_hotstuff (PbftWorker p) = False"
| "is_hotstuff (HotstuffWorker n) = True"

text \<open>Which committee a node of a type works with, and whether a module measures brokers.\<close>

fun serves :: "'f com_mod \<Rightarrow> HandleType \<Rightarrow> bool" where
  "serves (ComRelay c) t = (t = Mod_Relay \<or> t = Mod_UTXO)"
| "serves (ComBroker c) t = (t = Mod_Broker)"
| "serves (ComCLPA c) t = (t = Mod_CLPA)"
| "serves (ComCLPABroker c) t = (t = Mod_CLPA_Broker)"

fun measures_brokers :: "'f measure_mod \<Rightarrow> bool" where
  "measures_brokers (MM_TPS_Broker m) = True"
| "measures_brokers (MM_TCL_Broker m) = True"
| "measures_brokers (MM_CrossTxRate_Broker m) = True"
| "measures_brokers (MM_TxNumCount_Broker m) = True"
| "measures_brokers m = False"

lemma method_cases:
  fixes k :: u64
  assumes "index_at CommitteeMethod (unat k) = Inr meth"
  shows "(k = 0 \<and> meth = ''CLPA_Broker'') \<or> (k = 1 \<and> meth = ''CLPA'') \<or>
    (k = 2 \<and> meth = ''Broker'') \<or> (k = 3 \<and> meth = ''Relay'')"
proof -
  have word: "k = of_nat n" if "unat k = n" for n using that by (metis of_nat_unat ucast_id)
  have "unat k < 4" and meth: "meth = CommitteeMethod ! unat k"
    using assms by (simp_all add: index_at_def CommitteeMethod_def split: if_splits)
  then consider "unat k = 0" | "unat k = 1" | "unat k = 2" | "unat k = 3" by linarith
  then show ?thesis
    by cases (use meth word in \<open>simp_all add: CommitteeMethod_def\<close>)
qed

lemma new_committee_serves:
  assumes "new_committee fo P lines bnum ips Ss n m meth = Inr c"
    and "meth \<in> set CommitteeMethod"
  shows "serves c (handle_type utxo meth)"
  using assms by (auto simp: new_committee_def handle_type_def CommitteeMethod_def rbind_eq_Inr split: if_splits)

lemma NewSupervisor_D:
  assumes "NewSupervisor fo P lines bnum ips n m ip pcc meth names = Inr sv"
  shows "SV_Ip_nodeTable sv = ips" and "SV_ChainConfig sv = pcc"
    and "SV_testMeasureMods sv = concat (map (new_measure (sint (CC_ShardNums pcc))) names)"
    and "meth \<in> set CommitteeMethod \<Longrightarrow> serves (SV_comMod sv) (handle_type utxo meth)"
  using assms new_committee_serves by (auto simp: NewSupervisor_def Let_def rbind_eq_Inr)

lemma measure_names:
  "m \<in> set (concat (map (new_measure k) MeasureBrokerMod)) \<Longrightarrow> measures_brokers m"
  "m \<in> set (concat (map (new_measure k) MeasureRelayMod)) \<Longrightarrow> \<not> measures_brokers m"
  by (auto simp: MeasureBrokerMod_def MeasureRelayMod_def new_measure_def)

text \<open>What \<^verbatim>\<open>main\<close> does with the two kinds of flags, after the parameters are set.\<close>

definition set_modes :: "bool \<Rightarrow> bool \<Rightarrow> globals \<Rightarrow> globals" where
  "set_modes utxo hs G =
     (let G = (if utxo then G\<lparr>G_UTXO := True\<rparr> else G) in if hs then G\<lparr>G_UseSyncHotstuff := True\<rparr> else G)"

lemma main_client:
  "main E d disk fo P lines (flags_of N S m utxo hs StartClient) G =
     rbind (BuildSupervisor fo P lines (word_of_int N) (word_of_int S) (word_of_int m) (set_modes utxo hs G))
       (\<lambda>(sv, G). Inr (Client sv, G))"
  by (simp add: main_def Let_def default_flags_def set_modes_def)

lemma main_node:
  "main E d disk fo P lines (flags_of N S m utxo hs (StartNode j i)) G =
     rbind (BuildNewNode E d disk (word_of_int i) (word_of_int N) (word_of_int j) (word_of_int S) (word_of_int m)
              (set_modes utxo hs G)) (\<lambda>(w, t, calls, G). Inr (NodeProcess w t calls, G))"
  by (simp add: main_def Let_def default_flags_def set_modes_def)

lemma initConfig_shared:
  "G_IPmap_nodeTable (snd (initConfig nid nnm sid snm G)) = G_IPmap_nodeTable (snd (initConfig nid' nnm sid' snm G))"
  "G_UTXO (snd (initConfig nid nnm sid snm G)) = G_UTXO G"
  "G_UseSyncHotstuff (snd (initConfig nid nnm sid snm G)) = G_UseSyncHotstuff G"
  by (simp_all add: initConfig_def Let_def)

lemma BuildSupervisor_D:
  assumes "BuildSupervisor fo P lines nnm snm k G = Inr (sv, G')"
  shows "\<exists>meth. index_at CommitteeMethod (unat k) = Inr meth \<and>
    SV_Ip_nodeTable sv = G_IPmap_nodeTable (snd (initConfig 123 nnm 123 snm G)) \<and>
    serves (SV_comMod sv) (handle_type utxo meth) \<and>
    (\<forall>m \<in> set (SV_testMeasureMods sv). measures_brokers m \<longleftrightarrow> k = 0 \<or> k = 2)"
proof -
  obtain pcc G1 where cfg: "initConfig 123 nnm 123 snm G = (pcc, G1)" by force
  obtain meth where m: "index_at CommitteeMethod (unat k) = Inr meth"
    and sv: "NewSupervisor fo (cp_of P G1) lines (G_BrokerNum G1) (G_IPmap_nodeTable G1) (G_TotalDataSize G1)
      (G_BatchSize G1) (G_SupervisorAddr G1) pcc meth (if k = 0 \<or> k = 2 then MeasureBrokerMod else MeasureRelayMod) = Inr sv"
    using assms by (auto simp: BuildSupervisor_def Let_def cfg rbind_eq_Inr)
  have "meth \<in> set CommitteeMethod" using method_cases [OF m] by (auto simp: CommitteeMethod_def)
  moreover have "\<forall>m \<in> set (SV_testMeasureMods sv). measures_brokers m \<longleftrightarrow> k = 0 \<or> k = 2"
  proof (cases "k = 0 \<or> k = 2")
    case True
    then show ?thesis using NewSupervisor_D(3) [OF sv] measure_names(1) by (auto simp only: if_True)
  next
    case False
    then show ?thesis using NewSupervisor_D(3) [OF sv] measure_names(2) by (auto simp only: if_False)
  qed
  ultimately show ?thesis using NewSupervisor_D(1,4) [OF sv] m cfg by auto
qed

lemma BuildNewNode_D:
  assumes "BuildNewNode E d disk nid nnm sid snm k G = Inr (w, t, calls, G')"
  shows "\<exists>meth. index_at CommitteeMethod (unat k) = Inr meth \<and> t = handle_type (G_UTXO G) meth \<and>
    worker_table w = G_IPmap_nodeTable (snd (initConfig nid nnm sid snm G)) \<and>
    worker_node w = \<lparr>N_NodeID = nid, N_ShardID = sid, N_IPaddr = ip_of (worker_table w) sid nid\<rparr> \<and>
    is_hotstuff w = G_UseSyncHotstuff G \<and> (Go_Propose \<in> set calls \<longleftrightarrow> nid = 0) \<and> last calls = Do_TcpListen"
proof -
  obtain pcc G1 where cfg: "initConfig nid nnm sid snm G = (pcc, G1)" by force
  then have same: "G_UTXO G1 = G_UTXO G" "G_UseSyncHotstuff G1 = G_UseSyncHotstuff G"
    using initConfig_shared(2,3) by (metis snd_conv)+
  show ?thesis
    using assms cfg same
    by (auto simp: BuildNewNode_def Let_def rbind_eq_Inr NewPbftNode_def NewSyncHotstuffNode_def split: if_splits)
qed


lemma env_of_demo: "env_of (demo_env u n) G = demo_env (G_UTXO G) (G_ShardNum G)"
  by (simp add: env_of_def demo_env_def)


section \<open>The shell script\<close>

lemma concat_map_concat: "concat (map f (concat (map g xs))) = concat (map (\<lambda>x. concat (map f (g x))) xs)"
  by (induction xs) simp_all

lemma distinct_grid:
  "distinct js \<Longrightarrow> distinct is \<Longrightarrow> distinct (concat (map (\<lambda>j. map (StartNode j) is) js))"
  by (induction js) (auto simp: distinct_map inj_on_def)

text \<open>The generated script starts the whole system. For a valid method, \<open>GenerateShellFile\<close> writes the
  commands of all nodes of all shards and of the supervisor, each once: first the nodes that are
  not leaders, then the supervisor, then the leaders.\<close>

theorem shell_file_complete:
  assumes "1 \<le> nodenum" and "0 \<le> modID" and "modID < 4"
  shows "\<exists>name ws. let cmds = ws @ StartClient # map (\<lambda>j. StartNode j 0) [0..shardnum - 1] in
    GenerateShellFile nodenum shardnum modID utxo hs =
      Inr (name, ''#!/bin/bash '' @ nl @ nl @
        concat (map (sh_line nodenum shardnum modID (addons_of utxo hs)) cmds)) \<and>
    distinct cmds \<and>
    set cmds = insert StartClient {StartNode j i | j i. 0 \<le> j \<and> j < shardnum \<and> 0 \<le> i \<and> i < nodenum} \<and>
    (\<forall>j. StartNode j 0 \<notin> set ws)"
proof -
  let ?ws = "concat (map (\<lambda>j. map (StartNode j) [1..nodenum - 1]) [0..shardnum - 1])"
  let ?cmds = "?ws @ StartClient # map (\<lambda>j. StartNode j 0) [0..shardnum - 1]"
  have "nat modID < length CommitteeMethod" using assms(2,3) by (simp add: CommitteeMethod_def)
  then obtain meth where "method_at modID = Inr meth"
    using assms(2) by (simp add: method_at_def index_at_def)
  then have "\<exists>name. GenerateShellFile nodenum shardnum modID utxo hs =
      Inr (name, ''#!/bin/bash '' @ nl @ nl @
        concat (map (sh_line nodenum shardnum modID (addons_of utxo hs)) ?cmds))"
    by (simp add: GenerateShellFile_def Let_def loop_def concat_map_concat comp_def)
  moreover have "distinct ?cmds"
    using distinct_grid [of "[0..shardnum - 1]" "[1..nodenum - 1]"] by (auto simp: distinct_map inj_on_def)
  moreover have "set ?cmds = insert StartClient
      {StartNode j i | j i. 0 \<le> j \<and> j < shardnum \<and> 0 \<le> i \<and> i < nodenum}"
  proof (intro set_eqI iffI)
    fix c
    assume "c \<in> insert StartClient {StartNode j i | j i. 0 \<le> j \<and> j < shardnum \<and> 0 \<le> i \<and> i < nodenum}"
    then show "c \<in> set ?cmds" by (cases c) (auto simp: image_iff)
  qed (use assms(1) in auto)
  moreover have "\<forall>j. StartNode j 0 \<notin> set ?ws" by auto
  ultimately show ?thesis unfolding Let_def by blast
qed

theorem shell_file_complete_witness:
  "\<exists>name ws. GenerateShellFile 1 1 3 True False =
     Inr (name, ''#!/bin/bash '' @ nl @ nl @
       concat (map (sh_line 1 1 3 '' -u'') (ws @ [StartClient, StartNode 0 0]))) \<and> (\<forall>j. StartNode j 0 \<notin> set ws)"
proof -
  have "[0..1 - 1] = [0 :: int]" by simp
  with shell_file_complete [of 1 3 1 True False] show ?thesis
    by (simp only: Let_def addons_of_def) (simp, blast)
qed

end
