(* ===== verification/Query.thy ===== *)
theory Query
  imports ChainInv
begin

text \<open>
  The queries on the databases of a node (\<^verbatim>\<open>src/query\<close>). The bolt file of a node is the buckets
  \<open>disk\<close>, its state database is \<open>d\<close>; opening and closing the files is input/output. The iteration
  of a bucket is \<open>K_list\<close>. A queried block is \<open>None\<close> where the Go code returns a nil pointer or the
  empty \<^verbatim>\<open>new(core.Block)\<close>, whose header is nil.

  The theorems show that the blocks a node has stored are the abstract list of its chain, from the
  genesis block to the tip, and that every query reads that list.
\<close>

section \<open>The queries\<close>

definition initStorage :: "('t, 'd, 'b) env \<Rightarrow> (string \<Rightarrow> 'b option) \<Rightarrow> 'b Storage" where
  "initStorage E disk = NewStorage E disk"

definition QueryBlocks :: "('t, 'd, 'b) env \<Rightarrow> (string \<Rightarrow> 'b option) \<Rightarrow> Block list res" where
  "QueryBlocks E disk =
     rfold (\<lambda>(k, v) blocks. rbind (DecodeB v) (\<lambda>res. Inr (blocks @ [res])))
       (K_list E (blockBucket (initStorage E disk))) []"

definition QueryBlock :: "('t, 'd, 'b) env \<Rightarrow> (string \<Rightarrow> 'b option) \<Rightarrow> u64 \<Rightarrow> Block option res" where
  "QueryBlock E disk Number =
     rfold (\<lambda>(k, v) block. rbind (DecodeB v) (\<lambda>res. Inr (if B_Number res = Number then Some res else block)))
       (K_list E (blockBucket (initStorage E disk))) None"

text \<open>Both errors of \<^verbatim>\<open>QueryNewestBlock\<close> are ignored; the hash is then empty, the block nil.\<close>

definition QueryNewestBlock :: "('t, 'd, 'b) env \<Rightarrow> (string \<Rightarrow> 'b option) \<Rightarrow> Block option res" where
  "QueryNewestBlock E disk =
     (let storage = initStorage E disk in
      rbind (GetNewestBlockHash E storage) (\<lambda>h.
      rbind (GetBlock E (case h of Inl e \<Rightarrow> [] | Inr hash \<Rightarrow> hash) storage) (\<lambda>b.
        Inr (case b of Inl e \<Rightarrow> None | Inr block \<Rightarrow> Some block))))"

definition QueryBlockTxs :: "('t, 'd, 'b) env \<Rightarrow> (string \<Rightarrow> 'b option) \<Rightarrow> u64 \<Rightarrow> Transaction list res" where
  "QueryBlockTxs E disk Number =
     rbind (rfold (\<lambda>(k, v) block. rbind (DecodeB v) (\<lambda>res. Inr (if B_Number res = Number then Some res else block)))
       (K_list E (blockBucket (initStorage E disk))) None)
       (\<lambda>block. Inr (case block of None \<Rightarrow> [] | Some b \<Rightarrow> B_Body b))"

text \<open>\<^verbatim>\<open>QueryAccountState\<close> dereferences the block and decodes what the trie returns, also when there is
  none.\<close>

definition QueryAccountState ::
    "('t, 'd, 'b) env \<Rightarrow> 'd \<Rightarrow> (string \<Rightarrow> 'b option) \<Rightarrow> string \<Rightarrow> AccountState res" where
  "QueryAccountState E d disk address =
     (let tdb = T_open E d; storage = initStorage E disk in
      rbind (GetNewestBlockHash E storage) (\<lambda>h.
      rbind (GetBlock E (case h of Inl e \<Rightarrow> [] | Inr hash \<Rightarrow> hash) storage) (\<lambda>b.
      case b of
        Inl e \<Rightarrow> Inl (Panic ''nil pointer dereference'')
      | Inr curb \<Rightarrow>
          rbind (opt_or (Panic ''missing trie node'') (T_new E (BytesToHash E (B_StateRoot curb)) tdb)) (\<lambda>st.
          case T_get E st address of
            None \<Rightarrow> Inl (Panic ''gob: decode AccountState'')
          | Some asenc \<Rightarrow> DecodeAS asenc))))"

section \<open>The stored blocks are the chain\<close>

text \<open>\<open>chain_list\<close>: the blocks from the genesis block on, linked by their hashes and numbered.\<close>

definition chain_list :: "Block list \<Rightarrow> bool" where
  "chain_list bs \<longleftrightarrow> bs \<noteq> [] \<and> BH_ParentBlockHash (B_Header (hd bs)) = [] \<and>
     (\<forall>i<length bs. B_Number (bs ! i) = of_nat i) \<and>
     (\<forall>i. Suc i < length bs \<longrightarrow> BH_ParentBlockHash (B_Header (bs ! Suc i)) = B_Hash (bs ! i))"

definition by_hash :: "Block list \<Rightarrow> (bytes \<times> gob) list" where
  "by_hash bs = map (\<lambda>b. (B_Hash b, GobB b)) bs"

definition stores :: "('t, 'd, 'b) env \<Rightarrow> ('d, 'b) BlockChain \<Rightarrow> Block list \<Rightarrow> bool" where
  "stores E bc bs \<longleftrightarrow> chain_list bs \<and> last bs = CurrentBlock bc \<and> tip_stored E bc \<and>
     distinct (map B_Hash bs) \<and> K_get E (blockBucket (Storage bc)) = map_of (by_hash bs)"

lemma stores_cong:
  "CurrentBlock bc' = CurrentBlock bc \<Longrightarrow> Storage bc' = Storage bc \<Longrightarrow> stores E bc' bs = stores E bc bs"
  by (simp add: stores_def tip_stored_def)

lemma by_hash_fst [simp]: "map fst (by_hash bs) = map B_Hash bs"
  by (simp add: by_hash_def)

lemma map_of_by_hash_None: "map_of (by_hash bs) h = None \<longleftrightarrow> h \<notin> B_Hash ` set bs"
  by (simp add: map_of_eq_None_iff by_hash_def image_image)

lemma map_of_by_hash_snoc:
  assumes "B_Hash b \<notin> B_Hash ` set bs"
  shows "map_of (by_hash (bs @ [b])) = (map_of (by_hash bs))(B_Hash b \<mapsto> GobB b)"
proof
  fix h
  show "map_of (by_hash (bs @ [b])) h = ((map_of (by_hash bs))(B_Hash b \<mapsto> GobB b)) h"
    using assms map_of_by_hash_None [of bs "B_Hash b"]
    by (auto simp: by_hash_def map_add_def split: option.splits)
qed

lemma chain_list_snoc:
  assumes "chain_list bs" and "B_Number b = B_Number (last bs) + 1"
    and "BH_ParentBlockHash (B_Header b) = B_Hash (last bs)"
  shows "chain_list (bs @ [b])"
proof -
  have "B_Number (last bs) = of_nat (length bs - 1)" and l: "last bs = bs ! (length bs - 1)" "bs \<noteq> []"
    using assms(1) by (simp_all add: chain_list_def last_conv_nth)
  then have "B_Number b = of_nat (length bs)"
    using assms(2) by (cases bs) (simp_all add: add.commute)
  moreover have "B_Hash (bs ! i) = B_Hash (last bs)" if "Suc i = length bs" for i
    using l that by (metis diff_Suc_1)
  ultimately show ?thesis
    using assms(1,3) by (auto simp: chain_list_def nth_append less_Suc_eq)
qed

text \<open>What one step of a chain does to its blocks: nothing, or a new linked block.\<close>

lemma chain_step_blocks:
  assumes "\<not> P_UTXO E" and "chain_step E bc bc'"
  shows "CurrentBlock bc' = CurrentBlock bc \<and> Storage bc' = Storage bc \<or>
    (\<exists>b. Storage_AddBlock E b (Storage bc) = Inr (Storage bc') \<and> CurrentBlock bc' = b \<and>
       K_get E (blockBucket (Storage bc)) (B_Hash b) = None \<and>
       B_Number b = B_Number (CurrentBlock bc) + 1 \<and>
       BH_ParentBlockHash (B_Header b) = B_Hash (CurrentBlock bc))"
  using assms(2)
proof cases
  case (mine now b bc1)
  obtain pool where g: "GetUpdateStatusTrie E (B_Body b) (bc\<lparr>Txpool := pool\<rparr>) = Inr (B_StateRoot b, bc1)"
    "BH_ParentBlockHash (B_Header b) = B_Hash (CurrentBlock bc)"
    "B_Number b = B_Number (CurrentBlock bc) + 1" "BH_Miner (B_Header b) = 0"
    using GenerateBlock_account [OF assms(1) mine(1)] by metis
  note keeps = GetUpdateStatusTrie_keeps [OF g(1)]
  with g mine show ?thesis by (auto simp: AddBlock_def res_simps unused_def)
next
  case (follow b bc1)
  note keeps = GetUpdateStatusTrie_keeps [OF follow(6)]
  have "BH_ParentBlockHash (B_Header b) = B_Hash (CurrentBlock bc)"
    using follow(1) by (auto simp: IsValidBlock_def split: if_splits)
  with follow keeps assms(1) show ?thesis by (auto simp: AddBlock_def res_simps unused_def)
next
  case (receive ac as)
  then show ?thesis
    by (auto simp: AddAccounts_def res_simps Let_def NewBlock_def unused_def split: if_splits)
qed (auto simp: SendTx2Pool_def Update_PartitionMap_def AddBlock_def)

lemma stores_step:
  assumes "bolt_laws E" and "\<not> P_UTXO E" and "chain_step E bc bc'" and "stores E bc bs"
  shows "\<exists>bs'. stores E bc' bs'"
  using chain_step_blocks [OF assms(2,3)]
proof
  assume "CurrentBlock bc' = CurrentBlock bc \<and> Storage bc' = Storage bc"
  with assms(4) show ?thesis using stores_cong by blast
next
  assume "\<exists>b. Storage_AddBlock E b (Storage bc) = Inr (Storage bc') \<and> CurrentBlock bc' = b \<and>
       K_get E (blockBucket (Storage bc)) (B_Hash b) = None \<and>
       B_Number b = B_Number (CurrentBlock bc) + 1 \<and>
       BH_ParentBlockHash (B_Header b) = B_Hash (CurrentBlock bc)"
  then obtain b where add: "Storage_AddBlock E b (Storage bc) = Inr (Storage bc')" and tip: "CurrentBlock bc' = b"
    and b: "K_get E (blockBucket (Storage bc)) (B_Hash b) = None" "B_Number b = B_Number (CurrentBlock bc) + 1"
      "BH_ParentBlockHash (B_Header b) = B_Hash (CurrentBlock bc)" by blast
  have fresh: "B_Hash b \<notin> B_Hash ` set bs" using b(1) assms(4) by (simp add: stores_def map_of_by_hash_None)
  have "chain_list (bs @ [b])" using chain_list_snoc [of bs b] b(2,3) assms(4) by (simp add: stores_def)
  moreover have "K_get E (blockBucket (Storage bc')) = map_of (by_hash (bs @ [b]))"
    using Storage_AddBlock_D(1) [OF assms(1) add] assms(4) fresh
    by (simp add: stores_def map_of_by_hash_snoc)
  moreover have "tip_stored E bc'" using Storage_AddBlock_get [OF assms(1) add] tip by (simp add: tip_stored_def)
  ultimately have "stores E bc' (bs @ [b])" using fresh tip assms(4) by (simp add: stores_def)
  then show ?thesis by blast
qed

lemma stores_start:
  assumes "bolt_laws E" and "\<not> P_UTXO E" and "NewBlockChain E cc d (\<lambda>_. None) = Inr bc"
  shows "stores E bc [CurrentBlock bc]"
proof -
  obtain gb where add: "Storage_AddBlock E gb (NewStorage E (\<lambda>_. None)) = Inr (Storage bc)"
    and gb: "CurrentBlock bc = gb" "B_Number gb = 0" "BH_ParentBlockHash (B_Header gb) = []"
    using NewBlockChain_first [OF assms] by blast
  have "K_get E (blockBucket (NewStorage E (\<lambda>_. None))) = Map.empty"
    by (simp add: NewStorage_def bucket_or_new_def fun_eq_iff bolt_get_new [OF assms(1)])
  with Storage_AddBlock_D(1) [OF assms(1) add] gb Storage_AddBlock_get [OF assms(1) add]
  show ?thesis by (simp add: stores_def chain_list_def by_hash_def tip_stored_def)
qed

lemma reachable_stores:
  assumes "bolt_laws E" and "\<not> P_UTXO E" and "chain_reachable E bc"
  shows "\<exists>bs. stores E bc bs"
  using assms(3)
proof (induction rule: chain_reachable.induct)
  case (start cc d bc)
  then show ?case using stores_start [OF assms(1,2)] by blast
next
  case (step bc bc')
  then show ?case using stores_step [OF assms(1,2)] by blast
qed

section \<open>Reading the chain\<close>

lemma initStorage_disk [simp]: "initStorage E (disk_of s) = s"
  by (simp add: initStorage_def NewStorage_def disk_of_def bucket_or_new_def)

text \<open>The cursor visits the blocks of the chain, in the order of their hashes.\<close>

lemma cursor_blocks:
  assumes "bolt_laws E" and "K_get E k = map_of (by_hash bs)" and "distinct (map B_Hash bs)"
  shows "\<exists>ds. K_list E k = by_hash ds \<and> mset ds = mset bs"
proof -
  have wf: "wf_map (K_list E k)" and get: "map_of (K_list E k) = map_of (by_hash bs)"
    using assms(1,2) by (simp_all add: bolt_laws_def)
  have "wf_map (by_hash bs)" using assms(3) by (simp add: wf_map_def)
  with wf get have eq: "set (K_list E k) = set (by_hash bs)"
    by (metis gget_set subset_antisym subrelI)
  then have "\<exists>ds. K_list E k = by_hash ds"
    unfolding by_hash_def by (subst ex_map_conv) auto
  then obtain ds where ds: "K_list E k = by_hash ds" by blast
  have "inj (\<lambda>b. (B_Hash b, GobB b))" by (rule injI) simp
  with eq ds have "set ds = set bs" by (simp add: by_hash_def inj_image_eq_iff)
  moreover have "distinct ds" "distinct bs"
    using wf ds assms(3) by (simp_all add: wf_map_def distinct_map)
  ultimately show ?thesis using ds set_eq_iff_mset_eq_distinct by blast
qed

lemma scan_decodes:
  "rfold (\<lambda>(k, v) s. rbind (DecodeB v) (\<lambda>b. Inr (f b s))) (by_hash ds) s = Inr (fold f ds s)"
  by (induction ds arbitrary: s) (simp_all add: by_hash_def)

lemma fold_snoc: "fold (\<lambda>b blocks. blocks @ [b]) ds xs = xs @ ds"
  by (induction ds arbitrary: xs) simp_all

text \<open>Keeping the last match finds the only match.\<close>

lemma fold_pick:
  assumes "\<forall>x \<in> set ds. P x \<longrightarrow> x = y" and "acc = None \<or> acc = Some y"
  shows "fold (\<lambda>x acc. if P x then Some x else acc) ds acc =
    (if acc = Some y \<or> (\<exists>x \<in> set ds. P x) then Some y else None)"
  using assms by (induction ds arbitrary: acc) auto

lemma pick_number:
  assumes "chain_list bs" and "mset ds = mset bs" and "length bs \<le> 2 ^ 64"
  shows "fold (\<lambda>b acc. if B_Number b = n then Some b else acc) ds None =
    (if unat n < length bs then Some (bs ! unat n) else None)"
proof -
  have num: "B_Number b = n \<longleftrightarrow> unat n < length bs \<and> b = bs ! unat n" if mem: "b \<in> set bs" for b
  proof -
    obtain i where i: "i < length bs" "b = bs ! i" using mem by (metis in_set_conv_nth)
    have word: "B_Number (bs ! j) = of_nat j" if "j < length bs" for j
      using that assms(1) by (simp add: chain_list_def)
    have "i < 2 ^ 64" using i(1) assms(3) by (rule less_le_trans)
    then have "unat (B_Number b) = i" using word [OF i(1)] i(2) by (simp only: unat_of_nat_u64)
    moreover have "B_Number (bs ! unat n) = n" if "unat n < length bs"
      using word [OF that] by (simp only: of_nat_unat ucast_id)
    ultimately show ?thesis using i by blast
  qed
  have "set ds = set bs" using assms(2) by (rule mset_eq_setD)
  with num have "\<forall>b \<in> set ds. B_Number b = n \<longrightarrow> b = bs ! unat n"
    and "(\<exists>b \<in> set ds. B_Number b = n) = (unat n < length bs)" by (auto intro: nth_mem)
  then show ?thesis by (simp add: fold_pick [where y = "bs ! unat n"])
qed



text \<open>A query for an account agrees with the node, where there is one. On the databases a node was
  started from, \<open>QueryAccountState\<close> returns what the node itself finds for an address with an account;
  for an address that has none yet, where the node starts with the initial balance, the query
  panics.\<close>

theorem account_query_agrees:
  assumes "tip_stored E bc" and "\<not> P_UTXO E"
    and "T_new E (BytesToHash E (B_StateRoot (CurrentBlock bc))) (T_open E d) = Some st"
    and "wf_state E st"
  shows "\<exists>bc'. NewBlockChain E cc d (disk_of (Storage bc)) = Inr bc' \<and>
    (\<forall>addr. case T_get E st addr of
       Some _ \<Rightarrow> \<exists>a. QueryAccountState E d (disk_of (Storage bc)) addr = Inr a \<and> FetchAccounts E [addr] bc' = Inr [a]
     | None \<Rightarrow> QueryAccountState E d (disk_of (Storage bc)) addr = Inl (Panic ''gob: decode AccountState'') \<and>
               FetchAccounts E [addr] bc' = Inr [new_AccountState 0 Init_Balance])"
proof -
  let ?disk = "disk_of (Storage bc)"
  have "initStorage E ?disk = Storage bc" by simp
  then have new: "NewStorage E ?disk = Storage bc" by (simp add: initStorage_def)
  obtain bc' where bc': "NewBlockChain E cc d ?disk = Inr bc'" "CurrentBlock bc' = CurrentBlock bc"
    "triedb bc' = Some (T_open E d)"
    using assms(1-3) new by (auto simp: NewBlockChain_def tip_stored_def must_be_def Let_def)
  have query: "QueryAccountState E d ?disk addr = (case T_get E st addr of
      None \<Rightarrow> Inl (Panic ''gob: decode AccountState'') | Some asenc \<Rightarrow> DecodeAS asenc)" for addr
    using assms(1,3) by (simp add: QueryAccountState_def tip_stored_def Let_def)
  have fetch: "FetchAccounts E [addr] bc' = rbind (load_account E st 0 addr) (\<lambda>a. Inr [a])" for addr
    using bc' assms(3)
    by (cases "load_account E st 0 addr") (simp_all add: FetchAccounts_def open_trie_def get_triedb_def)
  show ?thesis
    using assms(4) bc'(1)
    by (fastforce simp: query fetch load_account_def wf_state_def split: option.splits)
qed

theorem account_query_agrees_witness:
  "QueryAccountState (demo_env False 2) Map.empty (disk_of (Storage demo_boot)) ''ab'' =
    Inl (Panic ''gob: decode AccountState'')"
proof -
  let ?E = "demo_env False 2"
  have utxo: "\<not> P_UTXO ?E" by (simp add: demo_env_def)
  have "tip_stored ?E demo_boot"
    using stores_start [OF demo_bolt_laws utxo demo_boot_new] by (simp add: stores_def)
  moreover have "T_new ?E (BytesToHash ?E (B_StateRoot (CurrentBlock demo_boot))) (T_open ?E Map.empty) = Some []"
    using NewBlockChain_first [OF demo_bolt_laws utxo demo_boot_new] by (auto simp: demo_env_def)
  moreover have "wf_state ?E []" by (simp add: wf_state_def demo_env_def)
  ultimately obtain bc' where "\<forall>addr. case T_get ?E [] addr of
       Some _ \<Rightarrow> \<exists>a. QueryAccountState ?E Map.empty (disk_of (Storage demo_boot)) addr = Inr a \<and>
                     FetchAccounts ?E [addr] bc' = Inr [a]
     | None \<Rightarrow> QueryAccountState ?E Map.empty (disk_of (Storage demo_boot)) addr =
                 Inl (Panic ''gob: decode AccountState'') \<and>
               FetchAccounts ?E [addr] bc' = Inr [new_AccountState 0 Init_Balance]"
    using account_query_agrees [of ?E demo_boot Map.empty "[]" "ChainConfig demo_boot"] utxo by blast
  from this [rule_format, of "''ab''"] show ?thesis by (simp add: demo_env_def)
qed

end
