(* ===== verification/Spec2Isabelle.thy ===== *)
theory Spec2Isabelle
  imports TxPools Network UTXOs UTXOSet PbftFlaws ClpaBroker HotstuffProps PartitionProps CommitteeProps BuildProps Query
begin

text \<open>
  Verification of the UTXO block emulator, a simulator of sharded blockchains written in Go. The
  program runs many processes: the nodes of every shard agree on blocks of account or UTXO
  transactions by PBFT or Sync HotStuff, execute them on a state trie and hand transactions and, when
  the accounts are repartitioned, accounts between shards over; a supervisor reads transactions from
  a data file, injects them into the shards, repartitions the accounts, measures the throughput and
  decides when to stop.

  \<^bold>\<open>Parts of the program and the theories that model them.\<close>

  \<^item> \<^verbatim>\<open>Prelude\<close>: Go's built-in types, results with panics (\<open>res\<close>), Go maps as association lists, the
    loop \<open>rfold\<close>, and the lemmas the components share.
  \<^item> \<^verbatim>\<open>Utils\<close>: \<^verbatim>\<open>src/utils\<close>, the default shard of an address; hexadecimal coding.
  \<^item> \<^verbatim>\<open>Core\<close>: \<^verbatim>\<open>src/core\<close> and \<^verbatim>\<open>src/params\<close>, account states, transactions, UTXO transactions, blocks
    and the chain configuration. \<^verbatim>\<open>TxPools\<close>: the two transaction pools.
  \<^item> \<^verbatim>\<open>Messages\<close>: \<^verbatim>\<open>src/message\<close>, \<^verbatim>\<open>src/shard\<close> and the framing on a connection. \<^verbatim>\<open>Network\<close>: \<^verbatim>\<open>src/networks\<close>, the
    connection pool.
  \<^item> \<^verbatim>\<open>Env\<close>: what comes from outside, the trie of go-ethereum, the key-value store bolt and the hash
    functions, as one record of operations with the laws \<open>trie_laws\<close> and \<open>bolt_laws\<close>.
  \<^item> \<^verbatim>\<open>Storages\<close>: \<^verbatim>\<open>src/storage/storage.go\<close>. \<^verbatim>\<open>Chain\<close>: \<^verbatim>\<open>src/chain/blockchain.go\<close>, execution of blocks,
    generation, validation and addition of blocks, genesis and restart, moving of accounts.
  \<^item> \<^verbatim>\<open>Ledger\<close>: an abstract ledger, balances only, and the refinement of block execution to it.
    \<^verbatim>\<open>ChainInv\<close>: the chain as a state machine and its invariant.
  \<^item> \<^verbatim>\<open>UTXOs\<close>, \<^verbatim>\<open>UTXOSet\<close>: \<^verbatim>\<open>src/chain/utxo_set.go\<close> and the UTXO side of the chain, once with the
    outputs in the state trie and once with the UTXO set in bolt.
  \<^item> \<^verbatim>\<open>Pbft\<close>: \<^verbatim>\<open>pbft.go\<close>, \<^verbatim>\<open>messageHandle.go\<close> and \<^verbatim>\<open>toolFuncs.go\<close> of \<^verbatim>\<open>src/consensus_shard/pbft_all\<close>, the
    node and its handlers, which take the inside module as a record of functions. \<^verbatim>\<open>PbftMods\<close>: the
    relay, UTXO relay and broker modules. \<^verbatim>\<open>PbftProps\<close>, \<^verbatim>\<open>PbftSafety\<close>, \<^verbatim>\<open>PbftFlaws\<close>: runs of a node, what
    they guarantee, and what they do not. \<^verbatim>\<open>CrossShard\<close>: transactions between shards.
  \<^item> \<^verbatim>\<open>Clpa\<close>: the modules \<^verbatim>\<open>CLPA\<close> and \<^verbatim>\<open>CLPA_Broker\<close> of PBFT (\<^verbatim>\<open>pbftInside_moduleCLPA.go\<close>,
    \<^verbatim>\<open>pbftOutside_moduleCLPA.go\<close>, \<^verbatim>\<open>accountTransfer_module.go\<close> and their broker variants). The proposing
    loop waits for other shards, so \<^verbatim>\<open>HandleinPropose\<close> is a state machine with the program counter
    \<open>PN_propose_pc\<close>; \<open>PN_cdm\<close> is the data shared with the outside module. \<^verbatim>\<open>ClpaProps\<close>, \<^verbatim>\<open>ClpaBroker\<close>:
    what a re-sharding sends and what it delivers.
  \<^item> \<^verbatim>\<open>Hotstuff\<close>, \<^verbatim>\<open>HotstuffProps\<close>: \<^verbatim>\<open>src/consensus_shard/synchotstuff_all\<close>. The goroutines that wait to
    commit are the list \<open>HN_waiting\<close>; the expiry of a timer is an event of the node, and a handler
    that hangs on the channel that is never made keeps \<open>HN_tcpPoolLock\<close>.
  \<^item> \<^verbatim>\<open>Partition\<close>, \<^verbatim>\<open>PartitionProps\<close>: \<^verbatim>\<open>src/partition\<close>, the constrained label propagation.
  \<^item> \<^verbatim>\<open>Committee\<close>, \<^verbatim>\<open>CommitteeProps\<close>: \<^verbatim>\<open>src/supervisor/committee\<close>, \<^verbatim>\<open>src/supervisor/signal\<close> and \<^verbatim>\<open>src/broker\<close>.
    \<^verbatim>\<open>Measure\<close>, \<^verbatim>\<open>MeasureProps\<close>: \<^verbatim>\<open>src/supervisor/measure\<close>, the eight measuring modules; \<open>MM_\<close>
    constructors wrap their records for the supervisor. \<^verbatim>\<open>Supervisor\<close>: \<^verbatim>\<open>src/supervisor/supervisor.go\<close>,
    with the committee and the measuring modules, up to the result files.
  \<^item> \<^verbatim>\<open>Query\<close>: \<^verbatim>\<open>src/query\<close>, the queries on the databases of a node.
  \<^item> \<^verbatim>\<open>Build\<close>, \<^verbatim>\<open>BuildProps\<close>: \<^verbatim>\<open>src/build\<close>, \<^verbatim>\<open>src/main.go\<close> and the global parameters of \<^verbatim>\<open>src/params\<close>: the
    address table, starting the supervisor and the nodes, and the generated scripts.

  \<^bold>\<open>State and operations.\<close> A Go struct is a record with a prefix for its type (\<^verbatim>\<open>pbft.sequenceID\<close> is
  \<open>PN_sequenceID\<close>), a method is a function of the same name that returns the new record, an error
  or a panic is \<open>Inl\<close>, and what a function sends is a list of addresses and messages. A handler
  runs under one lock, so it is one step; locks that are held from one step to another are part of
  the state. \<^verbatim>\<open>time.Now()\<close>, random numbers and the orders in which maps are visited are arguments.
  The files of a process are arguments too.

  \<^bold>\<open>What the lemmas show.\<close>

  \<^item> \<^emph>\<open>Chain and ledger\<close>: executing a block implements the abstract ledger; no balance becomes
    negative; a block changes the total of a shard by what it credits minus what it debits; a
    replica that executes the block of the leader agrees with it; in every reachable state the
    stored blocks form a chain down to the genesis block, and are exactly the list of blocks the
    queries return; a restart finds the tip again; accounts can be moved between shards.
  \<^item> \<^emph>\<open>UTXO\<close>: making and recording a UTXO transaction moves its amount, balances stay the sums of the
    unspent outputs and no output is spent twice; the walk over the chain ends.
  \<^item> \<^emph>\<open>PBFT\<close>: no request is executed twice, only after enough commit messages, and the sequence
    number counts the executions; a replica that gets a valid proposal and a quorum commits it.
    This holds for all five kinds of inside modules.
  \<^item> \<^emph>\<open>Re-sharding\<close>: every account that leaves a shard is sent, with its state, to the shard the new
    partition names, and arrives there unchanged; the queue of transactions is divided between the
    shards, and with brokers the supervisor, without loss.
  \<^item> \<^emph>\<open>Sync HotStuff\<close>: a round with an honest leader ends with the same block everywhere; an expiring
    timer commits exactly the block that was proposed.
  \<^item> \<^emph>\<open>Pools, messages, storage\<close>: nothing is lost, duplicated or reordered; encodings round-trip; a
    peer reads the messages written to its connection in order.
  \<^item> \<^emph>\<open>Partition\<close>: the incremental weights are exact, the algorithm keeps its counters and leaves no
    shard empty, for any floating-point arithmetic and any visiting order.
  \<^item> \<^emph>\<open>Committees and supervisor\<close>: every transaction read is injected exactly once into the right
    shard, apart from an incomplete last batch; the CLPA committee keeps its invariant whatever the
    order of events; a transfer through a broker completes, in both broker committees; the
    supervisor stops when all is quiet.
  \<^item> \<^emph>\<open>Measuring\<close>: no measuring module panics whatever reports arrive, and where \<^verbatim>\<open>float64\<close> sums are
    exact the modules of the relay scheme agree with each other.
  \<^item> \<^emph>\<open>Starting\<close>: supervisor and nodes started from one command line agree on addresses, modules and
    measurements; the shell script starts every process once, the leaders last.
  \<^item> \<^emph>\<open>Deviations\<close>: money is made when an uncovered cross-shard transaction is relayed; repeated
    commit messages of one node make a quorum; a node that fell behind does not catch up, with the
    broker module never; relayed UTXO transactions are never sent; spending two outputs of a
    transaction in index order leaves one in the UTXO set; a vote for another digest, or one that
    overtakes its proposal, blocks a Sync HotStuff replica and does not stop its commit; an epoch
    without transactions spoils the measured throughput; with more than 100 nodes in a shard two
    nodes get one address; querying an address without an account panics; a
    broken connection is never dialled again.

  \<^bold>\<open>Interfaces\<close> are locales with interpretations on the model: \<open>fifo_pool\<close> and \<open>relay_pool\<close> for the
  transaction pools, \<open>inside_mod\<close> for the inside modules of PBFT, \<open>injector\<close> for the routing of the
  committees, \<open>measuring\<close> for the measuring modules.

  \<^bold>\<open>Bounds and fuel.\<close> \<^verbatim>\<open>uint64\<close> is a 64-bit word and wraps; balances and UTXO values are unbounded as
  \<^verbatim>\<open>big.Int\<close>, counters of the committees and of the partition are \<open>int\<close>, far from the limits of 64
  bits. The walk over the chain in \<^verbatim>\<open>UTXOSet\<close> is the only loop with fuel; height plus one is enough.
  The \<^verbatim>\<open>for\<close> loops of \<^verbatim>\<open>TxHandling\<close> recurse over the records, the waiting loops are given by one round.

  \<^bold>\<open>Not modelled\<close>: listening for connections, whose effect is that of the messages that are read;
  logs and the CSV lines nodes write after a commit, which nothing reads;
  printing; parsing of the command line (\<^verbatim>\<open>pflag\<close>); the test drivers. The byte formats of \<^verbatim>\<open>gob\<close> and JSON
  are those of the Go library: an encoded value is represented by the value, and decoding at another
  type panics.
\<close>

end
